theory Spec2Isabelle
  imports Complex_Main "HOL-Library.FSet"
begin

section \<open>Strings\<close>

text \<open>
  Room codes, display names and messages are JavaScript strings. They are modelled as
  \<^typ>\<open>string\<close>, restricted to ASCII: \<open>toUpperCase\<close> and \<open>toLowerCase\<close> map the 26 letters and
  leave every other character alone, and \<open>trim\<close> removes the ASCII white space. Accented
  letters, the typographic apostrophe and the dash of the French messages of the source are
  written with their ASCII base characters.
\<close>

definition lowerLetters :: string where
  "lowerLetters = ''abcdefghijklmnopqrstuvwxyz''"

definition upperLetters :: string where
  "upperLetters = ''ABCDEFGHIJKLMNOPQRSTUVWXYZ''"

definition toUpperChar :: "char \<Rightarrow> char" where
  "toUpperChar c = (case map_of (zip lowerLetters upperLetters) c of None \<Rightarrow> c | Some u \<Rightarrow> u)"

definition toLowerChar :: "char \<Rightarrow> char" where
  "toLowerChar c = (case map_of (zip upperLetters lowerLetters) c of None \<Rightarrow> c | Some l \<Rightarrow> l)"

definition toUpperCase :: "string \<Rightarrow> string" where
  "toUpperCase s = map toUpperChar s"

definition toLowerCase :: "string \<Rightarrow> string" where
  "toLowerCase s = map toLowerChar s"

definition isSpace :: "char \<Rightarrow> bool" where
  "isSpace c = (c \<in> set [CHR '' '', CHR 0x09, CHR 0x0A, CHR 0x0B, CHR 0x0C, CHR 0x0D])"

definition trim :: "string \<Rightarrow> string" where
  "trim s = rev (dropWhile isSpace (rev (dropWhile isSpace s)))"

text \<open>Truthiness of an optional string: \<open>undefined\<close> and the empty string are falsy.\<close>

fun truthy :: "string option \<Rightarrow> bool" where
  "truthy None = False"
| "truthy (Some s) = (s \<noteq> [])"

section \<open>Persisted entities\<close>

text \<open>
  The four tables of the initial migration. A primary key is an opaque non-empty string
  that the store generates; it is modelled as a number drawn from the counter \<open>nextId\<close>
  of the state, and an optional id is \<open>None\<close> where the source has \<open>undefined\<close> or the
  empty string. A date is a number of milliseconds.

  Modelled from the spec: the enumerations \<open>CrisisSeverity\<close>, \<open>EventSource\<close> and
  \<open>MessageType\<close> of the generated database client, which is not part of the sources;
  the columns that hold them are text.
\<close>

type_synonym entity_id = nat
type_synonym timestamp = nat

datatype CrisisSeverity = LOW | MODERATE | HIGH | CRITICAL
datatype EventSource = MANUAL | SCHEDULER
datatype MessageType = CHAT | EVENT | SYSTEM

record Room =
  r_id :: entity_id
  r_code :: string
  r_title :: "string option"
  r_isActive :: bool
  r_createdAt :: timestamp
  r_updatedAt :: timestamp

record Participant =
  p_id :: entity_id
  p_roomId :: entity_id
  p_displayName :: string
  p_role :: "string option"
  p_isConnected :: bool
  p_joinedAt :: timestamp
  p_leftAt :: "timestamp option"

record Message =
  m_id :: entity_id
  m_roomId :: entity_id
  m_authorName :: "string option"
  m_type :: MessageType
  m_content :: string
  m_metadata :: "(string \<times> EventSource) option"
  m_createdAt :: timestamp

record CrisisEvent =
  e_id :: entity_id
  e_roomId :: entity_id
  e_title :: string
  e_description :: string
  e_severity :: CrisisSeverity
  e_source :: EventSource
  e_scheduledFor :: "timestamp option"
  e_triggeredAt :: timestamp
  e_ackAt :: "timestamp option"
  e_payload :: "string option"

text \<open>
  Modelled from the spec: the enum object \<open>CrisisSeverity\<close> of the generated database
  client, which is not part of the sources. Its own properties are the four names of the
  fixed enumeration, each mapped to the value of the same name.
\<close>

definition CrisisSeverityEnum :: "(string \<times> CrisisSeverity) list" where
  "CrisisSeverityEnum =
     [(''LOW'', LOW), (''MODERATE'', MODERATE), (''HIGH'', HIGH), (''CRITICAL'', CRITICAL)]"

fun severityName :: "CrisisSeverity \<Rightarrow> string" where
  "severityName LOW = ''LOW''"
| "severityName MODERATE = ''MODERATE''"
| "severityName HIGH = ''HIGH''"
| "severityName CRITICAL = ''CRITICAL''"

section \<open>Connections, outbound events and the server state\<close>

record CrisisSocketData =
  roomCode :: "string option"
  roomId :: "entity_id option"
  participantId :: "entity_id option"
  displayName :: "string option"
  isAdmin :: "bool option"

definition noData :: CrisisSocketData where
  "noData = \<lparr>roomCode = None, roomId = None, participantId = None,
              displayName = None, isAdmin = None\<rparr>"

record ParticipantView =
  v_id :: entity_id
  v_displayName :: string
  v_role :: string
  v_isAdmin :: bool
  v_isConnected :: bool
  v_joinedAt :: timestamp
  v_leftAt :: "timestamp option"

datatype ServerEvent =
    SystemAnnouncement string
  | SystemError string
  | ChatMessage entity_id string string timestamp
  | EventCreated entity_id string string CrisisSeverity EventSource timestamp
  | ParticipantUpdate "ParticipantView list"

text \<open>
  \<open>socket.emit\<close> reaches one connection, \<open>server.to(room).emit\<close> the connections that are
  in the channel of that name when it is sent.
\<close>

datatype emission = ToSocket string ServerEvent | ToRoom string ServerEvent

record ScheduledEventPayload =
  sp_roomCode :: string
  sp_severity :: "string option"
  sp_title :: string
  sp_description :: string
  sp_triggeredAt :: timestamp

record timer =
  t_room :: string
  t_delay :: int

text \<open>
  The state of the process: the tables, the gateway's module variables (\<open>io\<close>,
  \<open>roomConnections\<close>), what the socket library holds for each connection (its data and
  the members of each channel, in the order they joined), the scheduler's module
  variable \<open>activeSchedulers\<close> with the timers that are armed, and the log of everything
  sent to clients.
\<close>

record server =
  rooms :: "Room list"
  participants :: "Participant list"
  messages :: "Message list"
  crisisEvents :: "CrisisEvent list"
  nextId :: entity_id
  io :: bool
  roomConnections :: "string \<rightharpoonup> string fset"
  socketData :: "string \<Rightarrow> CrisisSocketData"
  channels :: "string \<Rightarrow> string list"
  activeSchedulers :: "string \<rightharpoonup> nat"
  pending :: "(nat \<times> timer) list"
  nextHandle :: nat
  outbox :: "emission list"

definition initial :: server where
  "initial = \<lparr>rooms = [], participants = [], messages = [], crisisEvents = [], nextId = 0,
     io = True, roomConnections = Map.empty, socketData = (\<lambda>_. noData),
     channels = (\<lambda>_. []), activeSchedulers = Map.empty, pending = [], nextHandle = 0,
     outbox = []\<rparr>"

definition emit :: "emission \<Rightarrow> server \<Rightarrow> server" where
  "emit m s = s\<lparr>outbox := outbox s @ [m]\<rparr>"

definition socketJoin :: "string \<Rightarrow> string \<Rightarrow> server \<Rightarrow> server" where
  "socketJoin sid room s =
     s\<lparr>channels := (channels s)(room :=
        (if sid \<in> set (channels s room) then channels s room else channels s room @ [sid]))\<rparr>"

definition socketLeave :: "string \<Rightarrow> string \<Rightarrow> server \<Rightarrow> server" where
  "socketLeave sid room s =
     s\<lparr>channels := (channels s)(room := removeAll sid (channels s room))\<rparr>"

definition socketLeaveAll :: "string \<Rightarrow> server \<Rightarrow> server" where
  "socketLeaveAll sid s = s\<lparr>channels := (\<lambda>room. removeAll sid (channels s room))\<rparr>"

section \<open>The scheduler\<close>

text \<open>
  \<open>Math.random()\<close> is a parameter of every operation that draws a number, a real \<open>r\<close>
  with \<open>0 \<le> r < 1\<close>. A timer handle is the object returned by \<open>setTimeout\<close>, always
  truthy; handles are numbered by \<open>nextHandle\<close>.
\<close>

definition randomBetween :: "real \<Rightarrow> real \<Rightarrow> real \<Rightarrow> int" where
  "randomBetween minMs maxMs r =
     (let min = \<lceil>minMs\<rceil>; max = \<lfloor>maxMs\<rfloor>
      in \<lfloor>r * real_of_int (max - min + 1)\<rfloor> + min)"

definition setTimeout :: "string \<Rightarrow> int \<Rightarrow> server \<Rightarrow> nat \<times> server" where
  "setTimeout room delay s =
     (nextHandle s,
      s\<lparr>pending := pending s @ [(nextHandle s, \<lparr>t_room = room, t_delay = delay\<rparr>)],
        nextHandle := Suc (nextHandle s)\<rparr>)"

definition clearTimeout :: "nat \<Rightarrow> server \<Rightarrow> server" where
  "clearTimeout h s = s\<lparr>pending := filter (\<lambda>(h', t). h' \<noteq> h) (pending s)\<rparr>"

definition startRoomScheduler :: "string \<Rightarrow> real \<Rightarrow> server \<Rightarrow> server" where
  "startRoomScheduler code r s =
     (if activeSchedulers s code \<noteq> None then s
      else let intervalMs = randomBetween 15000 30000 r;
               (timeout, s') = setTimeout code intervalMs s
           in s'\<lparr>activeSchedulers := (activeSchedulers s')(code \<mapsto> timeout)\<rparr>)"

definition stopRoomScheduler :: "string \<Rightarrow> server \<Rightarrow> server" where
  "stopRoomScheduler code s =
     (case activeSchedulers s code of
        None \<Rightarrow> s
      | Some scheduler \<Rightarrow>
          (let s' = clearTimeout scheduler s
           in s'\<lparr>activeSchedulers := (activeSchedulers s')(code := None)\<rparr>))"

definition severityOptions :: "string list" where
  "severityOptions = [''LOW'', ''MODERATE'', ''HIGH'']"

text \<open>Reading an array at an index: \<open>undefined\<close> outside the array.\<close>

definition at_index :: "'a list \<Rightarrow> int \<Rightarrow> 'a option" where
  "at_index xs i = (if 0 \<le> i \<and> i < int (length xs) then Some (xs ! nat i) else None)"

definition show_undefined :: "string option \<Rightarrow> string" where
  "show_undefined x = (case x of None \<Rightarrow> ''undefined'' | Some v \<Rightarrow> v)"

text \<open>The payload that one run of \<open>tick\<close> emits for a room.\<close>

definition tickPayload :: "string \<Rightarrow> real \<Rightarrow> timestamp \<Rightarrow> ScheduledEventPayload" where
  "tickPayload code r now =
     (let severity = at_index severityOptions \<lfloor>r * real (length severityOptions)\<rfloor>
      in \<lparr>sp_roomCode = code, sp_severity = severity,
          sp_title = ''Evenement aleatoire ('' @ show_undefined severity @ '')'',
          sp_description = ''Placeholder - brancher le generateur metier.'',
          sp_triggeredAt = now\<rparr>)"

section \<open>The store\<close>

definition findRoomByCode :: "string \<Rightarrow> server \<Rightarrow> Room option" where
  "findRoomByCode code s = find (\<lambda>r. r_code r = code) (rooms s)"

definition findRoomById :: "entity_id \<Rightarrow> server \<Rightarrow> Room option" where
  "findRoomById rid s = find (\<lambda>r. r_id r = rid) (rooms s)"

definition createRoom :: "string \<Rightarrow> timestamp \<Rightarrow> server \<Rightarrow> Room \<times> server" where
  "createRoom code now s =
     (let room = \<lparr>r_id = nextId s, r_code = code, r_title = Some (''Salle '' @ code),
                   r_isActive = True, r_createdAt = now, r_updatedAt = now\<rparr>
      in (room, s\<lparr>rooms := rooms s @ [room], nextId := Suc (nextId s)\<rparr>))"

definition findParticipant :: "entity_id \<Rightarrow> string \<Rightarrow> server \<Rightarrow> Participant option" where
  "findParticipant rid name s =
     find (\<lambda>p. p_roomId p = rid \<and> p_displayName p = name) (participants s)"

definition updateParticipants ::
  "(Participant \<Rightarrow> bool) \<Rightarrow> (Participant \<Rightarrow> Participant) \<Rightarrow> server \<Rightarrow> server" where
  "updateParticipants P f s =
     s\<lparr>participants := map (\<lambda>p. if P p then f p else p) (participants s)\<rparr>"

definition createParticipant ::
  "entity_id \<Rightarrow> string \<Rightarrow> string \<Rightarrow> timestamp \<Rightarrow> server \<Rightarrow> Participant \<times> server" where
  "createParticipant rid name role now s =
     (let p = \<lparr>p_id = nextId s, p_roomId = rid, p_displayName = name, p_role = Some role,
                p_isConnected = True, p_joinedAt = now, p_leftAt = None\<rparr>
      in (p, s\<lparr>participants := participants s @ [p], nextId := Suc (nextId s)\<rparr>))"

definition createMessage ::
  "entity_id \<Rightarrow> string option \<Rightarrow> MessageType \<Rightarrow> string \<Rightarrow> (string \<times> EventSource) option
     \<Rightarrow> timestamp \<Rightarrow> server \<Rightarrow> Message \<times> server" where
  "createMessage rid author ty content meta now s =
     (let m = \<lparr>m_id = nextId s, m_roomId = rid, m_authorName = author, m_type = ty,
                m_content = content, m_metadata = meta, m_createdAt = now\<rparr>
      in (m, s\<lparr>messages := messages s @ [m], nextId := Suc (nextId s)\<rparr>))"

definition createCrisisEvent ::
  "entity_id \<Rightarrow> string \<Rightarrow> string \<Rightarrow> CrisisSeverity \<Rightarrow> EventSource \<Rightarrow> timestamp
     \<Rightarrow> server \<Rightarrow> CrisisEvent \<times> server" where
  "createCrisisEvent rid title description severity source triggered s =
     (let e = \<lparr>e_id = nextId s, e_roomId = rid, e_title = title, e_description = description,
                e_severity = severity, e_source = source, e_scheduledFor = None,
                e_triggeredAt = triggered, e_ackAt = None, e_payload = None\<rparr>
      in (e, s\<lparr>crisisEvents := crisisEvents s @ [e], nextId := Suc (nextId s)\<rparr>))"

section \<open>The gateway\<close>

definition toView :: "Participant \<Rightarrow> ParticipantView" where
  "toView p =
     (let role = (case p_role p of None \<Rightarrow> ''participant'' | Some r \<Rightarrow> r)
      in \<lparr>v_id = p_id p, v_displayName = p_displayName p, v_role = role,
          v_isAdmin = (toLowerCase role = ''formateur''), v_isConnected = p_isConnected p,
          v_joinedAt = p_joinedAt p, v_leftAt = p_leftAt p\<rparr>)"

definition broadcastParticipants :: "string \<Rightarrow> entity_id \<Rightarrow> server \<Rightarrow> server" where
  "broadcastParticipants code rid s =
     (let found = sort_key p_joinedAt (filter (\<lambda>p. p_roomId p = rid) (participants s))
      in emit (ToRoom code (ParticipantUpdate (map toView found))) s)"

definition roomMissingMessage :: "string \<Rightarrow> string" where
  "roomMissingMessage code =
     ''La salle '' @ code @ '' n existe pas encore. Demandez au formateur de la creer.''"

definition noCurrentRoomMessage :: string where
  "noCurrentRoomMessage = ''Impossible d identifier la salle courante.''"

definition formateurOnlyMessage :: string where
  "formateurOnlyMessage = ''Seul un formateur peut injecter un evenement.''"

definition roomUnknownMessage :: string where
  "roomUnknownMessage = ''Salle introuvable cote serveur.''"

definition invalidSeverityMessage :: string where
  "invalidSeverityMessage = ''Severite invalide pour l evenement.''"

text \<open>
  \<open>handleJoin\<close> awaits every call to the store, and the gateway starts the handler of
  the next message without waiting for the one before to end. Between the answer of
  \<open>findFirst\<close> (is there a participant of this name in the room?) and the \<open>update\<close> or
  \<open>create\<close> that acts on the answer, other handlers can run. The handler is therefore
  modelled in two parts. \<open>joinLookup\<close> is the handler up to the answer of \<open>findFirst\<close>: it
  ends in a rejection, or in a \<open>joinTask\<close>, the local variables of the suspended handler.
  \<open>joinComplete\<close> is the rest of the handler: it updates or creates the row from the
  answer that the task holds, whatever the table has become meanwhile.
\<close>

record joinTask =
  jt_sid :: string
  jt_code :: string
  jt_room :: Room
  jt_name :: string
  jt_admin :: bool
  jt_existing :: "Participant option"

text \<open>
  The conditional \<open>existingParticipant ? update : create\<close>. The row that \<open>update\<close>
  returns is the stored row of that key with the new values; the handler reads only its
  key and display name, which no command changes.
\<close>

definition saveParticipant ::
  "Participant option \<Rightarrow> entity_id \<Rightarrow> string \<Rightarrow> bool \<Rightarrow> timestamp \<Rightarrow> server
     \<Rightarrow> Participant \<times> server" where
  "saveParticipant existingParticipant rid name admin now s =
     (case existingParticipant of
        Some existing \<Rightarrow>
          (let upd = (\<lambda>p. p\<lparr>p_isConnected := True, p_leftAt := None,
                              p_role := (if admin then Some ''formateur'' else p_role existing)\<rparr>)
           in (upd existing, updateParticipants (\<lambda>p. p_id p = p_id existing) upd s))
      | None \<Rightarrow>
          createParticipant rid name (if admin then ''formateur'' else ''participant'') now s)"

definition addConnection :: "string \<Rightarrow> string \<Rightarrow> server \<Rightarrow> server" where
  "addConnection code sid s =
     (let connections = (case roomConnections s code of None \<Rightarrow> {||} | Some c \<Rightarrow> c)
      in s\<lparr>roomConnections := (roomConnections s)(code \<mapsto> finsert sid connections)\<rparr>)"

text \<open>
  After the row is written the connection enters the channel, its data is set, it is
  added to \<open>roomConnections\<close>, an admin starts the scheduler, and the room is told.
\<close>

definition joinComplete :: "joinTask \<Rightarrow> timestamp \<Rightarrow> real \<Rightarrow> server \<Rightarrow> server" where
  "joinComplete task now r s =
     (let normalizedCode = jt_code task; room = jt_room task; admin = jt_admin task;
          sid = jt_sid task;
          (participant, s1) = saveParticipant (jt_existing task) (r_id room) (jt_name task)
                                admin now s;
          s2 = socketJoin sid normalizedCode s1;
          s3 = s2\<lparr>socketData := (socketData s2)(sid :=
                 \<lparr>roomCode = Some normalizedCode, roomId = Some (r_id room),
                  participantId = Some (p_id participant),
                  displayName = Some (p_displayName participant), isAdmin = Some admin\<rparr>)\<rparr>;
          s4 = addConnection normalizedCode sid s3;
          s5 = (if admin then startRoomScheduler normalizedCode r s4 else s4);
          s6 = broadcastParticipants normalizedCode (r_id room) s5
      in emit (ToRoom normalizedCode (SystemAnnouncement
           (p_displayName participant @ '' a rejoint la salle''
              @ (if admin then '' (formateur)'' else []) @ ''.''))) s6)"

definition joinLookup ::
  "string \<Rightarrow> string \<Rightarrow> string \<Rightarrow> bool \<Rightarrow> timestamp \<Rightarrow> server \<Rightarrow> joinTask option \<times> server" where
  "joinLookup sid code name admin now s =
     (let normalizedCode = toUpperCase code;
          found = (\<lambda>room s'. (Some \<lparr>jt_sid = sid, jt_code = normalizedCode, jt_room = room,
                      jt_name = name, jt_admin = admin,
                      jt_existing = findParticipant (r_id room) name s'\<rparr>, s'))
      in case findRoomByCode normalizedCode s of
           None \<Rightarrow>
             (if \<not> admin
              then (None, emit (ToSocket sid (SystemError (roomMissingMessage normalizedCode))) s)
              else (let (room, s') = createRoom normalizedCode now s in found room s'))
         | Some room \<Rightarrow> found room s)"

text \<open>A join that no other handler overlaps: the lookup, and at once the rest.\<close>

definition handleJoin ::
  "string \<Rightarrow> string \<Rightarrow> string \<Rightarrow> bool \<Rightarrow> timestamp \<Rightarrow> real \<Rightarrow> server \<Rightarrow> server" where
  "handleJoin sid code name admin now r s =
     (case joinLookup sid code name admin now s of
        (None, s') \<Rightarrow> s'
      | (Some task, s') \<Rightarrow> joinComplete task now r s')"

text \<open>
  Shorthands for the case in which nothing runs between the lookup and what follows: the
  write with the answer of the lookup on the same state, and the rest of a join for a
  room already resolved.
\<close>

abbreviation saveAfterLookup ::
  "entity_id \<Rightarrow> string \<Rightarrow> bool \<Rightarrow> timestamp \<Rightarrow> server \<Rightarrow> Participant \<times> server" where
  "saveAfterLookup rid name admin now s \<equiv>
     saveParticipant (findParticipant rid name s) rid name admin now s"

abbreviation enterRoom ::
  "string \<Rightarrow> string \<Rightarrow> Room \<Rightarrow> string \<Rightarrow> bool \<Rightarrow> timestamp \<Rightarrow> real \<Rightarrow> server \<Rightarrow> server" where
  "enterRoom sid normalizedCode room name admin now r s \<equiv>
     joinComplete \<lparr>jt_sid = sid, jt_code = normalizedCode, jt_room = room, jt_name = name,
        jt_admin = admin, jt_existing = findParticipant (r_id room) name s\<rparr> now r s"

definition removeConnection :: "string \<Rightarrow> string \<Rightarrow> server \<Rightarrow> server" where
  "removeConnection code sid s =
     (case roomConnections s code of
        None \<Rightarrow> s
      | Some connections \<Rightarrow>
          (let connections' = connections |-| {|sid|};
               s' = s\<lparr>roomConnections := (roomConnections s)(code \<mapsto> connections')\<rparr>
           in if fcard connections' = 0
              then stopRoomScheduler code
                     (s'\<lparr>roomConnections := (roomConnections s')(code := None)\<rparr>)
              else s'))"

definition handleLeave :: "string \<Rightarrow> string \<Rightarrow> timestamp \<Rightarrow> server \<Rightarrow> server" where
  "handleLeave sid code now s =
     (let normalizedCode = toUpperCase code;
          d = socketData s sid;
          s1 = socketLeave sid normalizedCode s;
          s2 = (case participantId d of
                  None \<Rightarrow> s1
                | Some pid \<Rightarrow>
                    updateParticipants (\<lambda>p. p_id p = pid)
                      (\<lambda>p. p\<lparr>p_isConnected := False, p_leftAt := Some now\<rparr>) s1);
          s3 = removeConnection normalizedCode sid s2;
          s4 = (case roomId d of
                  None \<Rightarrow> s3
                | Some rid \<Rightarrow> broadcastParticipants normalizedCode rid s3)
      in if truthy (displayName d)
         then emit (ToRoom normalizedCode (SystemAnnouncement
                (show_undefined (displayName d) @ '' a quitte la salle.''))) s4
         else s4)"

text \<open>
  The \<open>disconnect\<close> handler. The socket library takes a closing connection out of all
  its channels before it calls the handler.
\<close>

definition handleDisconnect :: "string \<Rightarrow> timestamp \<Rightarrow> server \<Rightarrow> server" where
  "handleDisconnect sid now s =
     (let s' = socketLeaveAll sid s
      in if \<not> truthy (roomCode (socketData s' sid)) then s'
         else handleLeave sid (show_undefined (roomCode (socketData s' sid))) now s')"

definition handleChatMessage :: "string \<Rightarrow> string \<Rightarrow> timestamp \<Rightarrow> server \<Rightarrow> server" where
  "handleChatMessage sid content now s =
     (let d = socketData s sid
      in case (roomId d, truthy (roomCode d)) of
           (Some rid, True) \<Rightarrow>
             (let content' = trim content
              in if content' = [] then s
                 else (let (message, s') = createMessage rid (displayName d) CHAT content' None now s
                       in emit (ToRoom (show_undefined (roomCode d))
                            (ChatMessage (m_id message)
                               (case m_authorName message of None \<Rightarrow> ''Anonyme'' | Some a \<Rightarrow> a)
                               (m_content message) (m_createdAt message))) s'))
         | _ \<Rightarrow> emit (ToSocket sid (SystemError noCurrentRoomMessage)) s)"

definition handleManualEvent ::
  "string \<Rightarrow> string \<Rightarrow> string \<Rightarrow> string \<Rightarrow> timestamp \<Rightarrow> server \<Rightarrow> server" where
  "handleManualEvent sid title description severity now s =
     (let d = socketData s sid
      in if isAdmin d \<noteq> Some True
         then emit (ToSocket sid (SystemError formateurOnlyMessage)) s
         else case (roomId d, truthy (roomCode d)) of
           (Some rid, True) \<Rightarrow>
             (let normalizedSeverity = toUpperCase severity
              in case map_of CrisisSeverityEnum normalizedSeverity of
                   None \<Rightarrow> emit (ToSocket sid (SystemError invalidSeverityMessage)) s
                 | Some sev \<Rightarrow>
                     (let (crisisEvent, s1) = createCrisisEvent rid title description sev MANUAL now s;
                          (message, s2) = createMessage rid
                             (Some (case displayName d of None \<Rightarrow> ''Formateur'' | Some n \<Rightarrow> n))
                             EVENT description (Some (normalizedSeverity, MANUAL)) now s1;
                          s3 = emit (ToRoom (show_undefined (roomCode d))
                                 (EventCreated (e_id crisisEvent) (e_title crisisEvent)
                                    (e_description crisisEvent) (e_severity crisisEvent)
                                    (e_source crisisEvent) (e_triggeredAt crisisEvent))) s2
                      in emit (ToRoom (show_undefined (roomCode d))
                           (SystemAnnouncement (''Injection formateur : '' @ e_title crisisEvent))) s3))
         | _ \<Rightarrow> emit (ToSocket sid (SystemError roomUnknownMessage)) s)"

text \<open>The \<open>event:ack\<close> handler: \<open>updateMany\<close> on the events with the given id.\<close>

definition handleEventAck :: "entity_id \<Rightarrow> timestamp \<Rightarrow> server \<Rightarrow> server" where
  "handleEventAck eventId now s =
     s\<lparr>crisisEvents :=
         map (\<lambda>e. if e_id e = eventId then e\<lparr>e_ackAt := Some now\<rparr> else e) (crisisEvents s)\<rparr>"

section \<open>Scheduler ticks and their consumption\<close>

text \<open>
  The listener that the gateway registers with \<open>onScheduledEvent\<close>. A payload whose
  severity is \<open>undefined\<close> makes \<open>toUpperCase\<close> throw, and nothing is written.
\<close>

definition onScheduled :: "ScheduledEventPayload \<Rightarrow> timestamp \<Rightarrow> server \<Rightarrow> server" where
  "onScheduled event now s =
     (let code = toUpperCase (sp_roomCode event)
      in case findRoomByCode code s of
           None \<Rightarrow> s
         | Some room \<Rightarrow>
             (case sp_severity event of
                None \<Rightarrow> s
              | Some severity \<Rightarrow>
                  (case map_of CrisisSeverityEnum (toUpperCase severity) of
                     None \<Rightarrow> s
                   | Some severityValue \<Rightarrow>
                       (let (crisisEvent, s1) = createCrisisEvent (r_id room) (sp_title event)
                               (sp_description event) severityValue SCHEDULER
                               (sp_triggeredAt event) s;
                            (message, s2) = createMessage (r_id room) (Some ''Scheduler'') EVENT
                               (sp_title event @ '' - '' @ sp_description event)
                               (Some (severity, SCHEDULER)) now s1;
                            s3 = emit (ToRoom code
                                   (EventCreated (e_id crisisEvent) (e_title crisisEvent)
                                      (e_description crisisEvent) (e_severity crisisEvent)
                                      (e_source crisisEvent) (e_triggeredAt crisisEvent))) s2
                        in emit (ToRoom code (SystemAnnouncement
                             (''Evenement automatique ''
                                @ toLowerCase (severityName (e_severity crisisEvent))
                                @ '' declenche : '' @ e_title crisisEvent))) s3))))"

text \<open>
  One run of \<open>tick\<close> for a room: the payload goes to the listener (registered when the
  gateway was created), then the timer is armed again and recorded. \<open>r1\<close> draws the
  severity and \<open>r2\<close> the next delay.
\<close>

definition tick :: "string \<Rightarrow> real \<Rightarrow> real \<Rightarrow> timestamp \<Rightarrow> server \<Rightarrow> server" where
  "tick code r1 r2 now s =
     (let s1 = (if io s then onScheduled (tickPayload code r1 now) now s else s);
          nextInterval = randomBetween 15000 30000 r2;
          (timeout, s2) = setTimeout code nextInterval s1
      in s2\<lparr>activeSchedulers := (activeSchedulers s2)(code \<mapsto> timeout)\<rparr>)"

text \<open>
  The runtime fires an armed timer: it leaves the armed timers and its callback runs.
  A handle that is not armed fires nothing.
\<close>

definition fire :: "nat \<Rightarrow> real \<Rightarrow> real \<Rightarrow> timestamp \<Rightarrow> server \<Rightarrow> server" where
  "fire h r1 r2 now s =
     (case map_of (pending s) h of
        None \<Rightarrow> s
      | Some t \<Rightarrow> tick (t_room t) r1 r2 now (clearTimeout h s))"

section \<open>Closing a room\<close>

text \<open>
  \<open>closeRoomAction\<close> of the administration page. \<open>room.update\<close> throws when no room has
  the id, which ends the action; the store sets \<open>updatedAt\<close> on an update. Without a
  gateway \<open>getSocketServer\<close> throws and the notification is skipped. A connection that is
  disconnected by force runs its \<open>disconnect\<close> handler.
\<close>

definition forceDisconnect :: "string \<Rightarrow> timestamp \<Rightarrow> string \<Rightarrow> server \<Rightarrow> server" where
  "forceDisconnect code now sid s = handleDisconnect sid now (socketLeave sid code s)"

definition notifyClosure :: "string \<Rightarrow> timestamp \<Rightarrow> server \<Rightarrow> server" where
  "notifyClosure code now s =
     (let s1 = emit (ToRoom code (SystemAnnouncement
                 ''Cette salle a ete fermee par un administrateur. Vous allez etre deconnecte.'')) s
      in fold (forceDisconnect code now) (channels s1 code) s1)"

definition closeRoomAction :: "entity_id option \<Rightarrow> string \<Rightarrow> timestamp \<Rightarrow> server \<Rightarrow> server" where
  "closeRoomAction rid code now s =
     (case rid of
        None \<Rightarrow> s
      | Some rid' \<Rightarrow>
          if code = [] then s
          else (case findRoomById rid' s of
                  None \<Rightarrow> s
                | Some _ \<Rightarrow>
                    (let s1 = s\<lparr>rooms := map (\<lambda>r. if r_id r = rid'
                                   then r\<lparr>r_isActive := False, r_updatedAt := now\<rparr> else r) (rooms s)\<rparr>;
                         s2 = updateParticipants (\<lambda>p. p_roomId p = rid' \<and> p_isConnected p)
                                (\<lambda>p. p\<lparr>p_isConnected := False, p_leftAt := Some now\<rparr>) s1;
                         s3 = stopRoomScheduler (toUpperCase code) s2
                     in if io s3 then notifyClosure (toUpperCase code) now s3 else s3)))"

section \<open>Commands\<close>

text \<open>
  Everything that can happen to the server. A command is one handler run from its first
  line to its last with no other handler in between; a run of commands is a history in
  which the handlers do not overlap. Histories in which two joins overlap are built
  from \<open>joinLookup\<close> and \<open>joinComplete\<close> directly. The first argument of a client
  command is the id of the connection it arrives on; the \<open>event:ack\<close> handler does not
  look at its connection.
\<close>

datatype command =
    Join string string string bool timestamp real
  | Leave string string timestamp
  | Disconnect string timestamp
  | Chat string string timestamp
  | EventCreate string string string string timestamp
  | EventAck string entity_id timestamp
  | Fire nat real real timestamp
  | CloseRoom "entity_id option" string timestamp

fun exec :: "command \<Rightarrow> server \<Rightarrow> server" where
  "exec (Join sid code name admin now r) s = handleJoin sid code name admin now r s"
| "exec (Leave sid code now) s = handleLeave sid code now s"
| "exec (Disconnect sid now) s = handleDisconnect sid now s"
| "exec (Chat sid content now) s = handleChatMessage sid content now s"
| "exec (EventCreate sid title description severity now) s =
     handleManualEvent sid title description severity now s"
| "exec (EventAck sid eventId now) s = handleEventAck eventId now s"
| "exec (Fire h r1 r2 now) s = fire h r1 r2 now s"
| "exec (CloseRoom rid code now) s = closeRoomAction rid code now s"

definition run :: "command list \<Rightarrow> server \<Rightarrow> server" where
  "run cs s = fold exec cs s"

section \<open>Observations on states and runs\<close>

definition persisted :: "server \<Rightarrow> Room list \<times> Participant list \<times> Message list \<times> CrisisEvent list" where
  "persisted s = (rooms s, participants s, messages s, crisisEvents s)"

definition rowsFor :: "entity_id \<Rightarrow> string \<Rightarrow> server \<Rightarrow> Participant list" where
  "rowsFor rid name s =
     filter (\<lambda>p. p_roomId p = rid \<and> p_displayName p = name) (participants s)"

text \<open>Primary keys of the participants: pairwise different, and below the counter.\<close>

definition participantKeysOk :: "server \<Rightarrow> bool" where
  "participantKeysOk s =
     (distinct (map p_id (participants s)) \<and> list_all (\<lambda>p. p_id p < nextId s) (participants s))"

text \<open>No room code is registered with an empty set of connections.\<close>

definition registryOk :: "server \<Rightarrow> bool" where
  "registryOk s = (\<forall>code. roomConnections s code \<noteq> Some {||})"

text \<open>
  The armed timers are exactly the ones that \<open>activeSchedulers\<close> records: every armed
  timer is recorded for its room, under a handle already issued, and no handle is armed
  twice.
\<close>

definition schedulerOk :: "server \<Rightarrow> bool" where
  "schedulerOk s =
     (distinct (map fst (pending s)) \<and>
      list_all (\<lambda>(h, t). h < nextHandle s \<and> activeSchedulers s (t_room t) = Some h) (pending s))"

definition armed :: "string \<Rightarrow> server \<Rightarrow> bool" where
  "armed code s = list_ex (\<lambda>(h, t). t_room t = code) (pending s)"

text \<open>The room whose \<open>tick\<close> a command runs, if it runs one.\<close>

fun tickOf :: "command \<Rightarrow> server \<Rightarrow> string option" where
  "tickOf (Fire h r1 r2 now) s = map_option t_room (map_of (pending s) h)"
| "tickOf _ s = None"

text \<open>The number of ticks for a room code while a list of commands runs.\<close>

fun ticks :: "string \<Rightarrow> command list \<Rightarrow> server \<Rightarrow> nat" where
  "ticks code [] s = 0"
| "ticks code (c # cs) s =
     (if tickOf c s = Some code then 1 else 0) + ticks code cs (exec c s)"

text \<open>The commands that call \<open>startRoomScheduler\<close> for a room code: the joins of an admin.\<close>

fun startsScheduler :: "string \<Rightarrow> command \<Rightarrow> bool" where
  "startsScheduler c (Join sid code name admin now r) = (admin \<and> toUpperCase code = c)"
| "startsScheduler c _ = False"

text \<open>
  The connection and the room code that \<open>handleLeave\<close> is called with, for a leave and
  for a disconnect.
\<close>

fun removal :: "command \<Rightarrow> server \<Rightarrow> (string \<times> string) option" where
  "removal (Leave sid code now) s = Some (sid, toUpperCase code)"
| "removal (Disconnect sid now) s =
     (if truthy (roomCode (socketData s sid))
      then Some (sid, toUpperCase (show_undefined (roomCode (socketData s sid))))
      else None)"
| "removal _ s = None"

fun connectionCommand :: "command \<Rightarrow> bool" where
  "connectionCommand (Join sid code name admin now r) = True"
| "connectionCommand (Leave sid code now) = True"
| "connectionCommand (Disconnect sid now) = True"
| "connectionCommand _ = False"

text \<open>No two participant rows with this display name belong to the same room.\<close>

definition uniqueByName :: "string \<Rightarrow> server \<Rightarrow> bool" where
  "uniqueByName name s =
     distinct (map p_roomId (filter (\<lambda>p. p_displayName p = name) (participants s)))"

text \<open>
  Relations between a state and a later one, used in the proofs. A row \<open>q\<close> keeps a row
  \<open>p\<close> when it has the same key, room and display name and, where the keys of the earlier
  state are in order, is a formateur if \<open>p\<close> is one; a state carries another when it
  keeps each of its rows; a state is refreshed when the counter is the same and each row
  is the same up to its connection flag and leave time.
\<close>

definition keeps :: "bool \<Rightarrow> Participant \<Rightarrow> Participant \<Rightarrow> bool" where
  "keeps ok p q =
     (p_id q = p_id p \<and> p_roomId q = p_roomId p \<and> p_displayName q = p_displayName p \<and>
      (ok \<longrightarrow> p_role p = Some ''formateur'' \<longrightarrow> p_role q = Some ''formateur''))"

definition carries :: "server \<Rightarrow> server \<Rightarrow> bool" where
  "carries s s' =
     (\<forall>p \<in> set (participants s). \<exists>q \<in> set (participants s'). keeps (participantKeysOk s) p q)"

definition refreshed :: "server \<Rightarrow> server \<Rightarrow> bool" where
  "refreshed s s' =
     (nextId s' = nextId s \<and>
      (\<exists>f. participants s' = map f (participants s) \<and>
           (\<forall>p. p_id (f p) = p_id p \<and> p_roomId (f p) = p_roomId p \<and>
                p_displayName (f p) = p_displayName p \<and> p_role (f p) = p_role p)))"

text \<open>
  The scheduler's part of the state, and a relation used in the proofs: a later state is
  calmer when it has the scheduler in order if the earlier one has, and arms no room that
  the earlier one does not arm.
\<close>

definition timers :: "server \<Rightarrow> (string \<rightharpoonup> nat) \<times> (nat \<times> timer) list \<times> nat" where
  "timers s = (activeSchedulers s, pending s, nextHandle s)"

definition calmer :: "server \<Rightarrow> server \<Rightarrow> bool" where
  "calmer s s' = ((schedulerOk s \<longrightarrow> schedulerOk s') \<and> (\<forall>c. armed c s' \<longrightarrow> armed c s))"

text \<open>
  The handles that \<open>activeSchedulers\<close> records are in order when each of them has been
  issued and is the handle of no pending timer of another room, so that clearing the
  handle recorded for a room cancels a timer of that room only. A later state is steady
  when it has the scheduler and the handles in order if the earlier one has.
\<close>

definition handlesOk :: "server \<Rightarrow> bool" where
  "handlesOk s =
     (\<forall>code h. activeSchedulers s code = Some h \<longrightarrow>
        h < nextHandle s \<and> (\<forall>t. (h, t) \<in> set (pending s) \<longrightarrow> t_room t = code))"

definition steady :: "server \<Rightarrow> server \<Rightarrow> bool" where
  "steady s s' = (schedulerOk s \<and> handlesOk s \<longrightarrow> schedulerOk s' \<and> handlesOk s')"

section \<open>Example states\<close>

text \<open>
  The formateur FORM1 joins the room ABCD1, which does not exist yet, on the connection
  \<open>c1\<close>; then Alice joins it on \<open>c2\<close>; then FORM1 injects an event.
\<close>

definition formateurIn :: server where
  "formateurIn = handleJoin ''c1'' ''abcd1'' ''FORM1'' True 1000 (1 / 2) initial"

definition aliceIn :: server where
  "aliceIn = handleJoin ''c2'' ''ABCD1'' ''Alice'' False 2000 (1 / 4) formateurIn"

definition eventInjected :: server where
  "eventInjected = handleManualEvent ''c1'' ''Coupure reseau'' ''Le reseau est coupe'' ''HIGH'' 3000 aliceIn"

text \<open>
  FORM1 alone in the room; two \<open>room:join\<close> messages for ABCD1 under the name Alice
  arrive one right after the other, on the connections \<open>c2\<close> and \<open>c3\<close>. The handler of
  the second message starts while the first waits for the store: both have the answer
  of \<open>findFirst\<close> before either writes its row.
\<close>

definition overlappingJoins :: server where
  "overlappingJoins =
     (case joinLookup ''c2'' ''ABCD1'' ''Alice'' False 2000 formateurIn of
        (None, s1) \<Rightarrow> s1
      | (Some first, s1) \<Rightarrow>
          (case joinLookup ''c3'' ''ABCD1'' ''Alice'' False 2001 s1 of
             (None, s2) \<Rightarrow> s2
           | (Some second, s2) \<Rightarrow>
               joinComplete second 2003 (1 / 4) (joinComplete first 2002 (1 / 4) s2)))"

text \<open>FORM1 alone in the room, which the administrator then closes.\<close>

definition roomClosed :: server where
  "roomClosed = closeRoomAction (Some 0) ''ABCD1'' 8000 formateurIn"

text \<open>A formateur joins under the empty room code, which creates a room of that code.\<close>

definition emptyCodeRoom :: server where
  "emptyCodeRoom = handleJoin ''c1'' [] ''FORM1'' True 1000 (1 / 2) initial"

section \<open>What each operation leaves unchanged\<close>

lemma emit_frame [simp]:
  "rooms (emit m s) = rooms s"
  "participants (emit m s) = participants s"
  "messages (emit m s) = messages s"
  "crisisEvents (emit m s) = crisisEvents s"
  "nextId (emit m s) = nextId s"
  "io (emit m s) = io s"
  "roomConnections (emit m s) = roomConnections s"
  "socketData (emit m s) = socketData s"
  "channels (emit m s) = channels s"
  "activeSchedulers (emit m s) = activeSchedulers s"
  "pending (emit m s) = pending s"
  "nextHandle (emit m s) = nextHandle s"
  by (simp_all add: emit_def)

lemma socketJoin_frame [simp]:
  "rooms (socketJoin sid room s) = rooms s"
  "participants (socketJoin sid room s) = participants s"
  "messages (socketJoin sid room s) = messages s"
  "crisisEvents (socketJoin sid room s) = crisisEvents s"
  "nextId (socketJoin sid room s) = nextId s"
  "io (socketJoin sid room s) = io s"
  "roomConnections (socketJoin sid room s) = roomConnections s"
  "socketData (socketJoin sid room s) = socketData s"
  "activeSchedulers (socketJoin sid room s) = activeSchedulers s"
  "pending (socketJoin sid room s) = pending s"
  "nextHandle (socketJoin sid room s) = nextHandle s"
  "outbox (socketJoin sid room s) = outbox s"
  by (simp_all add: socketJoin_def)

lemma socketLeave_frame [simp]:
  "rooms (socketLeave sid room s) = rooms s"
  "participants (socketLeave sid room s) = participants s"
  "messages (socketLeave sid room s) = messages s"
  "crisisEvents (socketLeave sid room s) = crisisEvents s"
  "nextId (socketLeave sid room s) = nextId s"
  "io (socketLeave sid room s) = io s"
  "roomConnections (socketLeave sid room s) = roomConnections s"
  "socketData (socketLeave sid room s) = socketData s"
  "activeSchedulers (socketLeave sid room s) = activeSchedulers s"
  "pending (socketLeave sid room s) = pending s"
  "nextHandle (socketLeave sid room s) = nextHandle s"
  "outbox (socketLeave sid room s) = outbox s"
  by (simp_all add: socketLeave_def)

lemma socketLeaveAll_frame [simp]:
  "rooms (socketLeaveAll sid s) = rooms s"
  "participants (socketLeaveAll sid s) = participants s"
  "messages (socketLeaveAll sid s) = messages s"
  "crisisEvents (socketLeaveAll sid s) = crisisEvents s"
  "nextId (socketLeaveAll sid s) = nextId s"
  "io (socketLeaveAll sid s) = io s"
  "roomConnections (socketLeaveAll sid s) = roomConnections s"
  "socketData (socketLeaveAll sid s) = socketData s"
  "activeSchedulers (socketLeaveAll sid s) = activeSchedulers s"
  "pending (socketLeaveAll sid s) = pending s"
  "nextHandle (socketLeaveAll sid s) = nextHandle s"
  "outbox (socketLeaveAll sid s) = outbox s"
  by (simp_all add: socketLeaveAll_def)

lemma setTimeout_frame [simp]:
  "rooms (snd (setTimeout room delay s)) = rooms s"
  "participants (snd (setTimeout room delay s)) = participants s"
  "messages (snd (setTimeout room delay s)) = messages s"
  "crisisEvents (snd (setTimeout room delay s)) = crisisEvents s"
  "nextId (snd (setTimeout room delay s)) = nextId s"
  "io (snd (setTimeout room delay s)) = io s"
  "roomConnections (snd (setTimeout room delay s)) = roomConnections s"
  "socketData (snd (setTimeout room delay s)) = socketData s"
  "channels (snd (setTimeout room delay s)) = channels s"
  "activeSchedulers (snd (setTimeout room delay s)) = activeSchedulers s"
  "outbox (snd (setTimeout room delay s)) = outbox s"
  by (simp_all add: setTimeout_def)

lemma clearTimeout_frame [simp]:
  "rooms (clearTimeout h s) = rooms s"
  "participants (clearTimeout h s) = participants s"
  "messages (clearTimeout h s) = messages s"
  "crisisEvents (clearTimeout h s) = crisisEvents s"
  "nextId (clearTimeout h s) = nextId s"
  "io (clearTimeout h s) = io s"
  "roomConnections (clearTimeout h s) = roomConnections s"
  "socketData (clearTimeout h s) = socketData s"
  "channels (clearTimeout h s) = channels s"
  "activeSchedulers (clearTimeout h s) = activeSchedulers s"
  "nextHandle (clearTimeout h s) = nextHandle s"
  "outbox (clearTimeout h s) = outbox s"
  by (simp_all add: clearTimeout_def)

lemma startRoomScheduler_frame [simp]:
  "rooms (startRoomScheduler code r s) = rooms s"
  "participants (startRoomScheduler code r s) = participants s"
  "messages (startRoomScheduler code r s) = messages s"
  "crisisEvents (startRoomScheduler code r s) = crisisEvents s"
  "nextId (startRoomScheduler code r s) = nextId s"
  "io (startRoomScheduler code r s) = io s"
  "roomConnections (startRoomScheduler code r s) = roomConnections s"
  "socketData (startRoomScheduler code r s) = socketData s"
  "channels (startRoomScheduler code r s) = channels s"
  "outbox (startRoomScheduler code r s) = outbox s"
  by (simp_all add: startRoomScheduler_def Let_def case_prod_beta split: option.splits bool.splits)

lemma stopRoomScheduler_frame [simp]:
  "rooms (stopRoomScheduler code s) = rooms s"
  "participants (stopRoomScheduler code s) = participants s"
  "messages (stopRoomScheduler code s) = messages s"
  "crisisEvents (stopRoomScheduler code s) = crisisEvents s"
  "nextId (stopRoomScheduler code s) = nextId s"
  "io (stopRoomScheduler code s) = io s"
  "roomConnections (stopRoomScheduler code s) = roomConnections s"
  "socketData (stopRoomScheduler code s) = socketData s"
  "channels (stopRoomScheduler code s) = channels s"
  "nextHandle (stopRoomScheduler code s) = nextHandle s"
  "outbox (stopRoomScheduler code s) = outbox s"
  by (simp_all add: stopRoomScheduler_def Let_def case_prod_beta split: option.splits bool.splits)

lemma createRoom_frame [simp]:
  "participants (snd (createRoom code now s)) = participants s"
  "messages (snd (createRoom code now s)) = messages s"
  "crisisEvents (snd (createRoom code now s)) = crisisEvents s"
  "io (snd (createRoom code now s)) = io s"
  "roomConnections (snd (createRoom code now s)) = roomConnections s"
  "socketData (snd (createRoom code now s)) = socketData s"
  "channels (snd (createRoom code now s)) = channels s"
  "activeSchedulers (snd (createRoom code now s)) = activeSchedulers s"
  "pending (snd (createRoom code now s)) = pending s"
  "nextHandle (snd (createRoom code now s)) = nextHandle s"
  "outbox (snd (createRoom code now s)) = outbox s"
  by (simp_all add: createRoom_def Let_def)

lemma updateParticipants_frame [simp]:
  "rooms (updateParticipants P f s) = rooms s"
  "messages (updateParticipants P f s) = messages s"
  "crisisEvents (updateParticipants P f s) = crisisEvents s"
  "nextId (updateParticipants P f s) = nextId s"
  "io (updateParticipants P f s) = io s"
  "roomConnections (updateParticipants P f s) = roomConnections s"
  "socketData (updateParticipants P f s) = socketData s"
  "channels (updateParticipants P f s) = channels s"
  "activeSchedulers (updateParticipants P f s) = activeSchedulers s"
  "pending (updateParticipants P f s) = pending s"
  "nextHandle (updateParticipants P f s) = nextHandle s"
  "outbox (updateParticipants P f s) = outbox s"
  by (simp_all add: updateParticipants_def)

lemma createParticipant_frame [simp]:
  "rooms (snd (createParticipant rid name role now s)) = rooms s"
  "messages (snd (createParticipant rid name role now s)) = messages s"
  "crisisEvents (snd (createParticipant rid name role now s)) = crisisEvents s"
  "io (snd (createParticipant rid name role now s)) = io s"
  "roomConnections (snd (createParticipant rid name role now s)) = roomConnections s"
  "socketData (snd (createParticipant rid name role now s)) = socketData s"
  "channels (snd (createParticipant rid name role now s)) = channels s"
  "activeSchedulers (snd (createParticipant rid name role now s)) = activeSchedulers s"
  "pending (snd (createParticipant rid name role now s)) = pending s"
  "nextHandle (snd (createParticipant rid name role now s)) = nextHandle s"
  "outbox (snd (createParticipant rid name role now s)) = outbox s"
  by (simp_all add: createParticipant_def Let_def)

lemma createMessage_frame [simp]:
  "rooms (snd (createMessage rid author ty content meta now s)) = rooms s"
  "participants (snd (createMessage rid author ty content meta now s)) = participants s"
  "crisisEvents (snd (createMessage rid author ty content meta now s)) = crisisEvents s"
  "io (snd (createMessage rid author ty content meta now s)) = io s"
  "roomConnections (snd (createMessage rid author ty content meta now s)) = roomConnections s"
  "socketData (snd (createMessage rid author ty content meta now s)) = socketData s"
  "channels (snd (createMessage rid author ty content meta now s)) = channels s"
  "activeSchedulers (snd (createMessage rid author ty content meta now s)) = activeSchedulers s"
  "pending (snd (createMessage rid author ty content meta now s)) = pending s"
  "nextHandle (snd (createMessage rid author ty content meta now s)) = nextHandle s"
  "outbox (snd (createMessage rid author ty content meta now s)) = outbox s"
  by (simp_all add: createMessage_def Let_def)

lemma createCrisisEvent_frame [simp]:
  "rooms (snd (createCrisisEvent rid title description severity source triggered s)) = rooms s"
  "participants (snd (createCrisisEvent rid title description severity source triggered s)) = participants s"
  "messages (snd (createCrisisEvent rid title description severity source triggered s)) = messages s"
  "io (snd (createCrisisEvent rid title description severity source triggered s)) = io s"
  "roomConnections (snd (createCrisisEvent rid title description severity source triggered s)) = roomConnections s"
  "socketData (snd (createCrisisEvent rid title description severity source triggered s)) = socketData s"
  "channels (snd (createCrisisEvent rid title description severity source triggered s)) = channels s"
  "activeSchedulers (snd (createCrisisEvent rid title description severity source triggered s)) = activeSchedulers s"
  "pending (snd (createCrisisEvent rid title description severity source triggered s)) = pending s"
  "nextHandle (snd (createCrisisEvent rid title description severity source triggered s)) = nextHandle s"
  "outbox (snd (createCrisisEvent rid title description severity source triggered s)) = outbox s"
  by (simp_all add: createCrisisEvent_def Let_def)

lemma broadcastParticipants_frame [simp]:
  "rooms (broadcastParticipants code rid s) = rooms s"
  "participants (broadcastParticipants code rid s) = participants s"
  "messages (broadcastParticipants code rid s) = messages s"
  "crisisEvents (broadcastParticipants code rid s) = crisisEvents s"
  "nextId (broadcastParticipants code rid s) = nextId s"
  "io (broadcastParticipants code rid s) = io s"
  "roomConnections (broadcastParticipants code rid s) = roomConnections s"
  "socketData (broadcastParticipants code rid s) = socketData s"
  "channels (broadcastParticipants code rid s) = channels s"
  "activeSchedulers (broadcastParticipants code rid s) = activeSchedulers s"
  "pending (broadcastParticipants code rid s) = pending s"
  "nextHandle (broadcastParticipants code rid s) = nextHandle s"
  by (simp_all add: broadcastParticipants_def Let_def)

lemma saveParticipant_frame [simp]:
  "rooms (snd (saveParticipant existing rid name admin now s)) = rooms s"
  "messages (snd (saveParticipant existing rid name admin now s)) = messages s"
  "crisisEvents (snd (saveParticipant existing rid name admin now s)) = crisisEvents s"
  "io (snd (saveParticipant existing rid name admin now s)) = io s"
  "roomConnections (snd (saveParticipant existing rid name admin now s)) = roomConnections s"
  "socketData (snd (saveParticipant existing rid name admin now s)) = socketData s"
  "channels (snd (saveParticipant existing rid name admin now s)) = channels s"
  "activeSchedulers (snd (saveParticipant existing rid name admin now s)) = activeSchedulers s"
  "pending (snd (saveParticipant existing rid name admin now s)) = pending s"
  "nextHandle (snd (saveParticipant existing rid name admin now s)) = nextHandle s"
  "outbox (snd (saveParticipant existing rid name admin now s)) = outbox s"
  by (simp_all add: saveParticipant_def Let_def case_prod_beta split: option.splits bool.splits)

lemma addConnection_frame [simp]:
  "rooms (addConnection code sid s) = rooms s"
  "participants (addConnection code sid s) = participants s"
  "messages (addConnection code sid s) = messages s"
  "crisisEvents (addConnection code sid s) = crisisEvents s"
  "nextId (addConnection code sid s) = nextId s"
  "io (addConnection code sid s) = io s"
  "socketData (addConnection code sid s) = socketData s"
  "channels (addConnection code sid s) = channels s"
  "activeSchedulers (addConnection code sid s) = activeSchedulers s"
  "pending (addConnection code sid s) = pending s"
  "nextHandle (addConnection code sid s) = nextHandle s"
  "outbox (addConnection code sid s) = outbox s"
  by (simp_all add: addConnection_def Let_def)

lemma removeConnection_frame [simp]:
  "rooms (removeConnection code sid s) = rooms s"
  "participants (removeConnection code sid s) = participants s"
  "messages (removeConnection code sid s) = messages s"
  "crisisEvents (removeConnection code sid s) = crisisEvents s"
  "nextId (removeConnection code sid s) = nextId s"
  "io (removeConnection code sid s) = io s"
  "socketData (removeConnection code sid s) = socketData s"
  "channels (removeConnection code sid s) = channels s"
  "nextHandle (removeConnection code sid s) = nextHandle s"
  "outbox (removeConnection code sid s) = outbox s"
  by (simp_all add: removeConnection_def Let_def case_prod_beta split: option.splits bool.splits)

lemma joinComplete_frame [simp]:
  "rooms (joinComplete task now r s) = rooms s"
  "messages (joinComplete task now r s) = messages s"
  "crisisEvents (joinComplete task now r s) = crisisEvents s"
  "io (joinComplete task now r s) = io s"
  by (simp_all add: joinComplete_def Let_def case_prod_beta split: option.splits bool.splits)

lemma joinLookup_frame [simp]:
  "messages (snd (joinLookup sid code name admin now s)) = messages s"
  "crisisEvents (snd (joinLookup sid code name admin now s)) = crisisEvents s"
  "io (snd (joinLookup sid code name admin now s)) = io s"
  "participants (snd (joinLookup sid code name admin now s)) = participants s"
  "roomConnections (snd (joinLookup sid code name admin now s)) = roomConnections s"
  "socketData (snd (joinLookup sid code name admin now s)) = socketData s"
  "channels (snd (joinLookup sid code name admin now s)) = channels s"
  "activeSchedulers (snd (joinLookup sid code name admin now s)) = activeSchedulers s"
  "pending (snd (joinLookup sid code name admin now s)) = pending s"
  "nextHandle (snd (joinLookup sid code name admin now s)) = nextHandle s"
  by (simp_all add: joinLookup_def Let_def case_prod_beta split: option.splits bool.splits)

lemma handleJoin_frame [simp]:
  "messages (handleJoin sid code name admin now r s) = messages s"
  "crisisEvents (handleJoin sid code name admin now r s) = crisisEvents s"
  "io (handleJoin sid code name admin now r s) = io s"
  by (simp_all add: handleJoin_def case_prod_beta split: option.splits)

text \<open>A join that nothing overlaps, with the lookup and the rest unfolded.\<close>

lemma handleJoin_unfold:
  "handleJoin sid code name admin now r s =
     (let normalizedCode = toUpperCase code
      in case findRoomByCode normalizedCode s of
           None \<Rightarrow>
             (if \<not> admin
              then emit (ToSocket sid (SystemError (roomMissingMessage normalizedCode))) s
              else (let (room, s') = createRoom normalizedCode now s
                    in enterRoom sid normalizedCode room name admin now r s'))
         | Some room \<Rightarrow> enterRoom sid normalizedCode room name admin now r s)"
  by (simp add: handleJoin_def joinLookup_def Let_def case_prod_beta split: option.splits)

lemma handleLeave_frame [simp]:
  "rooms (handleLeave sid code now s) = rooms s"
  "messages (handleLeave sid code now s) = messages s"
  "crisisEvents (handleLeave sid code now s) = crisisEvents s"
  "nextId (handleLeave sid code now s) = nextId s"
  "io (handleLeave sid code now s) = io s"
  "socketData (handleLeave sid code now s) = socketData s"
  "nextHandle (handleLeave sid code now s) = nextHandle s"
  by (simp_all add: handleLeave_def Let_def case_prod_beta split: option.splits bool.splits)

lemma handleDisconnect_frame [simp]:
  "rooms (handleDisconnect sid now s) = rooms s"
  "messages (handleDisconnect sid now s) = messages s"
  "crisisEvents (handleDisconnect sid now s) = crisisEvents s"
  "nextId (handleDisconnect sid now s) = nextId s"
  "io (handleDisconnect sid now s) = io s"
  "socketData (handleDisconnect sid now s) = socketData s"
  "nextHandle (handleDisconnect sid now s) = nextHandle s"
  by (simp_all add: handleDisconnect_def Let_def case_prod_beta split: option.splits bool.splits)

lemma handleChatMessage_frame [simp]:
  "rooms (handleChatMessage sid content now s) = rooms s"
  "participants (handleChatMessage sid content now s) = participants s"
  "crisisEvents (handleChatMessage sid content now s) = crisisEvents s"
  "io (handleChatMessage sid content now s) = io s"
  "roomConnections (handleChatMessage sid content now s) = roomConnections s"
  "socketData (handleChatMessage sid content now s) = socketData s"
  "channels (handleChatMessage sid content now s) = channels s"
  "activeSchedulers (handleChatMessage sid content now s) = activeSchedulers s"
  "pending (handleChatMessage sid content now s) = pending s"
  "nextHandle (handleChatMessage sid content now s) = nextHandle s"
  by (simp_all add: handleChatMessage_def Let_def case_prod_beta split: option.splits bool.splits)

lemma handleManualEvent_frame [simp]:
  "rooms (handleManualEvent sid title description severity now s) = rooms s"
  "participants (handleManualEvent sid title description severity now s) = participants s"
  "io (handleManualEvent sid title description severity now s) = io s"
  "roomConnections (handleManualEvent sid title description severity now s) = roomConnections s"
  "socketData (handleManualEvent sid title description severity now s) = socketData s"
  "channels (handleManualEvent sid title description severity now s) = channels s"
  "activeSchedulers (handleManualEvent sid title description severity now s) = activeSchedulers s"
  "pending (handleManualEvent sid title description severity now s) = pending s"
  "nextHandle (handleManualEvent sid title description severity now s) = nextHandle s"
  by (simp_all add: handleManualEvent_def Let_def case_prod_beta split: option.splits bool.splits)

lemma handleEventAck_frame [simp]:
  "rooms (handleEventAck eventId now s) = rooms s"
  "participants (handleEventAck eventId now s) = participants s"
  "messages (handleEventAck eventId now s) = messages s"
  "nextId (handleEventAck eventId now s) = nextId s"
  "io (handleEventAck eventId now s) = io s"
  "roomConnections (handleEventAck eventId now s) = roomConnections s"
  "socketData (handleEventAck eventId now s) = socketData s"
  "channels (handleEventAck eventId now s) = channels s"
  "activeSchedulers (handleEventAck eventId now s) = activeSchedulers s"
  "pending (handleEventAck eventId now s) = pending s"
  "nextHandle (handleEventAck eventId now s) = nextHandle s"
  "outbox (handleEventAck eventId now s) = outbox s"
  by (simp_all add: handleEventAck_def)

lemma onScheduled_frame [simp]:
  "rooms (onScheduled event now s) = rooms s"
  "participants (onScheduled event now s) = participants s"
  "io (onScheduled event now s) = io s"
  "roomConnections (onScheduled event now s) = roomConnections s"
  "socketData (onScheduled event now s) = socketData s"
  "channels (onScheduled event now s) = channels s"
  "activeSchedulers (onScheduled event now s) = activeSchedulers s"
  "pending (onScheduled event now s) = pending s"
  "nextHandle (onScheduled event now s) = nextHandle s"
  by (simp_all add: onScheduled_def Let_def case_prod_beta split: option.splits bool.splits)

lemma tick_frame [simp]:
  "rooms (tick code r1 r2 now s) = rooms s"
  "participants (tick code r1 r2 now s) = participants s"
  "io (tick code r1 r2 now s) = io s"
  "roomConnections (tick code r1 r2 now s) = roomConnections s"
  "socketData (tick code r1 r2 now s) = socketData s"
  "channels (tick code r1 r2 now s) = channels s"
  by (simp_all add: tick_def Let_def case_prod_beta split: option.splits bool.splits)

lemma fire_frame [simp]:
  "rooms (fire h r1 r2 now s) = rooms s"
  "participants (fire h r1 r2 now s) = participants s"
  "io (fire h r1 r2 now s) = io s"
  "roomConnections (fire h r1 r2 now s) = roomConnections s"
  "socketData (fire h r1 r2 now s) = socketData s"
  "channels (fire h r1 r2 now s) = channels s"
  by (simp_all add: fire_def Let_def case_prod_beta split: option.splits bool.splits)

lemma forceDisconnect_frame [simp]:
  "rooms (forceDisconnect code now sid s) = rooms s"
  "messages (forceDisconnect code now sid s) = messages s"
  "crisisEvents (forceDisconnect code now sid s) = crisisEvents s"
  "nextId (forceDisconnect code now sid s) = nextId s"
  "io (forceDisconnect code now sid s) = io s"
  "socketData (forceDisconnect code now sid s) = socketData s"
  "nextHandle (forceDisconnect code now sid s) = nextHandle s"
  by (simp_all add: forceDisconnect_def)

section \<open>The example states, computed\<close>

lemmas run_defs = handleJoin_def joinLookup_def joinComplete_def saveParticipant_def createRoom_def findRoomByCode_def
  findParticipant_def createParticipant_def socketJoin_def addConnection_def startRoomScheduler_def
  setTimeout_def randomBetween_def broadcastParticipants_def emit_def toView_def
  toUpperCase_def toUpperChar_def toLowerCase_def toLowerChar_def lowerLetters_def upperLetters_def
  updateParticipants_def Let_def

lemma formateurIn_eq:
  "formateurIn =
     \<lparr>rooms = [\<lparr>r_id = 0, r_code = ''ABCD1'', r_title = Some ''Salle ABCD1'', r_isActive = True,
                r_createdAt = 1000, r_updatedAt = 1000\<rparr>],
      participants = [\<lparr>p_id = 1, p_roomId = 0, p_displayName = ''FORM1'', p_role = Some ''formateur'',
                p_isConnected = True, p_joinedAt = 1000, p_leftAt = None\<rparr>],
      messages = [], crisisEvents = [], nextId = 2, io = True,
      roomConnections = [''ABCD1'' \<mapsto> {|''c1''|}],
      socketData = (\<lambda>_. noData)(''c1'' := \<lparr>roomCode = Some ''ABCD1'', roomId = Some 0,
                participantId = Some 1, displayName = Some ''FORM1'', isAdmin = Some True\<rparr>),
      channels = (\<lambda>_. [])(''ABCD1'' := [''c1'']),
      activeSchedulers = [''ABCD1'' \<mapsto> 0],
      pending = [(0, \<lparr>t_room = ''ABCD1'', t_delay = 22500\<rparr>)], nextHandle = 1,
      outbox = [ToRoom ''ABCD1'' (ParticipantUpdate
                 [\<lparr>v_id = 1, v_displayName = ''FORM1'', v_role = ''formateur'', v_isAdmin = True,
                   v_isConnected = True, v_joinedAt = 1000, v_leftAt = None\<rparr>]),
                ToRoom ''ABCD1'' (SystemAnnouncement ''FORM1 a rejoint la salle (formateur).'')]\<rparr>"
  by (simp add: formateurIn_def initial_def run_defs)

lemma aliceIn_eq:
  "aliceIn =
     \<lparr>rooms = [\<lparr>r_id = 0, r_code = ''ABCD1'', r_title = Some ''Salle ABCD1'', r_isActive = True,
                r_createdAt = 1000, r_updatedAt = 1000\<rparr>],
      participants = [\<lparr>p_id = 1, p_roomId = 0, p_displayName = ''FORM1'', p_role = Some ''formateur'',
                p_isConnected = True, p_joinedAt = 1000, p_leftAt = None\<rparr>,
              \<lparr>p_id = 2, p_roomId = 0, p_displayName = ''Alice'', p_role = Some ''participant'',
                p_isConnected = True, p_joinedAt = 2000, p_leftAt = None\<rparr>],
      messages = [], crisisEvents = [], nextId = 3, io = True,
      roomConnections = [''ABCD1'' \<mapsto> {|''c2'', ''c1''|}],
      socketData = (\<lambda>_. noData)(''c1'' := \<lparr>roomCode = Some ''ABCD1'', roomId = Some 0,
                participantId = Some 1, displayName = Some ''FORM1'', isAdmin = Some True\<rparr>,
            ''c2'' := \<lparr>roomCode = Some ''ABCD1'', roomId = Some 0,
                participantId = Some 2, displayName = Some ''Alice'', isAdmin = Some False\<rparr>),
      channels = (\<lambda>_. [])(''ABCD1'' := [''c1'', ''c2'']),
      activeSchedulers = [''ABCD1'' \<mapsto> 0],
      pending = [(0, \<lparr>t_room = ''ABCD1'', t_delay = 22500\<rparr>)], nextHandle = 1,
      outbox = outbox formateurIn @ [ToRoom ''ABCD1'' (ParticipantUpdate
                 [\<lparr>v_id = 1, v_displayName = ''FORM1'', v_role = ''formateur'', v_isAdmin = True,
                   v_isConnected = True, v_joinedAt = 1000, v_leftAt = None\<rparr>,
                  \<lparr>v_id = 2, v_displayName = ''Alice'', v_role = ''participant'', v_isAdmin = False,
                   v_isConnected = True, v_joinedAt = 2000, v_leftAt = None\<rparr>]),
                ToRoom ''ABCD1'' (SystemAnnouncement ''Alice a rejoint la salle.'')]\<rparr>"
  unfolding aliceIn_def formateurIn_eq
  by (simp add: run_defs)

section \<open>Rejected commands\<close>

text \<open>
  C4. An \<open>event:create\<close> command on a connection without admin privilege (its \<open>isAdmin\<close>
  is absent or false) changes nothing but the log of sent events, which gains exactly
  one entry: the error signal to the originating connection. So no crisis event and no
  message is persisted and nothing is sent to the room.
\<close>

theorem event_create_requires_admin:
  assumes "isAdmin (socketData s sid) \<noteq> Some True"
  shows "handleManualEvent sid title description severity now s
           = s\<lparr>outbox := outbox s @ [ToSocket sid (SystemError formateurOnlyMessage)]\<rparr>"
  using assms by (simp add: handleManualEvent_def emit_def)

theorem event_create_requires_admin_witness:
  "isAdmin (socketData aliceIn ''c2'') \<noteq> Some True
   \<and> handleManualEvent ''c2'' ''Alerte'' ''Fausse alerte'' ''HIGH'' 3000 aliceIn
       = aliceIn\<lparr>outbox := outbox aliceIn @ [ToSocket ''c2'' (SystemError formateurOnlyMessage)]\<rparr>"
proof -
  have h: "isAdmin (socketData aliceIn ''c2'') \<noteq> Some True"
    by (simp add: aliceIn_eq)
  from event_create_requires_admin[OF h] h show ?thesis by simp
qed

text \<open>
  C2. A join with the admin flag false, for a room code that (in upper case) no
  persisted room has, changes nothing but the log of sent events, which gains exactly one
  entry: the room-not-found error to the originating connection. So no room is created,
  the registry \<open>roomConnections\<close> is untouched and nothing is sent to a room.
\<close>

theorem join_unknown_room_rejected:
  assumes "findRoomByCode (toUpperCase code) s = None"
  shows "handleJoin sid code name False now r s
           = s\<lparr>outbox := outbox s
                 @ [ToSocket sid (SystemError (roomMissingMessage (toUpperCase code)))]\<rparr>"
  using assms by (simp add: handleJoin_unfold emit_def)

theorem join_unknown_room_rejected_witness:
  "findRoomByCode (toUpperCase ''zzz9'') formateurIn = None
   \<and> handleJoin ''c3'' ''zzz9'' ''Bob'' False 4000 0 formateurIn
       = formateurIn\<lparr>outbox := outbox formateurIn
           @ [ToSocket ''c3'' (SystemError (roomMissingMessage (toUpperCase ''zzz9'')))]\<rparr>"
proof -
  have h: "findRoomByCode (toUpperCase ''zzz9'') formateurIn = None"
    by (simp add: formateurIn_eq findRoomByCode_def toUpperCase_def toUpperChar_def
        lowerLetters_def upperLetters_def)
  from join_unknown_room_rejected[OF h] h show ?thesis by simp
qed

section \<open>Acknowledging an event\<close>

text \<open>
  C9. The \<open>event:ack\<close> handler changes only the table of crisis events; there, every
  event keeps its place and all its fields other than \<open>ackAt\<close>, and \<open>ackAt\<close> becomes the
  current time for the events with the given id and stays as it was for the others. It
  has no failing branch, and a second acknowledgement overwrites the time of the first.
\<close>

theorem event_ack_touches_only_ackAt:
  "handleEventAck eventId now s = s\<lparr>crisisEvents := crisisEvents (handleEventAck eventId now s)\<rparr>
   \<and> map (\<lambda>e. e\<lparr>e_ackAt := None\<rparr>) (crisisEvents (handleEventAck eventId now s))
       = map (\<lambda>e. e\<lparr>e_ackAt := None\<rparr>) (crisisEvents s)
   \<and> map e_ackAt (crisisEvents (handleEventAck eventId now s))
       = map (\<lambda>e. if e_id e = eventId then Some now else e_ackAt e) (crisisEvents s)
   \<and> handleEventAck eventId later (handleEventAck eventId now s) = handleEventAck eventId later s"
  by (simp add: handleEventAck_def)

section \<open>The severities that the scheduler draws\<close>

lemma floor_thirds:
  fixes r :: real
  assumes "0 \<le> r" and "r < 1"
  shows "\<lfloor>r * 3\<rfloor> \<in> {0, 1, 2}"
proof -
  have "0 \<le> \<lfloor>r * 3\<rfloor>" using assms by simp
  moreover have "\<lfloor>r * 3\<rfloor> < 3" using assms by (simp add: floor_less_iff)
  moreover have "\<And>i::int. 0 \<le> i \<Longrightarrow> i < 3 \<Longrightarrow> i \<in> {0, 1, 2}" by auto
  ultimately show ?thesis by blast
qed

lemma at_index_three: "at_index [a, b, c] i \<in> {None, Some a, Some b, Some c}"
proof (cases "0 \<le> i \<and> i < 3")
  case True
  then have "i = 0 \<or> i = 1 \<or> i = 2" by auto
  then show ?thesis by (auto simp: at_index_def)
next
  case False
  then show ?thesis by (auto simp: at_index_def)
qed

lemma tickPayload_severity_any:
  "sp_severity (tickPayload code r now) \<in> {None, Some ''LOW'', Some ''MODERATE'', Some ''HIGH''}"
  using at_index_three[of "''LOW''" "''MODERATE''" "''HIGH''" "\<lfloor>r * 3\<rfloor>"]
  by (simp add: tickPayload_def severityOptions_def Let_def)

lemma tickPayload_severity:
  assumes "0 \<le> r" and "r < 1"
  shows "sp_severity (tickPayload code r now) \<in> {Some ''LOW'', Some ''MODERATE'', Some ''HIGH''}"
  using floor_thirds[OF assms] assms
  by (auto simp add: tickPayload_def severityOptions_def at_index_def Let_def)

lemma severity_keys:
  "map_of CrisisSeverityEnum (toUpperCase ''LOW'') = Some LOW"
  "map_of CrisisSeverityEnum (toUpperCase ''MODERATE'') = Some MODERATE"
  "map_of CrisisSeverityEnum (toUpperCase ''HIGH'') = Some HIGH"
  by (simp_all add: CrisisSeverityEnum_def toUpperCase_def toUpperChar_def lowerLetters_def upperLetters_def)

lemma onScheduled_events:
  assumes "sp_severity ev \<in> {None, Some ''LOW'', Some ''MODERATE'', Some ''HIGH''}"
  shows "crisisEvents (onScheduled ev now s) = crisisEvents s
       \<or> (\<exists>e. crisisEvents (onScheduled ev now s) = crisisEvents s @ [e]
              \<and> e_source e = SCHEDULER \<and> e_severity e \<in> {LOW, MODERATE, HIGH})"
proof (cases "findRoomByCode (toUpperCase (sp_roomCode ev)) s")
  case None
  then show ?thesis by (simp add: onScheduled_def)
next
  case (Some room)
  from assms consider "sp_severity ev = None" | "sp_severity ev = Some ''LOW''"
    | "sp_severity ev = Some ''MODERATE''" | "sp_severity ev = Some ''HIGH''" by auto
  then show ?thesis
    by cases (simp_all add: onScheduled_def Some severity_keys createCrisisEvent_def
        Let_def case_prod_beta)
qed

text \<open>
  C6. The severity of the payload that \<open>tick\<close> emits is LOW, MODERATE or HIGH, for every
  value that \<open>Math.random()\<close> can return, and so is the severity of the crisis event, of
  source SCHEDULER, that the gateway persists for a tick, if it persists one. CRITICAL is
  never drawn.
\<close>

theorem scheduler_severity_pool:
  assumes "0 \<le> r1" and "r1 < 1"
  shows "sp_severity (tickPayload code r1 now) \<in> {Some ''LOW'', Some ''MODERATE'', Some ''HIGH''}
       \<and> (crisisEvents (tick code r1 r2 now s) = crisisEvents s
          \<or> (\<exists>e. crisisEvents (tick code r1 r2 now s) = crisisEvents s @ [e]
                 \<and> e_source e = SCHEDULER \<and> e_severity e \<in> {LOW, MODERATE, HIGH}))"
proof
  show "sp_severity (tickPayload code r1 now) \<in> {Some ''LOW'', Some ''MODERATE'', Some ''HIGH''}"
    by (rule tickPayload_severity[OF assms])
next
  have "crisisEvents (tick code r1 r2 now s)
          = (if io s then crisisEvents (onScheduled (tickPayload code r1 now) now s) else crisisEvents s)"
    by (simp add: tick_def Let_def case_prod_beta)
  then show "crisisEvents (tick code r1 r2 now s) = crisisEvents s
          \<or> (\<exists>e. crisisEvents (tick code r1 r2 now s) = crisisEvents s @ [e]
                 \<and> e_source e = SCHEDULER \<and> e_severity e \<in> {LOW, MODERATE, HIGH})"
    using onScheduled_events[OF tickPayload_severity_any, of code r1 now now s]
    by (cases "io s") simp_all
qed

theorem scheduler_severity_pool_witness:
  "(0::real) \<le> 1 / 2 \<and> (1 / 2 :: real) < 1
   \<and> sp_severity (tickPayload ''ABCD1'' (1 / 2) 7000) = Some ''MODERATE''
   \<and> map e_severity (crisisEvents (tick ''ABCD1'' (1 / 2) (1 / 2) 7000 formateurIn)) = [MODERATE]"
proof -
  have h1: "(0::real) \<le> 1 / 2" and h2: "(1 / 2 :: real) < 1" by simp_all
  have p: "sp_severity (tickPayload ''ABCD1'' (1 / 2) 7000) = Some ''MODERATE''"
    by (simp add: tickPayload_def severityOptions_def at_index_def Let_def)
  have e: "crisisEvents formateurIn = []" by (simp add: formateurIn_eq)
  have t: "map e_severity (crisisEvents (tick ''ABCD1'' (1 / 2) (1 / 2) 7000 formateurIn)) = [MODERATE]"
    unfolding formateurIn_eq
    by (simp add: tick_def onScheduled_def tickPayload_def severityOptions_def at_index_def
        findRoomByCode_def createCrisisEvent_def createMessage_def emit_def setTimeout_def
        CrisisSeverityEnum_def toUpperCase_def toUpperChar_def lowerLetters_def upperLetters_def
        Let_def case_prod_beta)
  from scheduler_severity_pool[OF h1 h2, of "''ABCD1''" 7000 "1 / 2" formateurIn]
  show ?thesis using h1 h2 p t by simp
qed

section \<open>The registry of connections\<close>

lemma stopRoomScheduler_active:
  "activeSchedulers (stopRoomScheduler code s) = (activeSchedulers s)(code := None)"
  by (auto simp add: stopRoomScheduler_def clearTimeout_def Let_def split: option.splits)

lemma startRoomScheduler_active:
  "dom (activeSchedulers (startRoomScheduler code r s)) = insert code (dom (activeSchedulers s))"
  by (auto simp add: startRoomScheduler_def setTimeout_def Let_def)

lemma removeConnection_registry:
  "roomConnections (removeConnection code sid s) =
     (case roomConnections s code of
        None \<Rightarrow> roomConnections s
      | Some cs \<Rightarrow> if cs |-| {|sid|} = {||} then (roomConnections s)(code := None)
                  else (roomConnections s)(code \<mapsto> cs |-| {|sid|}))"
  by (auto simp add: removeConnection_def Let_def fcard_0_eq split: option.splits)

lemma removeConnection_active:
  "activeSchedulers (removeConnection code sid s) =
     (case roomConnections s code of
        None \<Rightarrow> activeSchedulers s
      | Some cs \<Rightarrow> if cs |-| {|sid|} = {||} then (activeSchedulers s)(code := None)
                  else activeSchedulers s)"
  by (auto simp add: removeConnection_def Let_def fcard_0_eq stopRoomScheduler_active split: option.splits)

lemma enterRoom_registry:
  "roomConnections (enterRoom sid code room name admin now r s) =
     (roomConnections s)(code \<mapsto> finsert sid (case roomConnections s code of None \<Rightarrow> {||} | Some c \<Rightarrow> c))"
  by (simp add: joinComplete_def addConnection_def Let_def case_prod_beta)

lemma enterRoom_active:
  "dom (activeSchedulers (enterRoom sid code room name admin now r s))
     = (if admin then insert code (dom (activeSchedulers s)) else dom (activeSchedulers s))"
  by (simp add: joinComplete_def Let_def case_prod_beta startRoomScheduler_active)

lemma handleJoin_registry:
  "roomConnections (handleJoin sid code name admin now r s) =
     (if findRoomByCode (toUpperCase code) s = None \<and> \<not> admin then roomConnections s
      else (roomConnections s)(toUpperCase code \<mapsto>
             finsert sid (case roomConnections s (toUpperCase code) of None \<Rightarrow> {||} | Some c \<Rightarrow> c)))"
  by (simp add: handleJoin_unfold enterRoom_registry Let_def case_prod_beta split: option.splits)

lemma handleJoin_active:
  "dom (activeSchedulers s) \<subseteq> dom (activeSchedulers (handleJoin sid code name admin now r s))"
  by (auto simp add: handleJoin_unfold enterRoom_active Let_def case_prod_beta split: option.splits)

lemma handleLeave_registry:
  "roomConnections (handleLeave sid code now s) =
     (case roomConnections s (toUpperCase code) of
        None \<Rightarrow> roomConnections s
      | Some cs \<Rightarrow> if cs |-| {|sid|} = {||} then (roomConnections s)(toUpperCase code := None)
                  else (roomConnections s)(toUpperCase code \<mapsto> cs |-| {|sid|}))"
  by (simp add: handleLeave_def removeConnection_registry Let_def split: option.splits)

lemma handleLeave_active:
  "activeSchedulers (handleLeave sid code now s) =
     (case roomConnections s (toUpperCase code) of
        None \<Rightarrow> activeSchedulers s
      | Some cs \<Rightarrow> if cs |-| {|sid|} = {||} then (activeSchedulers s)(toUpperCase code := None)
                  else activeSchedulers s)"
  by (simp add: handleLeave_def removeConnection_active Let_def split: option.splits)

lemma last_connection:
  assumes "cs \<noteq> {||}"
  shows "cs |-| {|sid|} = {||} \<longleftrightarrow> cs = {|sid|}"
  using assms by auto

lemma leave_registry_step:
  fixes sid code :: string and now :: timestamp and s :: server
  assumes "registryOk s"
  defines "s' \<equiv> handleLeave sid code now s"
  shows "registryOk s'"
    and "\<And>c. (c \<in> dom (roomConnections s) \<and> c \<notin> dom (roomConnections s'))
           \<longleftrightarrow> (c = toUpperCase code \<and> roomConnections s c = Some {|sid|})"
    and "\<And>c. c \<in> dom (activeSchedulers s) \<and> c \<notin> dom (activeSchedulers s')
           \<Longrightarrow> c \<in> dom (roomConnections s) \<and> c \<notin> dom (roomConnections s')"
    and "\<And>c. c \<in> dom (roomConnections s) \<and> c \<notin> dom (roomConnections s')
           \<Longrightarrow> c \<notin> dom (activeSchedulers s')"
proof -
  show "registryOk s'"
  proof (cases "roomConnections s (toUpperCase code)")
    case None
    then show ?thesis using assms(1) by (simp add: registryOk_def s'_def handleLeave_registry)
  next
    case (Some cs)
    then show ?thesis using assms(1)
      by (simp add: registryOk_def s'_def handleLeave_registry)
  qed
next
  fix c
  show "(c \<in> dom (roomConnections s) \<and> c \<notin> dom (roomConnections s'))
           \<longleftrightarrow> (c = toUpperCase code \<and> roomConnections s c = Some {|sid|})"
  proof (cases "roomConnections s (toUpperCase code)")
    case None
    then show ?thesis by (auto simp add: s'_def handleLeave_registry)
  next
    case (Some cs)
    then have "cs \<noteq> {||}" using assms(1) by (auto simp: registryOk_def)
    then have lc: "(cs |-| {|sid|} = {||}) = (cs = {|sid|})" by (rule last_connection)
    show ?thesis
    proof (cases "cs = {|sid|}")
      case True
      then show ?thesis using Some by (auto simp add: s'_def handleLeave_registry)
    next
      case False
      then have "cs |-| {|sid|} \<noteq> {||}" using lc by simp
      then show ?thesis using Some False by (auto simp add: s'_def handleLeave_registry)
    qed
  qed
next
  fix c
  assume a: "c \<in> dom (activeSchedulers s) \<and> c \<notin> dom (activeSchedulers s')"
  show "c \<in> dom (roomConnections s) \<and> c \<notin> dom (roomConnections s')"
  proof (cases "roomConnections s (toUpperCase code)")
    case None
    then show ?thesis using a by (simp add: s'_def handleLeave_active)
  next
    case (Some cs)
    show ?thesis
    proof (cases "cs |-| {|sid|} = {||}")
      case True
      then show ?thesis using a Some
        by (auto simp add: s'_def handleLeave_active handleLeave_registry split: if_splits)
    next
      case False
      then show ?thesis using a Some by (simp add: s'_def handleLeave_active)
    qed
  qed
next
  fix c
  assume a: "c \<in> dom (roomConnections s) \<and> c \<notin> dom (roomConnections s')"
  show "c \<notin> dom (activeSchedulers s')"
  proof (cases "roomConnections s (toUpperCase code)")
    case None
    then show ?thesis using a by (simp add: s'_def handleLeave_registry)
  next
    case (Some cs)
    show ?thesis
    proof (cases "cs |-| {|sid|} = {||}")
      case True
      then show ?thesis using a Some
        by (auto simp add: s'_def handleLeave_active handleLeave_registry split: if_splits)
    next
      case False
      then show ?thesis using a Some
        by (auto simp add: s'_def handleLeave_registry split: if_splits)
    qed
  qed
qed

lemma registryOk_cong: "roomConnections a = roomConnections b \<Longrightarrow> registryOk a = registryOk b"
  by (simp add: registryOk_def)

lemma join_registry_step:
  assumes "registryOk s"
  shows "registryOk (handleJoin sid code name admin now r s)"
    and "dom (roomConnections s) \<subseteq> dom (roomConnections (handleJoin sid code name admin now r s))"
  using assms by (auto simp add: registryOk_def handleJoin_registry)

lemma toUpperCase_simps [simp]: "toUpperCase [] = []" 
  by (simp add: toUpperCase_def)

lemma leave_registry_all:
  fixes sid code :: string and now :: timestamp and s :: server
  assumes "registryOk s"
  defines "s' \<equiv> handleLeave sid code now s"
  shows "registryOk s'
    \<and> (\<forall>c. (c \<in> dom (roomConnections s) \<and> c \<notin> dom (roomConnections s'))
          \<longleftrightarrow> (\<exists>sid'. Some (sid, toUpperCase code) = Some (sid', c)
                \<and> roomConnections s c = Some {|sid'|}))
    \<and> (\<forall>c. c \<in> dom (activeSchedulers s) \<and> c \<notin> dom (activeSchedulers s')
          \<longrightarrow> c \<in> dom (roomConnections s) \<and> c \<notin> dom (roomConnections s'))
    \<and> (\<forall>c. c \<in> dom (roomConnections s) \<and> c \<notin> dom (roomConnections s')
          \<longrightarrow> c \<notin> dom (activeSchedulers s'))"
proof (intro conjI allI impI)
  show "registryOk s'"
    unfolding s'_def by (rule leave_registry_step(1)[OF assms(1)])
next
  fix c
  have "(\<exists>sid'. Some (sid, toUpperCase code) = Some (sid', c) \<and> roomConnections s c = Some {|sid'|})
          \<longleftrightarrow> (c = toUpperCase code \<and> roomConnections s c = Some {|sid|})"
    by auto
  then show "(c \<in> dom (roomConnections s) \<and> c \<notin> dom (roomConnections s'))
          \<longleftrightarrow> (\<exists>sid'. Some (sid, toUpperCase code) = Some (sid', c)
                \<and> roomConnections s c = Some {|sid'|})"
    unfolding s'_def
    using leave_registry_step(2)[OF assms(1), where sid = sid and code = code and now = now and c = c]
    by (rule ssubst[where P = "\<lambda>x. _ = x"])
next
  fix c
  assume "c \<in> dom (activeSchedulers s) \<and> c \<notin> dom (activeSchedulers s')"
  then have "c \<in> dom (roomConnections s) \<and> c \<notin> dom (roomConnections s')"
    unfolding s'_def by (rule leave_registry_step(3)[OF assms(1)])
  then show "c \<in> dom (roomConnections s)" by (rule conjunct1)
next
  fix c
  assume "c \<in> dom (activeSchedulers s) \<and> c \<notin> dom (activeSchedulers s')"
  then have "c \<in> dom (roomConnections s) \<and> c \<notin> dom (roomConnections s')"
    unfolding s'_def by (rule leave_registry_step(3)[OF assms(1)])
  then show "c \<notin> dom (roomConnections s')" by (rule conjunct2)
next
  fix c
  assume "c \<in> dom (roomConnections s) \<and> c \<notin> dom (roomConnections s')"
  then show "c \<notin> dom (activeSchedulers s')"
    unfolding s'_def by (rule leave_registry_step(4)[OF assms(1)])
qed

text \<open>
  One join, leave or disconnect, seen from the registry and from \<open>activeSchedulers\<close>: no
  entry of the registry is empty afterwards; the entry of a room code is deleted exactly
  when the command removes the only connection of that entry; the entry of
  \<open>activeSchedulers\<close> for a room code disappears only in a step that deletes the registry
  entry of that code, and it is absent after every such step.
\<close>

lemma registry_step:
  assumes "registryOk s" and "connectionCommand c"
  shows "registryOk (exec c s)
    \<and> (\<forall>code. (code \<in> dom (roomConnections s) \<and> code \<notin> dom (roomConnections (exec c s)))
          \<longleftrightarrow> (\<exists>sid. removal c s = Some (sid, code) \<and> roomConnections s code = Some {|sid|}))
    \<and> (\<forall>code. code \<in> dom (activeSchedulers s) \<and> code \<notin> dom (activeSchedulers (exec c s))
          \<longrightarrow> code \<in> dom (roomConnections s) \<and> code \<notin> dom (roomConnections (exec c s)))
    \<and> (\<forall>code. code \<in> dom (roomConnections s) \<and> code \<notin> dom (roomConnections (exec c s))
          \<longrightarrow> code \<notin> dom (activeSchedulers (exec c s)))"
proof (cases c)
  case (Join sid code name admin now r)
  have "dom (roomConnections s) \<subseteq> dom (roomConnections (exec c s))"
    using join_registry_step(2)[OF assms(1)] Join by simp
  moreover have "dom (activeSchedulers s) \<subseteq> dom (activeSchedulers (exec c s))"
    using handleJoin_active Join by simp
  moreover have "registryOk (exec c s)"
    using join_registry_step(1)[OF assms(1)] Join by simp
  moreover have "removal c s = None" using Join by simp
  ultimately show ?thesis by auto
next
  case (Leave sid code now)
  have e: "exec c s = handleLeave sid code now s" using Leave by simp
  have r: "removal c s = Some (sid, toUpperCase code)" using Leave by simp
  show ?thesis unfolding e r by (rule leave_registry_all[OF assms(1)])
next
  case (Disconnect sid now)
  let ?s = "socketLeaveAll sid s"
  have ok: "registryOk ?s" using assms(1) registryOk_cong[of ?s s] by simp
  have same: "roomConnections ?s = roomConnections s" "activeSchedulers ?s = activeSchedulers s"
    by simp_all
  show ?thesis
  proof (cases "truthy (roomCode (socketData s sid))")
    case True
    then have e: "exec c s = handleLeave sid (show_undefined (roomCode (socketData s sid))) now ?s"
      using Disconnect by (simp add: handleDisconnect_def Let_def)
    have r: "removal c s = Some (sid, toUpperCase (show_undefined (roomCode (socketData s sid))))"
      using True Disconnect by simp
    show ?thesis unfolding e r
      using leave_registry_all[OF ok, where sid = sid and now = now
          and code = "show_undefined (roomCode (socketData s sid))"]
      unfolding same .
  next
    case False
    then have e: "exec c s = ?s" using Disconnect by (simp add: handleDisconnect_def Let_def)
    have r: "removal c s = None" using False Disconnect by simp
    show ?thesis unfolding e r same using ok by simp
  qed
qed (use assms(2) in simp_all)

section \<open>Commands before a join, and the severity of an injected event\<close>

lemma eventInjected_events:
  "crisisEvents eventInjected =
     [\<lparr>e_id = 3, e_roomId = 0, e_title = ''Coupure reseau'', e_description = ''Le reseau est coupe'',
       e_severity = HIGH, e_source = MANUAL, e_scheduledFor = None, e_triggeredAt = 3000,
       e_ackAt = None, e_payload = None\<rparr>]"
  unfolding eventInjected_def aliceIn_eq
  by (simp add: handleManualEvent_def createCrisisEvent_def createMessage_def emit_def
      CrisisSeverityEnum_def toUpperCase_def toUpperChar_def lowerLetters_def upperLetters_def
      Let_def case_prod_beta)

text \<open>
  C8, as stated, fails for \<open>event:ack\<close>: the connection \<open>c9\<close> never joined, and its
  acknowledgement of the event 3 changes the persisted event.
\<close>

theorem unjoined_ack_counterexample:
  "socketData eventInjected ''c9'' = noData
   \<and> persisted (exec (EventAck ''c9'' 3 9000) eventInjected) \<noteq> persisted eventInjected"
proof -
  have "socketData eventInjected ''c9'' = noData"
    by (simp add: eventInjected_def aliceIn_eq)
  moreover have "crisisEvents (exec (EventAck ''c9'' 3 9000) eventInjected) \<noteq> crisisEvents eventInjected"
    by (simp add: handleEventAck_def eventInjected_events)
  ultimately show ?thesis by (auto simp add: persisted_def)
qed

text \<open>
  C8, amended. On a connection that has not completed a join (its data is still empty),
  a chat command and an event-create command change nothing but the log of sent events,
  which gains one error signal to the originating connection; nothing is persisted and
  nothing is sent to a room. The \<open>event:ack\<close> handler does not look at the connection:
  it sets \<open>ackAt\<close> on the events with the given id and sends nothing.
\<close>

theorem unjoined_commands:
  assumes "socketData s sid = noData"
  shows "exec (Chat sid content now) s
           = s\<lparr>outbox := outbox s @ [ToSocket sid (SystemError noCurrentRoomMessage)]\<rparr>
       \<and> exec (EventCreate sid title description severity now) s
           = s\<lparr>outbox := outbox s @ [ToSocket sid (SystemError formateurOnlyMessage)]\<rparr>
       \<and> exec (EventAck sid eventId now) s
           = s\<lparr>crisisEvents := map (\<lambda>e. if e_id e = eventId then e\<lparr>e_ackAt := Some now\<rparr> else e)
                                   (crisisEvents s)\<rparr>"
  using assms
  by (simp add: handleChatMessage_def handleManualEvent_def handleEventAck_def emit_def noData_def)

theorem unjoined_commands_witness:
  "socketData eventInjected ''c9'' = noData
   \<and> persisted (exec (Chat ''c9'' ''bonjour'' 9000) eventInjected) = persisted eventInjected
   \<and> persisted (exec (EventCreate ''c9'' ''Alerte'' ''Fausse alerte'' ''HIGH'' 9000) eventInjected)
       = persisted eventInjected
   \<and> outbox (exec (EventAck ''c9'' 3 9000) eventInjected) = outbox eventInjected"
proof -
  have h: "socketData eventInjected ''c9'' = noData"
    by (simp add: eventInjected_def aliceIn_eq)
  note t = unjoined_commands[OF h]
  show ?thesis
    using h t[of "''bonjour''" 9000 "''Alerte''" "''Fausse alerte''" "''HIGH''" 3]
    by (simp add: persisted_def)
qed

text \<open>
  C5, as stated, fails for a severity that is outside the enumeration only by its case:
  the formateur on \<open>c1\<close> sends the severity \<open>low\<close>, and an event of severity LOW is
  persisted.
\<close>

theorem lower_case_severity_counterexample:
  "''low'' \<notin> {''LOW'', ''MODERATE'', ''HIGH'', ''CRITICAL''}
   \<and> map e_severity (crisisEvents (handleManualEvent ''c1'' ''Alerte'' ''Exercice'' ''low'' 3000 aliceIn))
       = [LOW]
   \<and> crisisEvents aliceIn = []"
  unfolding aliceIn_eq
  by (simp add: handleManualEvent_def createCrisisEvent_def createMessage_def emit_def
      CrisisSeverityEnum_def toUpperCase_def toUpperChar_def lowerLetters_def upperLetters_def
      Let_def case_prod_beta)

text \<open>
  C5, amended. An event-create command whose severity, converted to upper case, is none
  of LOW, MODERATE, HIGH, CRITICAL changes nothing but the log of sent events, which
  gains one error signal to the originating connection: the validation signal when the
  connection has admin privilege and a room, the authorization signal or the
  unknown-room signal otherwise. No crisis event and no message is persisted.
\<close>

theorem event_create_validates_severity:
  assumes "toUpperCase severity \<notin> {''LOW'', ''MODERATE'', ''HIGH'', ''CRITICAL''}"
  shows "handleManualEvent sid title description severity now s
           = s\<lparr>outbox := outbox s @ [ToSocket sid (SystemError
                 (if isAdmin (socketData s sid) \<noteq> Some True then formateurOnlyMessage
                  else if roomId (socketData s sid) = None \<or> \<not> truthy (roomCode (socketData s sid))
                       then roomUnknownMessage
                  else invalidSeverityMessage))]\<rparr>"
proof -
  have "map_of CrisisSeverityEnum (toUpperCase severity) = None"
    using assms by (simp add: CrisisSeverityEnum_def)
  then show ?thesis
    by (simp add: handleManualEvent_def emit_def Let_def split: option.splits bool.splits)
qed

theorem event_create_validates_severity_witness:
  "toUpperCase ''urgent'' \<notin> {''LOW'', ''MODERATE'', ''HIGH'', ''CRITICAL''}
   \<and> handleManualEvent ''c1'' ''Alerte'' ''Exercice'' ''urgent'' 3000 aliceIn
       = aliceIn\<lparr>outbox := outbox aliceIn @ [ToSocket ''c1'' (SystemError invalidSeverityMessage)]\<rparr>"
proof -
  have h: "toUpperCase ''urgent'' \<notin> {''LOW'', ''MODERATE'', ''HIGH'', ''CRITICAL''}"
    by (simp add: toUpperCase_def toUpperChar_def lowerLetters_def upperLetters_def)
  have d: "socketData aliceIn ''c1'' = \<lparr>roomCode = Some ''ABCD1'', roomId = Some 0,
                participantId = Some 1, displayName = Some ''FORM1'', isAdmin = Some True\<rparr>"
    by (simp add: aliceIn_eq)
  from event_create_validates_severity[OF h, of "''c1''" "''Alerte''" "''Exercice''" 3000 aliceIn]
  show ?thesis using h by (simp add: d)
qed

section \<open>Participant rows through the commands\<close>

lemma keeps_refl: "keeps ok p p"
  by (simp add: keeps_def)

lemma keeps_trans: "keeps ok p q \<Longrightarrow> keeps ok' q r \<Longrightarrow> (ok \<longrightarrow> ok') \<Longrightarrow> keeps ok p r"
  by (auto simp add: keeps_def)

lemma carries_refl: "carries s s"
  using keeps_refl by (auto simp add: carries_def)

lemma carries_trans:
  assumes "carries a b" and "carries b c" and "participantKeysOk a \<longrightarrow> participantKeysOk b"
  shows "carries a c"
  unfolding carries_def
proof
  fix p assume "p \<in> set (participants a)"
  then obtain q where q: "q \<in> set (participants b)" "keeps (participantKeysOk a) p q"
    using assms(1) unfolding carries_def by blast
  then obtain r where r: "r \<in> set (participants c)" "keeps (participantKeysOk b) q r"
    using assms(2) unfolding carries_def by blast
  have "keeps (participantKeysOk a) p r" by (rule keeps_trans[OF q(2) r(2) assms(3)])
  then show "\<exists>r \<in> set (participants c). keeps (participantKeysOk a) p r" using r(1) by blast
qed

lemma carries_same: "participants s' = participants s \<Longrightarrow> carries s s'"
  using keeps_refl by (auto simp add: carries_def)

lemma carries_cong:
  "participants b' = participants b \<Longrightarrow> carries a b' = carries a b"
  by (simp add: carries_def)

lemma keysOk_cong:
  "participants a = participants b \<Longrightarrow> nextId a = nextId b
     \<Longrightarrow> participantKeysOk a = participantKeysOk b"
  by (simp add: participantKeysOk_def)

lemma keysOk_grow:
  "participantKeysOk s \<Longrightarrow> participants s' = participants s \<Longrightarrow> nextId s \<le> nextId s'
     \<Longrightarrow> participantKeysOk s'"
  by (auto simp add: participantKeysOk_def list_all_iff)

lemma uniqueByName_cong:
  "participants a = participants b \<Longrightarrow> uniqueByName name a = uniqueByName name b"
  by (simp add: uniqueByName_def)

lemma refreshed_refl: "refreshed s s"
  unfolding refreshed_def by (auto intro: exI[of _ id])

lemma refreshed_trans:
  assumes "refreshed a b" and "refreshed b c"
  shows "refreshed a c"
proof -
  from assms(1) obtain f where f: "participants b = map f (participants a)"
    "\<And>p. p_id (f p) = p_id p \<and> p_roomId (f p) = p_roomId p \<and>
          p_displayName (f p) = p_displayName p \<and> p_role (f p) = p_role p"
    unfolding refreshed_def by blast
  from assms(2) obtain g where g: "participants c = map g (participants b)"
    "\<And>p. p_id (g p) = p_id p \<and> p_roomId (g p) = p_roomId p \<and>
          p_displayName (g p) = p_displayName p \<and> p_role (g p) = p_role p"
    unfolding refreshed_def by blast
  have "participants c = map (g \<circ> f) (participants a)" using f(1) g(1) by simp
  moreover have "\<And>p. p_id ((g \<circ> f) p) = p_id p \<and> p_roomId ((g \<circ> f) p) = p_roomId p \<and>
          p_displayName ((g \<circ> f) p) = p_displayName p \<and> p_role ((g \<circ> f) p) = p_role p"
    using f(2) g(2) by simp
  moreover have "nextId c = nextId a"
    using assms by (simp_all add: refreshed_def)
  ultimately show ?thesis unfolding refreshed_def by blast
qed

lemma refreshed_facts:
  assumes "refreshed s s'"
  shows "map p_id (participants s') = map p_id (participants s)"
    and "map p_roomId (participants s') = map p_roomId (participants s)"
    and "map p_displayName (participants s') = map p_displayName (participants s)"
    and "nextId s' = nextId s"
    and "carries s s'"
proof -
  from assms obtain f where f: "participants s' = map f (participants s)"
    "\<And>p. p_id (f p) = p_id p \<and> p_roomId (f p) = p_roomId p \<and>
          p_displayName (f p) = p_displayName p \<and> p_role (f p) = p_role p"
    unfolding refreshed_def by blast
  show "map p_id (participants s') = map p_id (participants s)" using f by simp
  show "map p_roomId (participants s') = map p_roomId (participants s)" using f by simp
  show "map p_displayName (participants s') = map p_displayName (participants s)" using f by simp
  show "nextId s' = nextId s" using assms by (simp add: refreshed_def)
  show "carries s s'" unfolding carries_def
  proof
    fix p assume "p \<in> set (participants s)"
    then have "f p \<in> set (participants s')" using f(1) by simp
    moreover have "keeps (participantKeysOk s) p (f p)" using f(2) by (simp add: keeps_def)
    ultimately show "\<exists>q \<in> set (participants s'). keeps (participantKeysOk s) p q" by blast
  qed
qed

lemma filter_map_key:
  assumes "\<And>x. P (f x) = P x"
  shows "filter P (map f xs) = map f (filter P xs)"
  using assms by (induction xs) auto

lemma refreshed_keysOk: "refreshed s s' \<Longrightarrow> participantKeysOk s \<Longrightarrow> participantKeysOk s'"
proof -
  assume r: "refreshed s s'" and k: "participantKeysOk s"
  have "list_all (\<lambda>p. p_id p < nextId s') (participants s')
          = list_all (\<lambda>i. i < nextId s) (map p_id (participants s'))"
    using refreshed_facts(4)[OF r] by (simp add: list_all_iff)
  then show ?thesis
    using k refreshed_facts(1)[OF r] by (simp add: participantKeysOk_def list_all_iff)
qed

lemma refreshed_unique: 
  assumes "refreshed s s'" and "uniqueByName name s"
  shows "uniqueByName name s'"
proof -
  from assms(1) obtain f where f: "participants s' = map f (participants s)"
    "\<And>p. p_id (f p) = p_id p \<and> p_roomId (f p) = p_roomId p \<and>
          p_displayName (f p) = p_displayName p \<and> p_role (f p) = p_role p"
    unfolding refreshed_def by blast
  have "filter (\<lambda>p. p_displayName p = name) (map f (participants s))
          = map f (filter (\<lambda>p. p_displayName p = name) (participants s))"
    by (rule filter_map_key) (simp add: f(2))
  moreover have "p_roomId \<circ> f = p_roomId"
    using f(2) by (simp add: fun_eq_iff)
  ultimately show ?thesis using assms(2) f(1) by (simp add: uniqueByName_def)
qed

lemma updateParticipants_refreshed:
  assumes "\<And>p. p_id (f p) = p_id p \<and> p_roomId (f p) = p_roomId p \<and>
          p_displayName (f p) = p_displayName p \<and> p_role (f p) = p_role p"
  shows "refreshed s (updateParticipants P f s)"
  unfolding refreshed_def
proof (intro conjI exI[of _ "\<lambda>p. if P p then f p else p"])
  show "participants (updateParticipants P f s) = map (\<lambda>p. if P p then f p else p) (participants s)"
    by (simp add: updateParticipants_def)
qed (use assms in simp_all)

lemma refreshed_cong:
  "nextId b' = nextId b \<Longrightarrow> participants b' = participants b
     \<Longrightarrow> refreshed a b \<Longrightarrow> refreshed a b'"
  by (simp add: refreshed_def)

lemma handleLeave_refreshed: "refreshed s (handleLeave sid code now s)"
proof (cases "participantId (socketData s sid)")
  case None
  then have "participants (handleLeave sid code now s) = participants s"
    by (simp add: handleLeave_def Let_def split: option.splits)
  then show ?thesis using refreshed_refl[of s] by (simp add: refreshed_def)
next
  case (Some pid)
  let ?u = "updateParticipants (\<lambda>p. p_id p = pid)
              (\<lambda>p. p\<lparr>p_isConnected := False, p_leftAt := Some now\<rparr>) s"
  have "participants (handleLeave sid code now s) = participants ?u"
    using Some by (simp add: handleLeave_def Let_def updateParticipants_def split: option.splits)
  moreover have "refreshed s ?u" by (rule updateParticipants_refreshed) simp
  ultimately show ?thesis by (auto intro: refreshed_cong[of _ ?u])
qed

lemma socketLeaveAll_refreshed: "refreshed s (socketLeaveAll sid s)"
  using refreshed_refl[of s] by (simp add: refreshed_def)

lemma socketLeave_refreshed: "refreshed s (socketLeave sid room s)"
  using refreshed_refl[of s] by (simp add: refreshed_def)

lemma handleDisconnect_refreshed: "refreshed s (handleDisconnect sid now s)"
  unfolding handleDisconnect_def Let_def
  using refreshed_trans[OF socketLeaveAll_refreshed handleLeave_refreshed] socketLeaveAll_refreshed
  by simp

lemma forceDisconnect_refreshed: "refreshed s (forceDisconnect code now sid s)"
  unfolding forceDisconnect_def
  by (rule refreshed_trans[OF socketLeave_refreshed handleDisconnect_refreshed])

lemma fold_forceDisconnect_refreshed: "refreshed s (fold (forceDisconnect code now) sids s)"
proof (induction sids arbitrary: s)
  case Nil
  show ?case by (simp add: refreshed_refl)
next
  case (Cons a sids)
  show ?case using refreshed_trans[OF forceDisconnect_refreshed Cons.IH] by simp
qed

lemma notifyClosure_refreshed: "refreshed s (notifyClosure code now s)"
proof -
  have "refreshed s (emit m s)" for m
    using refreshed_refl[of s] by (simp add: refreshed_def)
  then show ?thesis
    unfolding notifyClosure_def Let_def
    using refreshed_trans fold_forceDisconnect_refreshed by blast
qed

lemma find_map_key:
  assumes "\<And>x. P (f x) = P x"
  shows "find P (map f xs) = map_option f (find P xs)"
  using assms by (induction xs) auto

lemma find_append_some: "find P xs = Some x \<Longrightarrow> find P (xs @ ys) = Some x"
  by (induction xs) (auto split: if_splits)

lemma find_append_none: "find P xs = None \<Longrightarrow> find P (xs @ ys) = find P ys"
  by (induction xs) (auto split: if_splits)

lemma find_some_set: "find P xs = Some x \<Longrightarrow> x \<in> set xs \<and> P x"
  by (induction xs) (auto split: if_splits)

lemma find_none_set: "find P xs = None \<Longrightarrow> x \<in> set xs \<Longrightarrow> \<not> P x"
  by (induction xs) (auto split: if_splits)

lemma distinct_map_eq:
  "distinct (map f xs) \<Longrightarrow> x \<in> set xs \<Longrightarrow> y \<in> set xs \<Longrightarrow> f x = f y \<Longrightarrow> x = y"
  by (meson distinct_map inj_on_def)

lemma keysOk_map:
  assumes "participantKeysOk s"
    and "map p_id (participants s') = map p_id (participants s)"
    and "nextId s' = nextId s"
  shows "participantKeysOk s'"
proof -
  have "list_all (\<lambda>p. p_id p < nextId s') (participants s')
          = list_all (\<lambda>i. i < nextId s) (map p_id (participants s'))"
    using assms(3) by (simp add: list_all_iff)
  also have "\<dots> = list_all (\<lambda>p. p_id p < nextId s) (participants s)"
    unfolding assms(2) by (simp add: list_all_iff)
  finally show ?thesis
    using assms(1,2) by (simp add: participantKeysOk_def)
qed

lemma unique_map:
  assumes "uniqueByName name s"
    and "participants s' = map f (participants s)"
    and "\<And>p. p_roomId (f p) = p_roomId p \<and> p_displayName (f p) = p_displayName p"
  shows "uniqueByName name s'"
proof -
  have "filter (\<lambda>p. p_displayName p = name) (map f (participants s))
          = map f (filter (\<lambda>p. p_displayName p = name) (participants s))"
    by (rule filter_map_key) (simp add: assms(3))
  moreover have "p_roomId \<circ> f = p_roomId"
    using assms(3) by (simp add: fun_eq_iff)
  ultimately show ?thesis using assms(1,2) by (simp add: uniqueByName_def)
qed

text \<open>The two branches of the upsert.\<close>

lemma upsert_found:
  assumes "findParticipant rid name s = Some existing"
  shows "\<exists>f. participants (snd (saveAfterLookup rid name admin now s)) = map f (participants s)
           \<and> (\<forall>p. p_id (f p) = p_id p \<and> p_roomId (f p) = p_roomId p
                  \<and> p_displayName (f p) = p_displayName p)
           \<and> (\<forall>p. p_id p \<noteq> p_id existing \<longrightarrow> f p = p)
           \<and> fst (saveAfterLookup rid name admin now s) = f existing
           \<and> p_isConnected (f existing) \<and> p_leftAt (f existing) = None
           \<and> p_role (f existing) = (if admin then Some ''formateur'' else p_role existing)"
    and "nextId (snd (saveAfterLookup rid name admin now s)) = nextId s"
proof -
  let ?f = "\<lambda>p. if p_id p = p_id existing
              then p\<lparr>p_isConnected := True, p_leftAt := None,
                     p_role := (if admin then Some ''formateur'' else p_role existing)\<rparr>
              else p"
  have a: "participants (snd (saveAfterLookup rid name admin now s)) = map ?f (participants s)"
    using assms by (simp add: saveParticipant_def updateParticipants_def Let_def)
  have b: "fst (saveAfterLookup rid name admin now s) = ?f existing"
    using assms by (simp add: saveParticipant_def Let_def)
  have c: "\<forall>p. p_id (?f p) = p_id p \<and> p_roomId (?f p) = p_roomId p
                  \<and> p_displayName (?f p) = p_displayName p" by simp
  have d: "\<forall>p. p_id p \<noteq> p_id existing \<longrightarrow> ?f p = p" by simp
  have e1: "p_isConnected (?f existing)" by simp
  have e2: "p_leftAt (?f existing) = None" by simp
  have e3: "p_role (?f existing) = (if admin then Some ''formateur'' else p_role existing)"
    by simp
  show "\<exists>f. participants (snd (saveAfterLookup rid name admin now s)) = map f (participants s)
           \<and> (\<forall>p. p_id (f p) = p_id p \<and> p_roomId (f p) = p_roomId p
                  \<and> p_displayName (f p) = p_displayName p)
           \<and> (\<forall>p. p_id p \<noteq> p_id existing \<longrightarrow> f p = p)
           \<and> fst (saveAfterLookup rid name admin now s) = f existing
           \<and> p_isConnected (f existing) \<and> p_leftAt (f existing) = None
           \<and> p_role (f existing) = (if admin then Some ''formateur'' else p_role existing)"
    by (rule exI[of _ ?f]) (intro conjI a b c d e1 e2 e3)
  show "nextId (snd (saveAfterLookup rid name admin now s)) = nextId s"
    using assms by (simp add: saveParticipant_def Let_def)
qed

lemma upsert_missing:
  assumes "findParticipant rid name s = None"
  shows "participants (snd (saveAfterLookup rid name admin now s))
           = participants s @ [fst (saveAfterLookup rid name admin now s)]"
    and "nextId (snd (saveAfterLookup rid name admin now s)) = Suc (nextId s)"
    and "fst (saveAfterLookup rid name admin now s)
           = \<lparr>p_id = nextId s, p_roomId = rid, p_displayName = name,
               p_role = Some (if admin then ''formateur'' else ''participant''),
               p_isConnected = True, p_joinedAt = now, p_leftAt = None\<rparr>"
  using assms by (simp_all add: saveParticipant_def createParticipant_def Let_def)

lemma upsert_keysOk:
  assumes "participantKeysOk s"
  shows "participantKeysOk (snd (saveAfterLookup rid name admin now s))"
proof (cases "findParticipant rid name s")
  case None
  show ?thesis
    using assms unfolding participantKeysOk_def upsert_missing[OF None]
    by (auto simp add: list_all_iff)
next
  case (Some existing)
  from upsert_found(1)[OF Some] obtain f where
    f: "participants (snd (saveAfterLookup rid name admin now s)) = map f (participants s)"
       "\<forall>p. p_id (f p) = p_id p \<and> p_roomId (f p) = p_roomId p \<and> p_displayName (f p) = p_displayName p"
    by blast
  have "map p_id (participants (snd (saveAfterLookup rid name admin now s)))
          = map p_id (participants s)"
    using f by simp
  then show ?thesis using keysOk_map[OF assms _ upsert_found(2)[OF Some]] by blast
qed

lemma upsert_carries: "carries s (snd (saveAfterLookup rid name admin now s))"
proof (cases "findParticipant rid name s")
  case None
  show ?thesis unfolding carries_def upsert_missing[OF None]
    using keeps_refl by auto
next
  case (Some existing)
  have ex: "existing \<in> set (participants s)"
    using Some find_some_set unfolding findParticipant_def by fast
  from upsert_found(1)[OF Some, of admin now] obtain f where
    f: "participants (snd (saveAfterLookup rid name admin now s)) = map f (participants s)"
       "\<And>p. p_id (f p) = p_id p \<and> p_roomId (f p) = p_roomId p \<and> p_displayName (f p) = p_displayName p"
       "\<And>p. p_id p \<noteq> p_id existing \<Longrightarrow> f p = p"
       "p_role (f existing) = (if admin then Some ''formateur'' else p_role existing)"
    by blast
  show ?thesis unfolding carries_def
  proof
    fix p assume p: "p \<in> set (participants s)"
    have "f p \<in> f ` set (participants s)" using p by (rule imageI)
    then have "f p \<in> set (participants (snd (saveAfterLookup rid name admin now s)))"
      by (simp only: f(1) set_map)
    moreover have "keeps (participantKeysOk s) p (f p)"
    proof (cases "p_id p = p_id existing")
      case True
      show ?thesis
      proof (cases "participantKeysOk s")
        case ok: True
        then have d: "distinct (map p_id (participants s))" by (simp add: participantKeysOk_def)
        have "p = existing" using distinct_map_eq[OF d p ex] True by simp
        then show ?thesis using f(2)[of existing] f(4) by (simp add: keeps_def)
      next
        case False
        then show ?thesis using f(2)[of p] by (simp add: keeps_def)
      qed
    next
      case False
      then show ?thesis using f(3) by (simp add: keeps_def)
    qed
    ultimately show "\<exists>q \<in> set (participants (snd (saveAfterLookup rid name admin now s))).
                       keeps (participantKeysOk s) p q"
      by blast
  qed
qed

lemma upsert_unique:
  assumes "uniqueByName name' s"
  shows "uniqueByName name' (snd (saveAfterLookup rid name admin now s))"
proof (cases "findParticipant rid name s")
  case None
  have no: "\<And>p. p \<in> set (participants s) \<Longrightarrow> \<not> (p_roomId p = rid \<and> p_displayName p = name)"
    using None find_none_set unfolding findParticipant_def by fast
  show ?thesis
    using assms no unfolding uniqueByName_def upsert_missing(1)[OF None] upsert_missing(3)[OF None]
    by auto
next
  case (Some existing)
  from upsert_found(1)[OF Some, of admin now] obtain f where
    f: "participants (snd (saveAfterLookup rid name admin now s)) = map f (participants s)"
       "\<And>p. p_id (f p) = p_id p \<and> p_roomId (f p) = p_roomId p \<and> p_displayName (f p) = p_displayName p"
    by blast
  show ?thesis by (rule unique_map[OF assms f(1)]) (simp add: f(2))
qed

lemma upsert_row:
  shows "findParticipant rid name (snd (saveAfterLookup rid name admin now s))
           = Some (fst (saveAfterLookup rid name admin now s))"
    and "p_isConnected (fst (saveAfterLookup rid name admin now s))"
    and "p_leftAt (fst (saveAfterLookup rid name admin now s)) = None"
    and "admin \<Longrightarrow> p_role (fst (saveAfterLookup rid name admin now s)) = Some ''formateur''"
proof -
  show "findParticipant rid name (snd (saveAfterLookup rid name admin now s))
           = Some (fst (saveAfterLookup rid name admin now s))"
  proof (cases "findParticipant rid name s")
    case None
    then have "find (\<lambda>p. p_roomId p = rid \<and> p_displayName p = name) (participants s) = None"
      by (simp add: findParticipant_def)
    from find_append_none[OF this] show ?thesis
      unfolding findParticipant_def[of rid name "snd _"] upsert_missing(1)[OF None]
      by (simp add: upsert_missing(3)[OF None])
  next
    case (Some existing)
    from upsert_found(1)[OF Some, of admin now] obtain f where
      f: "participants (snd (saveAfterLookup rid name admin now s)) = map f (participants s)"
       "\<And>p. p_id (f p) = p_id p \<and> p_roomId (f p) = p_roomId p \<and> p_displayName (f p) = p_displayName p"
       "fst (saveAfterLookup rid name admin now s) = f existing"
      by blast
    have "findParticipant rid name (snd (saveAfterLookup rid name admin now s))
            = find (\<lambda>p. p_roomId p = rid \<and> p_displayName p = name) (map f (participants s))"
      by (simp only: findParticipant_def[of rid name "snd _"] f(1))
    also have "\<dots> = map_option f
                      (find (\<lambda>p. p_roomId p = rid \<and> p_displayName p = name) (participants s))"
      by (rule find_map_key) (simp add: f(2))
    also have "\<dots> = Some (f existing)"
      using Some by (simp add: findParticipant_def)
    finally show ?thesis by (simp add: f(3))
  qed
  show "p_isConnected (fst (saveAfterLookup rid name admin now s))"
    by (simp add: saveParticipant_def createParticipant_def Let_def split: option.splits)
  show "p_leftAt (fst (saveAfterLookup rid name admin now s)) = None"
    by (simp add: saveParticipant_def createParticipant_def Let_def split: option.splits)
  show "admin \<Longrightarrow> p_role (fst (saveAfterLookup rid name admin now s)) = Some ''formateur''"
    by (simp add: saveParticipant_def createParticipant_def Let_def split: option.splits)
qed

lemma findParticipant_cong:
  "participants a = participants b \<Longrightarrow> findParticipant rid name a = findParticipant rid name b"
  by (simp add: findParticipant_def)

lemma enterRoom_rows:
  "participants (enterRoom sid code room name admin now r s)
     = participants (snd (saveAfterLookup (r_id room) name admin now s))"
  "nextId (enterRoom sid code room name admin now r s)
     = nextId (snd (saveAfterLookup (r_id room) name admin now s))"
  "participantId (socketData (enterRoom sid code room name admin now r s) sid)
     = Some (p_id (fst (saveAfterLookup (r_id room) name admin now s)))"
  by (simp_all add: joinComplete_def Let_def case_prod_beta)

lemma fold_forceDisconnect_frame [simp]:
  "rooms (fold (forceDisconnect code now) sids s) = rooms s"
  "messages (fold (forceDisconnect code now) sids s) = messages s"
  "crisisEvents (fold (forceDisconnect code now) sids s) = crisisEvents s"
  "nextId (fold (forceDisconnect code now) sids s) = nextId s"
  "io (fold (forceDisconnect code now) sids s) = io s"
  "socketData (fold (forceDisconnect code now) sids s) = socketData s"
  "nextHandle (fold (forceDisconnect code now) sids s) = nextHandle s"
  by (induction sids arbitrary: s) simp_all

lemma notifyClosure_frame [simp]:
  "rooms (notifyClosure code now s) = rooms s"
  "messages (notifyClosure code now s) = messages s"
  "crisisEvents (notifyClosure code now s) = crisisEvents s"
  "nextId (notifyClosure code now s) = nextId s"
  "io (notifyClosure code now s) = io s"
  "socketData (notifyClosure code now s) = socketData s"
  "nextHandle (notifyClosure code now s) = nextHandle s"
  by (simp_all add: notifyClosure_def Let_def)

lemma closeRoomAction_frame [simp]:
  "messages (closeRoomAction rid code now s) = messages s"
  "crisisEvents (closeRoomAction rid code now s) = crisisEvents s"
  "nextId (closeRoomAction rid code now s) = nextId s"
  "io (closeRoomAction rid code now s) = io s"
  "socketData (closeRoomAction rid code now s) = socketData s"
  "nextHandle (closeRoomAction rid code now s) = nextHandle s"
  by (simp_all add: closeRoomAction_def Let_def split: option.splits)

lemma closeRoomAction_rooms:
  "rooms (closeRoomAction rid code now s) = rooms s
   \<or> (\<exists>rid'. rooms (closeRoomAction rid code now s)
         = map (\<lambda>r. if r_id r = rid' then r\<lparr>r_isActive := False, r_updatedAt := now\<rparr> else r) (rooms s))"
  by (auto simp add: closeRoomAction_def Let_def split: option.splits)

lemma refreshed_step:
  "participants b = participants a \<Longrightarrow> nextId b = nextId a \<Longrightarrow> refreshed a b"
  unfolding refreshed_def by (auto intro: exI[of _ id])

lemma closeRoomAction_refreshed: "refreshed s (closeRoomAction rid code now s)"
proof (cases "\<exists>rid'. rid = Some rid' \<and> code \<noteq> [] \<and> findRoomById rid' s \<noteq> None")
  case False
  then have "closeRoomAction rid code now s = s"
    by (auto simp add: closeRoomAction_def split: option.splits)
  then show ?thesis by (simp add: refreshed_refl)
next
  case True
  then obtain rid' room where t: "rid = Some rid'" "code \<noteq> []" "findRoomById rid' s = Some room"
    by auto
  let ?s1 = "s\<lparr>rooms := map (\<lambda>r. if r_id r = rid'
                 then r\<lparr>r_isActive := False, r_updatedAt := now\<rparr> else r) (rooms s)\<rparr>"
  let ?s2 = "updateParticipants (\<lambda>p. p_roomId p = rid' \<and> p_isConnected p)
                (\<lambda>p. p\<lparr>p_isConnected := False, p_leftAt := Some now\<rparr>) ?s1"
  let ?s3 = "stopRoomScheduler (toUpperCase code) ?s2"
  have e: "closeRoomAction rid code now s = (if io ?s3 then notifyClosure (toUpperCase code) now ?s3 else ?s3)"
    using t by (simp add: closeRoomAction_def Let_def)
  have "refreshed s ?s1" by (rule refreshed_step) simp_all
  moreover have "refreshed ?s1 ?s2" by (rule updateParticipants_refreshed) simp
  moreover have "refreshed ?s2 ?s3" by (rule refreshed_step) simp_all
  ultimately have r3: "refreshed s ?s3" using refreshed_trans by blast
  show ?thesis
  proof (cases "io ?s3")
    case True
    then show ?thesis using e refreshed_trans[OF r3 notifyClosure_refreshed] by simp
  next
    case False
    then show ?thesis using e r3 by simp
  qed
qed

lemma handleJoin_cases:
  obtains (rejected) "handleJoin sid code name admin now r s
             = emit (ToSocket sid (SystemError (roomMissingMessage (toUpperCase code)))) s"
            "findRoomByCode (toUpperCase code) s = None" "\<not> admin"
  | (created) "handleJoin sid code name admin now r s
             = enterRoom sid (toUpperCase code) (fst (createRoom (toUpperCase code) now s))
                 name admin now r (snd (createRoom (toUpperCase code) now s))"
            "findRoomByCode (toUpperCase code) s = None" "admin"
  | (found) room where "handleJoin sid code name admin now r s
             = enterRoom sid (toUpperCase code) room name admin now r s"
            "findRoomByCode (toUpperCase code) s = Some room"
  by (cases "findRoomByCode (toUpperCase code) s"; cases admin)
     (simp_all add: handleJoin_unfold Let_def case_prod_beta)

text \<open>The counter of keys never decreases.\<close>

lemma nextId_mono: "nextId s \<le> nextId (exec c s)"
proof (cases c)
  case (Join sid code name admin now r)
  have "nextId s \<le> nextId (snd (saveAfterLookup rid name admin now s))" for rid s
    by (simp add: saveParticipant_def createParticipant_def Let_def split: option.splits)
  then have "nextId s \<le> nextId (enterRoom sid code' room name admin now r s)" for code' room s
    by (simp add: enterRoom_rows)
  moreover have "nextId s \<le> nextId (snd (createRoom code' now s))" for code'
    by (simp add: createRoom_def Let_def)
  ultimately have m: "\<And>code' room s. nextId s \<le> nextId (enterRoom sid code' room name admin now r s)"
    "\<And>code'. nextId s \<le> nextId (snd (createRoom code' now s))" by blast+
  show ?thesis
  proof (cases rule: handleJoin_cases[of sid code name admin now r s])
    case rejected
    then show ?thesis using Join by simp
  next
    case created
    then show ?thesis using Join order_trans[OF m(2) m(1)] by simp
  next
    case (found room)
    then show ?thesis using Join m(1) by simp
  qed
next
  case (Chat sid content now)
  then show ?thesis
    by (simp add: handleChatMessage_def createMessage_def Let_def split: option.splits bool.splits)
next
  case (EventCreate sid title description severity now)
  then show ?thesis
    by (simp add: handleManualEvent_def createMessage_def createCrisisEvent_def Let_def
        case_prod_beta split: option.splits bool.splits)
next
  case (Fire h r1 r2 now)
  have "nextId s \<le> nextId (onScheduled ev now s)" for ev s
    by (simp add: onScheduled_def createMessage_def createCrisisEvent_def Let_def
        case_prod_beta split: option.splits)
  then have "nextId s \<le> nextId (tick code r1 r2 now s)" for code s
    by (simp add: tick_def Let_def case_prod_beta)
  then have "nextId (clearTimeout h s) \<le> nextId (tick code r1 r2 now (clearTimeout h s))" for code
    by blast
  then show ?thesis using Fire by (simp add: fire_def split: option.splits)
qed simp_all

lemma other_participants:
  "participants (handleChatMessage sid content now s) = participants s"
  "participants (handleManualEvent sid title description severity now s) = participants s"
  "participants (handleEventAck eventId now s) = participants s"
  "participants (fire h r1 r2 now s) = participants s"
  by simp_all

lemma enterRoom_keysOk:
  assumes "participantKeysOk s"
  shows "participantKeysOk (enterRoom sid code room name admin now r s)"
proof -
  have "participantKeysOk (enterRoom sid code room name admin now r s)
          = participantKeysOk (snd (saveAfterLookup (r_id room) name admin now s))"
    by (rule keysOk_cong) (simp_all add: enterRoom_rows)
  then show ?thesis using upsert_keysOk[OF assms] by simp
qed

lemma enterRoom_carries: "carries s (enterRoom sid code room name admin now r s)"
proof -
  have "carries s (enterRoom sid code room name admin now r s)
          = carries s (snd (saveAfterLookup (r_id room) name admin now s))"
    by (rule carries_cong) (simp_all add: enterRoom_rows)
  then show ?thesis using upsert_carries by simp
qed

lemma enterRoom_unique:
  assumes "uniqueByName n s"
  shows "uniqueByName n (enterRoom sid code room name admin now r s)"
proof -
  have "uniqueByName n (enterRoom sid code room name admin now r s)
          = uniqueByName n (snd (saveAfterLookup (r_id room) name admin now s))"
    by (rule uniqueByName_cong) (simp add: enterRoom_rows)
  then show ?thesis using upsert_unique[OF assms] by simp
qed

lemma exec_keysOk:
  assumes "participantKeysOk s"
  shows "participantKeysOk (exec c s)"
proof (cases c)
  case (Join sid code name admin now r)
  show ?thesis
  proof (cases rule: handleJoin_cases[of sid code name admin now r s])
    case rejected
    then show ?thesis using Join assms keysOk_cong[of "exec c s" s] by simp
  next
    case created
    have "participantKeysOk (snd (createRoom (toUpperCase code) now s))"
      by (rule keysOk_grow[OF assms]) (simp_all add: createRoom_def Let_def)
    then show ?thesis using Join created(1) enterRoom_keysOk by simp
  next
    case (found room)
    then show ?thesis using Join enterRoom_keysOk[OF assms] by simp
  qed
next
  case (Leave sid code now)
  then show ?thesis using refreshed_keysOk[OF handleLeave_refreshed assms] by simp
next
  case (Disconnect sid now)
  then show ?thesis using refreshed_keysOk[OF handleDisconnect_refreshed assms] by simp
next
  case (CloseRoom rid code now)
  then show ?thesis using refreshed_keysOk[OF closeRoomAction_refreshed assms] by simp
next
  case (Chat sid content now)
  then show ?thesis using keysOk_grow[OF assms, of "exec c s"] nextId_mono[of s c] by simp
next
  case (EventCreate sid title description severity now)
  then show ?thesis using keysOk_grow[OF assms, of "exec c s"] nextId_mono[of s c] by simp
next
  case (EventAck sid eventId now)
  then show ?thesis using keysOk_grow[OF assms, of "exec c s"] nextId_mono[of s c] by simp
next
  case (Fire h r1 r2 now)
  then show ?thesis using keysOk_grow[OF assms, of "exec c s"] nextId_mono[of s c] by simp
qed

lemma exec_carries: "carries s (exec c s)"
proof (cases c)
  case (Join sid code name admin now r)
  show ?thesis
  proof (cases rule: handleJoin_cases[of sid code name admin now r s])
    case rejected
    then show ?thesis using Join carries_same[of "exec c s" s] by simp
  next
    case created
    let ?s0 = "snd (createRoom (toUpperCase code) now s)"
    have "carries s ?s0" by (rule carries_same) simp
    moreover have "participantKeysOk s \<longrightarrow> participantKeysOk ?s0"
      using keysOk_grow[of s ?s0] by (simp add: createRoom_def Let_def)
    ultimately show ?thesis
      using Join created(1) carries_trans[OF _ enterRoom_carries] by simp
  next
    case (found room)
    then show ?thesis using Join enterRoom_carries by simp
  qed
next
  case (Leave sid code now)
  then show ?thesis using refreshed_facts(5)[OF handleLeave_refreshed] by simp
next
  case (Disconnect sid now)
  then show ?thesis using refreshed_facts(5)[OF handleDisconnect_refreshed] by simp
next
  case (CloseRoom rid code now)
  then show ?thesis using refreshed_facts(5)[OF closeRoomAction_refreshed] by simp
next
  case (Chat sid content now)
  then show ?thesis using carries_same[of "exec c s" s] by simp
next
  case (EventCreate sid title description severity now)
  then show ?thesis using carries_same[of "exec c s" s] by simp
next
  case (EventAck sid eventId now)
  then show ?thesis using carries_same[of "exec c s" s] by simp
next
  case (Fire h r1 r2 now)
  then show ?thesis using carries_same[of "exec c s" s] by simp
qed

lemma exec_unique:
  assumes "uniqueByName n s"
  shows "uniqueByName n (exec c s)"
proof (cases c)
  case (Join sid code name admin now r)
  show ?thesis
  proof (cases rule: handleJoin_cases[of sid code name admin now r s])
    case rejected
    then show ?thesis using Join assms uniqueByName_cong[of "exec c s" s] by simp
  next
    case created
    have "uniqueByName n (snd (createRoom (toUpperCase code) now s))"
      using assms uniqueByName_cong[of "snd (createRoom (toUpperCase code) now s)" s] by simp
    then show ?thesis using Join created(1) enterRoom_unique by simp
  next
    case (found room)
    then show ?thesis using Join enterRoom_unique[OF assms] by simp
  qed
next
  case (Leave sid code now)
  then show ?thesis using refreshed_unique[OF handleLeave_refreshed assms] by simp
next
  case (Disconnect sid now)
  then show ?thesis using refreshed_unique[OF handleDisconnect_refreshed assms] by simp
next
  case (CloseRoom rid code now)
  then show ?thesis using refreshed_unique[OF closeRoomAction_refreshed assms] by simp
next
  case (Chat sid content now)
  then show ?thesis using assms uniqueByName_cong[of "exec c s" s] by simp
next
  case (EventCreate sid title description severity now)
  then show ?thesis using assms uniqueByName_cong[of "exec c s" s] by simp
next
  case (EventAck sid eventId now)
  then show ?thesis using assms uniqueByName_cong[of "exec c s" s] by simp
next
  case (Fire h r1 r2 now)
  then show ?thesis using assms uniqueByName_cong[of "exec c s" s] by simp
qed

lemma exec_room:
  assumes "findRoomByCode code s = Some room"
  shows "\<exists>room'. findRoomByCode code (exec c s) = Some room' \<and> r_id room' = r_id room"
proof -
  consider (same) "rooms (exec c s) = rooms s"
    | (more) extra where "rooms (exec c s) = rooms s @ extra"
    | (closed) rid' now where "rooms (exec c s)
         = map (\<lambda>r. if r_id r = rid' then r\<lparr>r_isActive := False, r_updatedAt := now\<rparr> else r) (rooms s)"
  proof (cases c)
    case (Join sid code' name admin now r)
    show ?thesis
    proof (cases rule: handleJoin_cases[of sid code' name admin now r s])
      case rejected
      then show ?thesis using Join same by simp
    next
      case created
      then have "rooms (exec c s) = rooms s @ [fst (createRoom (toUpperCase code') now s)]"
        using Join by (simp add: createRoom_def Let_def)
      then show ?thesis using more by blast
    next
      case (found room)
      then show ?thesis using Join same by simp
    qed
  next
    case (CloseRoom rid code' now)
    then show ?thesis using closeRoomAction_rooms[of rid code' now s] same closed by auto
  qed (use same in simp_all)
  then show ?thesis
  proof cases
    case same
    then show ?thesis using assms by (simp add: findRoomByCode_def)
  next
    case (more extra)
    then show ?thesis using assms find_append_some[of _ "rooms s" room extra]
      by (simp add: findRoomByCode_def)
  next
    case (closed rid' now)
    let ?g = "\<lambda>r. if r_id r = rid' then r\<lparr>r_isActive := False, r_updatedAt := now\<rparr> else r"
    have "find (\<lambda>r. r_code r = code) (map ?g (rooms s))
            = map_option ?g (find (\<lambda>r. r_code r = code) (rooms s))"
      by (rule find_map_key) simp
    then show ?thesis using assms closed by (simp add: findRoomByCode_def)
  qed
qed

lemma run_rows:
  "carries s (run cs s) \<and> (participantKeysOk s \<longrightarrow> participantKeysOk (run cs s))
   \<and> (uniqueByName n s \<longrightarrow> uniqueByName n (run cs s))
   \<and> (findRoomByCode code s = Some room
        \<longrightarrow> (\<exists>room'. findRoomByCode code (run cs s) = Some room' \<and> r_id room' = r_id room))"
proof (induction cs arbitrary: s room)
  case Nil
  then show ?case by (simp add: run_def carries_refl)
next
  case (Cons c cs)
  have r: "run (c # cs) s = run cs (exec c s)" by (simp add: run_def)
  note ih = Cons.IH[of "exec c s"]
  have "carries s (run cs (exec c s))"
    using carries_trans[OF exec_carries[of s c]] ih exec_keysOk by blast
  moreover have "participantKeysOk s \<longrightarrow> participantKeysOk (run cs (exec c s))"
    using ih exec_keysOk by blast
  moreover have "uniqueByName n s \<longrightarrow> uniqueByName n (run cs (exec c s))"
    using ih exec_unique by blast
  moreover have "findRoomByCode code s = Some room
        \<longrightarrow> (\<exists>room'. findRoomByCode code (run cs (exec c s)) = Some room' \<and> r_id room' = r_id room)"
  proof
    assume "findRoomByCode code s = Some room"
    from exec_room[OF this, of c] obtain room1 where
      r1: "findRoomByCode code (exec c s) = Some room1" "r_id room1 = r_id room" by blast
    from ih[of room1] r1 show "\<exists>room'. findRoomByCode code (run cs (exec c s)) = Some room'
           \<and> r_id room' = r_id room" by auto
  qed
  ultimately show ?case unfolding r by blast
qed

text \<open>
  C7. Where the keys of the participants are in order, a participant whose stored role
  is formateur is still there after any commands whatever, with the same key, room and
  display name, and its role is still formateur: no join, by an admin or not, under its
  name or another, downgrades it. And a join of an admin leaves the participant that the
  connection is bound to, of the display name given, with the role formateur.
\<close>

theorem formateur_role_kept:
  assumes "participantKeysOk s" and "p \<in> set (participants s)" and "p_role p = Some ''formateur''"
  shows "(\<exists>q \<in> set (participants (run cs s)). p_id q = p_id p \<and> p_roomId q = p_roomId p
             \<and> p_displayName q = p_displayName p)
       \<and> (\<forall>q \<in> set (participants (run cs s)). p_id q = p_id p \<longrightarrow> p_role q = Some ''formateur'')
       \<and> (\<exists>q \<in> set (participants (handleJoin sid code name True now r s)).
             participantId (socketData (handleJoin sid code name True now r s) sid) = Some (p_id q)
             \<and> p_displayName q = name \<and> p_role q = Some ''formateur'')"
proof (intro conjI)
  from run_rows[of s cs] assms(1) have k: "participantKeysOk (run cs s)"
    and c: "carries s (run cs s)" by simp_all
  from c assms(1,2) obtain q where q: "q \<in> set (participants (run cs s))" "keeps True p q"
    unfolding carries_def by auto
  then show "\<exists>q \<in> set (participants (run cs s)). p_id q = p_id p \<and> p_roomId q = p_roomId p
             \<and> p_displayName q = p_displayName p"
    unfolding keeps_def by blast
  have d: "distinct (map p_id (participants (run cs s)))" using k by (simp add: participantKeysOk_def)
  show "\<forall>q \<in> set (participants (run cs s)). p_id q = p_id p \<longrightarrow> p_role q = Some ''formateur''"
  proof (intro ballI impI)
    fix q' assume q': "q' \<in> set (participants (run cs s))" "p_id q' = p_id p"
    then have "q' = q" using distinct_map_eq[OF d q'(1) q(1)] q(2) by (simp add: keeps_def)
    then show "p_role q' = Some ''formateur''" using q(2) assms(3) by (simp add: keeps_def)
  qed
next
  let ?j = "handleJoin sid code name True now r s"
  obtain room s0 where e: "?j = enterRoom sid (toUpperCase code) room name True now r s0"
    by (cases rule: handleJoin_cases[of sid code name True now r s]) auto
  let ?q = "fst (saveAfterLookup (r_id room) name True now s0)"
  have f: "findParticipant (r_id room) name ?j = Some ?q"
    using upsert_row(1)[where rid="r_id room" and name=name and admin=True and now=now and s=s0]
    by (simp add: e findParticipant_cong[OF enterRoom_rows(1)])
  then have "?q \<in> set (participants ?j) \<and> p_displayName ?q = name"
    using find_some_set unfolding findParticipant_def by fast
  moreover have "participantId (socketData ?j sid) = Some (p_id ?q)"
    by (simp add: e enterRoom_rows)
  moreover have "p_role ?q = Some ''formateur''" by (rule upsert_row(4)) simp
  ultimately show "\<exists>q \<in> set (participants ?j).
             participantId (socketData ?j sid) = Some (p_id q)
             \<and> p_displayName q = name \<and> p_role q = Some ''formateur''"
    by blast
qed

theorem formateur_role_kept_witness:
  "participantKeysOk formateurIn
   \<and> \<lparr>p_id = 1, p_roomId = 0, p_displayName = ''FORM1'', p_role = Some ''formateur'',
       p_isConnected = True, p_joinedAt = 1000, p_leftAt = None\<rparr> \<in> set (participants formateurIn)
   \<and> (\<exists>q \<in> set (participants (run [Disconnect ''c1'' 5000, Join ''c5'' ''abcd1'' ''FORM1'' False 6000 0]
                                   formateurIn)).
         p_id q = 1 \<and> p_displayName q = ''FORM1'' \<and> p_role q = Some ''formateur'')"
proof -
  let ?p = "\<lparr>p_id = 1, p_roomId = 0, p_displayName = ''FORM1'', p_role = Some ''formateur'',
       p_isConnected = True, p_joinedAt = 1000, p_leftAt = None\<rparr>"
  let ?cs = "[Disconnect ''c1'' 5000, Join ''c5'' ''abcd1'' ''FORM1'' False 6000 0]"
  have h1: "participantKeysOk formateurIn" by (simp add: participantKeysOk_def formateurIn_eq)
  have h2: "?p \<in> set (participants formateurIn)" by (simp add: formateurIn_eq)
  have h3: "p_role ?p = Some ''formateur''" by simp
  note t = formateur_role_kept[OF h1 h2 h3, of ?cs]
  from t[THEN conjunct1] obtain q where
    q: "q \<in> set (participants (run ?cs formateurIn))" "p_id q = 1" "p_displayName q = ''FORM1''"
    by auto
  moreover have "p_role q = Some ''formateur''"
    using t[THEN conjunct2, THEN conjunct1] q(1,2) by simp
  ultimately show ?thesis using h1 h2 by blast
qed

section \<open>Joining twice\<close>

lemma find_filter_head: "find P xs = Some p \<Longrightarrow> \<exists>ys. filter P xs = p # ys"
  by (induction xs) (auto split: if_splits)

lemma find_exists: "x \<in> set xs \<Longrightarrow> P x \<Longrightarrow> \<exists>y. find P xs = Some y"
  by (induction xs) auto

lemma distinct_filter_one:
  "distinct (map f xs) \<Longrightarrow> length (filter (\<lambda>x. f x = a) xs) \<le> 1"
proof (induction xs)
  case Nil
  then show ?case by simp
next
  case (Cons x xs)
  show ?case
  proof (cases "f x = a")
    case True
    then have "\<And>y. y \<in> set xs \<Longrightarrow> f y \<noteq> a" using Cons.prems by (auto simp add: image_iff)
    then have "filter (\<lambda>x. f x = a) xs = []" by (simp add: filter_empty_conv)
    then show ?thesis using True by simp
  next
    case False
    then show ?thesis using Cons by simp
  qed
qed

lemma unique_rows:
  assumes "uniqueByName name s" and "findParticipant rid name s = Some p"
  shows "rowsFor rid name s = [p]"
proof -
  have "rowsFor rid name s
          = filter (\<lambda>p. p_roomId p = rid) (filter (\<lambda>p. p_displayName p = name) (participants s))"
    by (simp add: rowsFor_def conj_commute)
  then have "length (rowsFor rid name s) \<le> 1"
    using distinct_filter_one[OF assms(1)[unfolded uniqueByName_def], of rid] by simp
  moreover obtain ys where "rowsFor rid name s = p # ys"
    using find_filter_head[OF assms(2)[unfolded findParticipant_def]] unfolding rowsFor_def by blast
  ultimately show ?thesis by simp
qed

lemma join_resolves:
  assumes "admin \<or> findRoomByCode (toUpperCase code) s \<noteq> None"
  obtains room s0 where
    "handleJoin sid code name admin now r s = enterRoom sid (toUpperCase code) room name admin now r s0"
    "participants s0 = participants s"
    "findRoomByCode (toUpperCase code) s0 = Some room"
proof (cases rule: handleJoin_cases[of sid code name admin now r s])
  case rejected
  then show ?thesis using assms by simp
next
  case created
  let ?room = "fst (createRoom (toUpperCase code) now s)"
  let ?s0 = "snd (createRoom (toUpperCase code) now s)"
  have "find (\<lambda>r. r_code r = toUpperCase code) (rooms s) = None"
    using created(2) by (simp add: findRoomByCode_def)
  from find_append_none[OF this]
  have "findRoomByCode (toUpperCase code) ?s0 = Some ?room"
    by (simp add: findRoomByCode_def createRoom_def Let_def)
  moreover have "participants ?s0 = participants s" by simp
  ultimately show ?thesis using created(1) that by blast
next
  case (found room)
  then show ?thesis using that by blast
qed

text \<open>
  Joins that do not overlap. Start from a state where no two participant rows of the
  display name are in the same room. Let a join under (room code, display name) run to
  its end and resolve its room (the room exists or the joiner is an admin), let any
  commands follow, among them the leave or disconnect of the first connection, and let
  a second join under the same code and name run, on any connection. Then the room has
  exactly one participant row of that name after the first join and exactly one after
  the second, with the same key; the row is connected with no leave time, and the
  second join has created no row.
\<close>

lemma separate_joins_single_row:
  fixes s :: server and name code sid1 sid2 :: string and admin1 admin2 :: bool
    and now1 now2 :: timestamp and r1 r2 :: real and cs :: "command list"
  assumes "uniqueByName name s"
      and "admin1 \<or> findRoomByCode (toUpperCase code) s \<noteq> None"
  defines "s1 \<equiv> handleJoin sid1 code name admin1 now1 r1 s"
  defines "s2 \<equiv> run cs s1"
  defines "s3 \<equiv> handleJoin sid2 code name admin2 now2 r2 s2"
  shows "\<exists>room p1 p. findRoomByCode (toUpperCase code) s3 = Some room
           \<and> rowsFor (r_id room) name s1 = [p1]
           \<and> rowsFor (r_id room) name s3 = [p]
           \<and> p_id p = p_id p1 \<and> p_isConnected p \<and> p_leftAt p = None
           \<and> length (participants s3) = length (participants s2)"
proof -
  let ?c = "toUpperCase code"
  obtain room1 s0 where j1: "s1 = enterRoom sid1 ?c room1 name admin1 now1 r1 s0"
    "participants s0 = participants s" "findRoomByCode ?c s0 = Some room1"
    using join_resolves[OF assms(2), of sid1 name now1 r1] unfolding s1_def by metis
  let ?p1 = "fst (saveAfterLookup (r_id room1) name admin1 now1 s0)"
  have u0: "uniqueByName name s0" using assms(1) uniqueByName_cong[OF j1(2)] by simp
  have u1: "uniqueByName name s1" unfolding j1(1) by (rule enterRoom_unique[OF u0])
  have room_s1: "findRoomByCode ?c s1 = Some room1"
    using j1(3) by (simp add: findRoomByCode_def j1(1))
  have f1: "findParticipant (r_id room1) name s1 = Some ?p1"
    using upsert_row(1)[where rid="r_id room1" and name=name and admin=admin1 and now=now1 and s=s0]
    by (simp add: j1(1) findParticipant_cong[OF enterRoom_rows(1)])
  have rows1: "rowsFor (r_id room1) name s1 = [?p1]" by (rule unique_rows[OF u1 f1])
  have p1_in: "?p1 \<in> set (participants s1)"
    using f1 find_some_set unfolding findParticipant_def by fast
  have p1_key: "p_roomId ?p1 = r_id room1 \<and> p_displayName ?p1 = name"
    using f1 find_some_set unfolding findParticipant_def by fast
  note rr = run_rows[of s1 cs name ?c room1, folded s2_def]
  have u2: "uniqueByName name s2" using rr u1 by blast
  obtain room2 where room_s2: "findRoomByCode ?c s2 = Some room2" "r_id room2 = r_id room1"
    using rr room_s1 by blast
  obtain q where q: "q \<in> set (participants s2)" "keeps (participantKeysOk s1) ?p1 q"
    using rr p1_in unfolding carries_def by blast
  have q_key: "p_roomId q = r_id room2 \<and> p_displayName q = name" "p_id q = p_id ?p1"
    using q(2) p1_key room_s2(2) by (simp_all add: keeps_def)
  obtain q' where f2: "findParticipant (r_id room2) name s2 = Some q'"
    using find_exists[OF q(1), of "\<lambda>p. p_roomId p = r_id room2 \<and> p_displayName p = name"] q_key(1)
    unfolding findParticipant_def by blast
  have "rowsFor (r_id room2) name s2 = [q']" by (rule unique_rows[OF u2 f2])
  moreover have "q \<in> set (rowsFor (r_id room2) name s2)"
    using q(1) q_key(1) by (simp add: rowsFor_def)
  ultimately have qq: "q' = q" by simp
  have j2: "s3 = enterRoom sid2 ?c room2 name admin2 now2 r2 s2"
    unfolding s3_def using room_s2(1) by (simp add: handleJoin_unfold Let_def)
  let ?p = "fst (saveAfterLookup (r_id room2) name admin2 now2 s2)"
  from upsert_found(1)[OF f2, of admin2 now2] obtain f where
    f: "participants (snd (saveAfterLookup (r_id room2) name admin2 now2 s2)) = map f (participants s2)"
       "\<And>p. p_id (f p) = p_id p \<and> p_roomId (f p) = p_roomId p \<and> p_displayName (f p) = p_displayName p"
       "?p = f q'"
    by blast
  have u3: "uniqueByName name s3" unfolding j2 by (rule enterRoom_unique[OF u2])
  have f3: "findParticipant (r_id room2) name s3 = Some ?p"
    using upsert_row(1)[where rid="r_id room2" and name=name and admin=admin2 and now=now2 and s=s2]
    by (simp add: j2 findParticipant_cong[OF enterRoom_rows(1)])
  have rows3: "rowsFor (r_id room2) name s3 = [?p]" by (rule unique_rows[OF u3 f3])
  have room_s3: "findRoomByCode ?c s3 = Some room2"
    using room_s2(1) by (simp add: findRoomByCode_def j2)
  have len: "length (participants s3) = length (participants s2)"
    by (simp add: j2 enterRoom_rows f(1))
  have id: "p_id ?p = p_id ?p1" using f(2)[of q'] f(3) qq q_key(2) by simp
  have "rowsFor (r_id room2) name s1 = [?p1]" using rows1 room_s2(2) by simp
  then show ?thesis
    using room_s3 rows3 id len upsert_row(2,3)[where rid="r_id room2" and name=name and admin=admin2 and now=now2 and s=s2] by blast
qed

lemma separate_joins_single_row_example:
  "uniqueByName ''Alice'' formateurIn
   \<and> (False \<or> findRoomByCode (toUpperCase ''abcd1'') formateurIn \<noteq> None)
   \<and> (\<exists>room p1 p.
         findRoomByCode (toUpperCase ''abcd1'')
           (handleJoin ''c3'' ''abcd1'' ''Alice'' False 3000 0
              (run [Disconnect ''c2'' 2500] (handleJoin ''c2'' ''abcd1'' ''Alice'' False 2000 0 formateurIn)))
           = Some room
         \<and> rowsFor (r_id room) ''Alice'' (handleJoin ''c2'' ''abcd1'' ''Alice'' False 2000 0 formateurIn) = [p1]
         \<and> rowsFor (r_id room) ''Alice''
             (handleJoin ''c3'' ''abcd1'' ''Alice'' False 3000 0
               (run [Disconnect ''c2'' 2500] (handleJoin ''c2'' ''abcd1'' ''Alice'' False 2000 0 formateurIn)))
             = [p]
         \<and> p_id p = p_id p1 \<and> p_isConnected p \<and> p_leftAt p = None)"
proof -
  have h1: "uniqueByName ''Alice'' formateurIn"
    by (simp add: uniqueByName_def formateurIn_eq)
  have h2: "False \<or> findRoomByCode (toUpperCase ''abcd1'') formateurIn \<noteq> None"
    by (simp add: formateurIn_eq findRoomByCode_def toUpperCase_def toUpperChar_def
        lowerLetters_def upperLetters_def)
  from separate_joins_single_row[OF h1 h2, where ?sid1.0 = "''c2''" and ?now1.0 = 2000
      and ?r1.0 = 0 and cs = "[Disconnect ''c2'' 2500]" and ?sid2.0 = "''c3''" and ?admin2.0 = False
      and ?now2.0 = 3000 and ?r2.0 = 0]
  show ?thesis using h1 h2 by blast
qed

text \<open>
  C1 fails when the two joins overlap. FORM1 is alone in the room ABCD1 (key 0), which
  has no row for Alice. Two joins of Alice for ABCD1 are sent one right after the
  other: both handlers ask the store for a row (ABCD1, Alice) before either has written
  one, both get none, and both create a row. The room then has two rows for Alice, of
  keys 2 and 3, and the table has two rows of the same room and display name: nothing
  in the store forbids it. The same two joins, the second started after the end of the
  first, leave the single row of key 2.
\<close>

theorem overlapping_joins_duplicate:
  "map r_code (rooms overlappingJoins) = [''ABCD1'']
   \<and> rowsFor 0 ''Alice'' formateurIn = []
   \<and> map p_id (rowsFor 0 ''Alice'' overlappingJoins) = [2, 3]
   \<and> \<not> uniqueByName ''Alice'' overlappingJoins
   \<and> map p_id (rowsFor 0 ''Alice''
         (handleJoin ''c3'' ''ABCD1'' ''Alice'' False 2001 (1 / 4)
            (handleJoin ''c2'' ''ABCD1'' ''Alice'' False 2000 (1 / 4) formateurIn))) = [2]"
proof -
  have a: "map r_code (rooms overlappingJoins) = [''ABCD1'']"
    unfolding overlappingJoins_def formateurIn_eq by (simp add: run_defs)
  have b: "rowsFor 0 ''Alice'' formateurIn = []"
    unfolding formateurIn_eq by (simp add: rowsFor_def)
  have c: "participants overlappingJoins
             = participants formateurIn
               @ [\<lparr>p_id = 2, p_roomId = 0, p_displayName = ''Alice'', p_role = Some ''participant'',
                    p_isConnected = True, p_joinedAt = 2002, p_leftAt = None\<rparr>,
                  \<lparr>p_id = 3, p_roomId = 0, p_displayName = ''Alice'', p_role = Some ''participant'',
                    p_isConnected = True, p_joinedAt = 2003, p_leftAt = None\<rparr>]"
    unfolding overlappingJoins_def formateurIn_eq by (simp add: run_defs)
  have d: "map p_id (rowsFor 0 ''Alice'' overlappingJoins) = [2, 3]"
    unfolding rowsFor_def c formateurIn_eq by simp
  have e: "\<not> uniqueByName ''Alice'' overlappingJoins"
    unfolding uniqueByName_def c formateurIn_eq by simp
  have f: "map p_id (rowsFor 0 ''Alice''
         (handleJoin ''c3'' ''ABCD1'' ''Alice'' False 2001 (1 / 4) aliceIn)) = [2]"
    unfolding aliceIn_eq by (simp add: run_defs rowsFor_def)
  have h: "map p_id (rowsFor 0 ''Alice''
         (handleJoin ''c3'' ''ABCD1'' ''Alice'' False 2001 (1 / 4)
            (handleJoin ''c2'' ''ABCD1'' ''Alice'' False 2000 (1 / 4) formateurIn))) = [2]"
    using f by (simp add: aliceIn_def)
  show ?thesis by (intro conjI a b d e h)
qed

section \<open>The scheduler around a closure\<close>

lemma schedulerOk_cong: "timers a = timers b \<Longrightarrow> schedulerOk a = schedulerOk b"
  by (simp add: timers_def schedulerOk_def)

lemma armed_cong: "timers a = timers b \<Longrightarrow> armed c a = armed c b"
  by (simp add: timers_def armed_def)

lemma calmer_refl: "calmer s s"
  by (simp add: calmer_def)

lemma calmer_trans: "calmer a b \<Longrightarrow> calmer b c \<Longrightarrow> calmer a c"
  by (simp add: calmer_def)

lemma calmer_same: "timers b = timers a \<Longrightarrow> calmer a b"
  using schedulerOk_cong[of b a] armed_cong[of b a] by (simp add: calmer_def)

lemma calmer_cong: "timers b' = timers b \<Longrightarrow> calmer a b \<Longrightarrow> calmer a b'"
  using schedulerOk_cong[of b' b] armed_cong[of b' b] by (simp add: calmer_def)

lemma stopRoomScheduler_pending:
  "pending (stopRoomScheduler code s)
     = (case activeSchedulers s code of
          None \<Rightarrow> pending s
        | Some h \<Rightarrow> filter (\<lambda>(h', t). h' \<noteq> h) (pending s))"
  by (simp add: stopRoomScheduler_def clearTimeout_def Let_def split: option.splits)

lemma stopRoomScheduler_timers:
  "timers a = timers b \<Longrightarrow> timers (stopRoomScheduler code a) = timers (stopRoomScheduler code b)"
  by (auto simp add: timers_def stopRoomScheduler_pending stopRoomScheduler_active
      split: option.splits)

lemma armedI: "(h, t) \<in> set (pending s) \<Longrightarrow> armed (t_room t) s"
  by (auto simp add: armed_def list_ex_iff)

lemma armedE: "armed c s \<Longrightarrow> \<exists>h t. (h, t) \<in> set (pending s) \<and> t_room t = c"
  by (auto simp add: armed_def list_ex_iff)

lemma schedulerOkD:
  assumes "schedulerOk s" and "(h, t) \<in> set (pending s)"
  shows "h < nextHandle s" and "activeSchedulers s (t_room t) = Some h"
  using assms by (auto simp add: schedulerOk_def list_all_iff)

lemma stop_ok:
  assumes "schedulerOk s"
  shows "schedulerOk (stopRoomScheduler code s)"
proof (cases "activeSchedulers s code")
  case None
  then show ?thesis using assms by (simp add: stopRoomScheduler_def)
next
  case (Some h)
  have p: "pending (stopRoomScheduler code s) = filter (\<lambda>(h', t). h' \<noteq> h) (pending s)"
    using Some by (simp add: stopRoomScheduler_pending)
  have d: "distinct (map fst (pending (stopRoomScheduler code s)))"
    unfolding p using assms by (simp add: schedulerOk_def distinct_map_filter)
  have "\<And>h' t. (h', t) \<in> set (pending (stopRoomScheduler code s))
           \<Longrightarrow> h' < nextHandle (stopRoomScheduler code s)
               \<and> activeSchedulers (stopRoomScheduler code s) (t_room t) = Some h'"
  proof -
    fix h' t assume "(h', t) \<in> set (pending (stopRoomScheduler code s))"
    then have in_s: "(h', t) \<in> set (pending s)" and ne: "h' \<noteq> h" unfolding p by auto
    have "activeSchedulers s (t_room t) = Some h'" using schedulerOkD(2)[OF assms in_s] .
    then have "t_room t \<noteq> code" using Some ne by auto
    then show "h' < nextHandle (stopRoomScheduler code s)
               \<and> activeSchedulers (stopRoomScheduler code s) (t_room t) = Some h'"
      using schedulerOkD[OF assms in_s] by (simp add: stopRoomScheduler_active)
  qed
  then show ?thesis using d by (auto simp add: schedulerOk_def list_all_iff)
qed

lemma stop_quiet:
  assumes "schedulerOk s"
  shows "\<not> armed code (stopRoomScheduler code s)"
proof
  assume "armed code (stopRoomScheduler code s)"
  then obtain h t where ht: "(h, t) \<in> set (pending (stopRoomScheduler code s))" "t_room t = code"
    using armedE by blast
  show False
  proof (cases "activeSchedulers s code")
    case None
    then have "(h, t) \<in> set (pending s)" using ht(1) by (simp add: stopRoomScheduler_pending)
    then show False using schedulerOkD(2)[OF assms] ht(2) None by fastforce
  next
    case (Some h0)
    then have in_s: "(h, t) \<in> set (pending s)" and ne: "h \<noteq> h0"
      using ht(1) by (auto simp add: stopRoomScheduler_pending)
    then show False using schedulerOkD(2)[OF assms in_s] ht(2) Some by simp
  qed
qed

lemma stop_armed: "armed c (stopRoomScheduler code s) \<Longrightarrow> armed c s"
  by (auto simp add: armed_def list_ex_iff stopRoomScheduler_pending split: option.splits)

lemma stop_calmer: "calmer s (stopRoomScheduler code s)"
  using stop_ok stop_armed by (auto simp add: calmer_def)

lemma startRoomScheduler_timers:
  "timers a = timers b \<Longrightarrow> timers (startRoomScheduler code r a) = timers (startRoomScheduler code r b)"
  by (auto simp add: timers_def startRoomScheduler_def setTimeout_def Let_def)

lemma start_ok:
  assumes "schedulerOk s"
  shows "schedulerOk (startRoomScheduler code r s)"
proof (cases "activeSchedulers s code")
  case (Some h)
  then show ?thesis using assms by (simp add: startRoomScheduler_def)
next
  case None
  have no: "\<And>h t. (h, t) \<in> set (pending s) \<Longrightarrow> t_room t \<noteq> code \<and> h < nextHandle s"
    using schedulerOkD[OF assms] None by fastforce
  then have "nextHandle s \<notin> fst ` set (pending s)" by fastforce
  then show ?thesis
    using assms None no
    by (auto simp add: schedulerOk_def list_all_iff startRoomScheduler_def setTimeout_def Let_def
        less_Suc_eq)
qed

lemma start_armed: "armed c (startRoomScheduler code r s) \<Longrightarrow> c = code \<or> armed c s"
  by (auto simp add: armed_def list_ex_iff startRoomScheduler_def setTimeout_def Let_def
      split: if_splits)

lemma removeConnection_timers:
  "timers (removeConnection code sid a) = timers a
   \<or> timers (removeConnection code sid a) = timers (stopRoomScheduler code a)"
proof (cases "roomConnections a code")
  case None
  then show ?thesis by (simp add: removeConnection_def)
next
  case (Some cs)
  show ?thesis
  proof (cases "fcard (cs |-| {|sid|}) = 0")
    case True
    let ?a' = "a\<lparr>roomConnections := (roomConnections a)(code := None)\<rparr>"
    have "removeConnection code sid a = stopRoomScheduler code ?a'"
      using Some True by (simp add: removeConnection_def Let_def)
    moreover have "timers ?a' = timers a" by (simp add: timers_def)
    ultimately show ?thesis using stopRoomScheduler_timers[of ?a' a code] by simp
  next
    case False
    then show ?thesis using Some by (simp add: removeConnection_def Let_def timers_def)
  qed
qed

lemma handleLeave_timers:
  "timers (handleLeave sid code now s) = timers s
   \<or> timers (handleLeave sid code now s) = timers (stopRoomScheduler (toUpperCase code) s)"
proof -
  let ?s2 = "(case participantId (socketData s sid) of
                  None \<Rightarrow> socketLeave sid (toUpperCase code) s
                | Some pid \<Rightarrow>
                    updateParticipants (\<lambda>p. p_id p = pid)
                      (\<lambda>p. p\<lparr>p_isConnected := False, p_leftAt := Some now\<rparr>)
                      (socketLeave sid (toUpperCase code) s))"
  have t2: "timers ?s2 = timers s" by (simp add: timers_def split: option.splits)
  have "timers (handleLeave sid code now s) = timers (removeConnection (toUpperCase code) sid ?s2)"
    by (simp add: handleLeave_def Let_def timers_def split: option.splits)
  then show ?thesis
    using removeConnection_timers[of "toUpperCase code" sid ?s2] t2
      stopRoomScheduler_timers[OF t2, of "toUpperCase code"]
    by auto
qed

lemma handleLeave_calmer: "calmer s (handleLeave sid code now s)"
  using handleLeave_timers[of sid code now s] calmer_same
    calmer_cong[OF _ stop_calmer[of s "toUpperCase code"]]
  by blast

lemma handleDisconnect_calmer: "calmer s (handleDisconnect sid now s)"
proof -
  have "calmer s (socketLeaveAll sid s)" by (rule calmer_same) (simp add: timers_def)
  then show ?thesis
    unfolding handleDisconnect_def Let_def
    using calmer_trans[OF _ handleLeave_calmer] by simp
qed

lemma forceDisconnect_calmer: "calmer s (forceDisconnect code now sid s)"
proof -
  have "calmer s (socketLeave sid code s)" by (rule calmer_same) (simp add: timers_def)
  then show ?thesis
    unfolding forceDisconnect_def using calmer_trans[OF _ handleDisconnect_calmer] by blast
qed

lemma fold_forceDisconnect_calmer: "calmer s (fold (forceDisconnect code now) sids s)"
proof (induction sids arbitrary: s)
  case Nil
  show ?case by (simp add: calmer_refl)
next
  case (Cons a sids)
  show ?case using calmer_trans[OF forceDisconnect_calmer Cons.IH] by simp
qed

lemma notifyClosure_calmer: "calmer s (notifyClosure code now s)"
proof -
  have "calmer s (emit m s)" for m by (rule calmer_same) (simp add: timers_def)
  then show ?thesis
    unfolding notifyClosure_def Let_def
    using calmer_trans fold_forceDisconnect_calmer by blast
qed

lemma closeRoomAction_steps:
  assumes "findRoomById rid s \<noteq> None" and "code \<noteq> []"
  obtains s2 s3 where "timers s2 = timers s" "s3 = stopRoomScheduler (toUpperCase code) s2"
    "closeRoomAction (Some rid) code now s = s3
     \<or> closeRoomAction (Some rid) code now s = notifyClosure (toUpperCase code) now s3"
proof -
  let ?s1 = "s\<lparr>rooms := map (\<lambda>r. if r_id r = rid
                 then r\<lparr>r_isActive := False, r_updatedAt := now\<rparr> else r) (rooms s)\<rparr>"
  let ?s2 = "updateParticipants (\<lambda>p. p_roomId p = rid \<and> p_isConnected p)
                (\<lambda>p. p\<lparr>p_isConnected := False, p_leftAt := Some now\<rparr>) ?s1"
  let ?s3 = "stopRoomScheduler (toUpperCase code) ?s2"
  have "closeRoomAction (Some rid) code now s
          = (if io ?s3 then notifyClosure (toUpperCase code) now ?s3 else ?s3)"
    using assms by (auto simp add: closeRoomAction_def Let_def)
  moreover have "timers ?s2 = timers s" by (simp add: timers_def)
  ultimately show ?thesis using that[of ?s2 ?s3] by (cases "io ?s3") simp_all
qed

lemma closeRoomAction_calmer: "calmer s (closeRoomAction rid code now s)"
proof (cases "\<exists>rid'. rid = Some rid' \<and> code \<noteq> [] \<and> findRoomById rid' s \<noteq> None")
  case False
  then have "closeRoomAction rid code now s = s"
    by (auto simp add: closeRoomAction_def split: option.splits)
  then show ?thesis by (simp add: calmer_refl)
next
  case True
  then obtain rid' where t: "rid = Some rid'" "code \<noteq> []" "findRoomById rid' s \<noteq> None" by auto
  obtain s2 s3 where st: "timers s2 = timers s" "s3 = stopRoomScheduler (toUpperCase code) s2"
    "closeRoomAction (Some rid') code now s = s3
     \<or> closeRoomAction (Some rid') code now s = notifyClosure (toUpperCase code) now s3"
    using closeRoomAction_steps[OF t(3,2)] by metis
  have "calmer s s2" by (rule calmer_same[OF st(1)])
  then have "calmer s s3" unfolding st(2) using calmer_trans stop_calmer by blast
  then show ?thesis
    using st(3) t(1) calmer_trans[OF _ notifyClosure_calmer] by auto
qed

lemma closeRoomAction_quiet:
  assumes "schedulerOk s" and "findRoomById rid s \<noteq> None" and "code \<noteq> []"
  shows "\<not> armed (toUpperCase code) (closeRoomAction (Some rid) code now s)"
proof -
  obtain s2 s3 where st: "timers s2 = timers s" "s3 = stopRoomScheduler (toUpperCase code) s2"
    "closeRoomAction (Some rid) code now s = s3
     \<or> closeRoomAction (Some rid) code now s = notifyClosure (toUpperCase code) now s3"
    using closeRoomAction_steps[OF assms(2,3)] by metis
  have "schedulerOk s2" using assms(1) schedulerOk_cong[OF st(1)] by simp
  then have q: "\<not> armed (toUpperCase code) s3" unfolding st(2) by (rule stop_quiet)
  then have "\<not> armed (toUpperCase code) (notifyClosure (toUpperCase code) now s3)"
    using notifyClosure_calmer[of s3] by (auto simp add: calmer_def)
  then show ?thesis using st(3) q by auto
qed

lemma startRoomScheduler_fields:
  "activeSchedulers (startRoomScheduler code r a)
     = (if activeSchedulers a code \<noteq> None then activeSchedulers a
        else (activeSchedulers a)(code \<mapsto> nextHandle a))"
  "pending (startRoomScheduler code r a)
     = (if activeSchedulers a code \<noteq> None then pending a
        else pending a @ [(nextHandle a, \<lparr>t_room = code, t_delay = randomBetween 15000 30000 r\<rparr>)])"
  "nextHandle (startRoomScheduler code r a)
     = (if activeSchedulers a code \<noteq> None then nextHandle a else Suc (nextHandle a))"
  by (simp_all add: startRoomScheduler_def setTimeout_def Let_def)

lemma enterRoom_timers:
  "timers (enterRoom sid code room name admin now r s)
     = (if admin then timers (startRoomScheduler code r s) else timers s)"
  by (simp add: joinComplete_def Let_def case_prod_beta timers_def startRoomScheduler_fields)

lemma handleJoin_timers:
  "timers (handleJoin sid code name admin now r s) = timers s
   \<or> (admin \<and> timers (handleJoin sid code name admin now r s)
                 = timers (startRoomScheduler (toUpperCase code) r s))"
proof (cases rule: handleJoin_cases[of sid code name admin now r s])
  case rejected
  then show ?thesis by (simp add: timers_def)
next
  case created
  have t0: "timers (snd (createRoom (toUpperCase code) now s)) = timers s" by (simp add: timers_def)
  have "timers (handleJoin sid code name admin now r s)
          = timers (startRoomScheduler (toUpperCase code) r (snd (createRoom (toUpperCase code) now s)))"
    using created(1,3) by (simp add: enterRoom_timers)
  also have "\<dots> = timers (startRoomScheduler (toUpperCase code) r s)"
    by (rule startRoomScheduler_timers[OF t0])
  finally show ?thesis using created(3) by simp
next
  case (found room)
  then show ?thesis by (simp add: enterRoom_timers)
qed

lemma tick_timers:
  "pending (tick code r1 r2 now a)
     = pending a @ [(nextHandle a, \<lparr>t_room = code, t_delay = randomBetween 15000 30000 r2\<rparr>)]"
  "activeSchedulers (tick code r1 r2 now a) = (activeSchedulers a)(code \<mapsto> nextHandle a)"
  "nextHandle (tick code r1 r2 now a) = Suc (nextHandle a)"
  by (simp_all add: tick_def Let_def case_prod_beta setTimeout_def)

lemma fire_ok:
  assumes "schedulerOk s"
  shows "schedulerOk (fire h r1 r2 now s)"
proof (cases "map_of (pending s) h")
  case None
  then show ?thesis using assms by (simp add: fire_def)
next
  case (Some t)
  then have ht: "(h, t) \<in> set (pending s)" by (rule map_of_SomeD)
  let ?a = "clearTimeout h s"
  let ?f = "tick (t_room t) r1 r2 now ?a"
  have e: "fire h r1 r2 now s = ?f" using Some by (simp add: fire_def)
  have pa: "pending ?a = filter (\<lambda>(h', t). h' \<noteq> h) (pending s)" by (simp add: clearTimeout_def)
  have old: "\<And>h' t'. (h', t') \<in> set (pending ?a)
               \<Longrightarrow> h' < nextHandle s \<and> t_room t' \<noteq> t_room t
                   \<and> activeSchedulers s (t_room t') = Some h'"
  proof -
    fix h' t' assume "(h', t') \<in> set (pending ?a)"
    then have in_s: "(h', t') \<in> set (pending s)" and ne: "h' \<noteq> h" unfolding pa by auto
    have "activeSchedulers s (t_room t') = Some h'" using schedulerOkD(2)[OF assms in_s] .
    moreover have "activeSchedulers s (t_room t) = Some h" using schedulerOkD(2)[OF assms ht] .
    ultimately show "h' < nextHandle s \<and> t_room t' \<noteq> t_room t
                   \<and> activeSchedulers s (t_room t') = Some h'"
      using ne schedulerOkD(1)[OF assms in_s] by auto
  qed
  have d: "distinct (map fst (pending ?a))"
    unfolding pa using assms by (simp add: schedulerOk_def distinct_map_filter)
  have fresh: "nextHandle s \<notin> fst ` set (pending ?a)" using old by fastforce
  have "distinct (map fst (pending ?f))"
    using d fresh by (simp add: tick_timers)
  moreover have "\<And>h' t'. (h', t') \<in> set (pending ?f)
            \<Longrightarrow> h' < nextHandle ?f \<and> activeSchedulers ?f (t_room t') = Some h'"
    using old by (auto simp add: tick_timers less_Suc_eq)
  ultimately show ?thesis unfolding e by (auto simp add: schedulerOk_def list_all_iff)
qed

lemma fire_armed: "armed c (fire h r1 r2 now s) \<Longrightarrow> armed c s"
proof (cases "map_of (pending s) h")
  case None
  then show "armed c (fire h r1 r2 now s) \<Longrightarrow> armed c s" by (simp add: fire_def)
next
  case (Some t)
  then have ht: "(h, t) \<in> set (pending s)" by (rule map_of_SomeD)
  assume "armed c (fire h r1 r2 now s)"
  then obtain h' t' where
    x: "(h', t') \<in> set (pending (tick (t_room t) r1 r2 now (clearTimeout h s)))" "t_room t' = c"
    using Some armedE by (fastforce simp add: fire_def)
  then consider "(h', t') \<in> set (pending s)" | "t_room t' = t_room t"
    by (auto simp add: tick_timers clearTimeout_def)
  then show "armed c s"
  proof cases
    case 1
    then show ?thesis using armedI x(2) by blast
  next
    case 2
    then show ?thesis using armedI[OF ht] x(2) by simp
  qed
qed

lemma fire_calmer: "calmer s (fire h r1 r2 now s)"
  using fire_ok fire_armed by (auto simp add: calmer_def)

lemma schedulerOk_same: "timers b = timers a \<Longrightarrow> schedulerOk a \<Longrightarrow> schedulerOk b"
  using schedulerOk_cong[of b a] by blast

lemma armed_same: "timers b = timers a \<Longrightarrow> armed c b \<Longrightarrow> armed c a"
  using armed_cong[of b a c] by blast

lemma exec_scheduler_ok:
  assumes "schedulerOk s"
  shows "schedulerOk (exec c s)"
proof (cases c)
  case (Join sid code name admin now r)
  from handleJoin_timers[of sid code name admin now r s] show ?thesis
  proof
    assume "timers (handleJoin sid code name admin now r s) = timers s"
    then have "schedulerOk (handleJoin sid code name admin now r s)"
      using assms by (rule schedulerOk_same)
    then show ?thesis unfolding Join by simp
  next
    assume "admin \<and> timers (handleJoin sid code name admin now r s)
                 = timers (startRoomScheduler (toUpperCase code) r s)"
    then have "timers (handleJoin sid code name admin now r s)
                 = timers (startRoomScheduler (toUpperCase code) r s)" by (rule conjunct2)
    then have "schedulerOk (handleJoin sid code name admin now r s)"
      using start_ok[OF assms] by (rule schedulerOk_same)
    then show ?thesis unfolding Join by simp
  qed
next
  case (Leave sid code now)
  then show ?thesis using handleLeave_calmer[of s sid code now] assms by (simp add: calmer_def)
next
  case (Disconnect sid now)
  then show ?thesis using handleDisconnect_calmer[of s sid now] assms by (simp add: calmer_def)
next
  case (Chat sid content now)
  have "timers (exec c s) = timers s" unfolding Chat by (simp add: timers_def)
  then show ?thesis using assms by (rule schedulerOk_same)
next
  case (EventCreate sid title description severity now)
  have "timers (exec c s) = timers s" unfolding EventCreate by (simp add: timers_def)
  then show ?thesis using assms by (rule schedulerOk_same)
next
  case (EventAck sid eventId now)
  have "timers (exec c s) = timers s" unfolding EventAck by (simp add: timers_def)
  then show ?thesis using assms by (rule schedulerOk_same)
next
  case (Fire h r1 r2 now)
  then show ?thesis using fire_ok[OF assms] by simp
next
  case (CloseRoom rid code now)
  then show ?thesis using closeRoomAction_calmer[of s rid code now] assms by (simp add: calmer_def)
qed

lemma exec_armed:
  assumes "\<not> startsScheduler code c" and "armed code (exec c s)"
  shows "armed code s"
proof (cases c)
  case (Join sid code' name admin now r)
  from handleJoin_timers[of sid code' name admin now r s] show ?thesis
  proof
    assume "timers (handleJoin sid code' name admin now r s) = timers s"
    moreover have "armed code (handleJoin sid code' name admin now r s)"
      using assms(2) unfolding Join by simp
    ultimately show ?thesis by (rule armed_same)
  next
    assume a: "admin \<and> timers (handleJoin sid code' name admin now r s)
                 = timers (startRoomScheduler (toUpperCase code') r s)"
    then have ne: "code \<noteq> toUpperCase code'" using assms(1) Join by auto
    have "armed code (handleJoin sid code' name admin now r s)"
      using assms(2) unfolding Join by simp
    then have "armed code (startRoomScheduler (toUpperCase code') r s)"
      using a armed_cong[of "handleJoin sid code' name admin now r s"] by blast
    then show ?thesis using start_armed[of code "toUpperCase code'" r s] ne by blast
  qed
next
  case (Leave sid code' now)
  then show ?thesis using handleLeave_calmer[of s sid code' now] assms(2) by (simp add: calmer_def)
next
  case (Disconnect sid now)
  then show ?thesis using handleDisconnect_calmer[of s sid now] assms(2) by (simp add: calmer_def)
next
  case (Chat sid content now)
  have "timers (exec c s) = timers s" unfolding Chat by (simp add: timers_def)
  then show ?thesis using assms(2) by (rule armed_same)
next
  case (EventCreate sid title description severity now)
  have "timers (exec c s) = timers s" unfolding EventCreate by (simp add: timers_def)
  then show ?thesis using assms(2) by (rule armed_same)
next
  case (EventAck sid eventId now)
  have "timers (exec c s) = timers s" unfolding EventAck by (simp add: timers_def)
  then show ?thesis using assms(2) by (rule armed_same)
next
  case (Fire h r1 r2 now)
  then show ?thesis using fire_armed assms(2) by simp
next
  case (CloseRoom rid code' now)
  then show ?thesis using closeRoomAction_calmer[of s rid code' now] assms(2) by (simp add: calmer_def)
qed

lemma tick_needs_timer: "tickOf c s = Some code \<Longrightarrow> armed code s"
proof (cases c)
  case (Fire h r1 r2 now)
  assume "tickOf c s = Some code"
  then obtain t where "map_of (pending s) h = Some t" "t_room t = code" using Fire by auto
  then show ?thesis using armedI[OF map_of_SomeD] by blast
qed simp_all

lemma quiet_run:
  assumes "schedulerOk s" and "\<not> armed code s" and "\<forall>c \<in> set cs. \<not> startsScheduler code c"
  shows "ticks code cs s = 0"
  using assms
proof (induction cs arbitrary: s)
  case Nil
  then show ?case by simp
next
  case (Cons c cs)
  have "tickOf c s \<noteq> Some code" using tick_needs_timer Cons.prems(2) by blast
  moreover have "schedulerOk (exec c s)" by (rule exec_scheduler_ok[OF Cons.prems(1)])
  moreover have "\<not> armed code (exec c s)" using exec_armed[of code c s] Cons.prems(2,3) by auto
  ultimately show ?case using Cons.IH Cons.prems(3) by simp
qed

lemma handleLeave_inactive:
  "activeSchedulers s c = None \<Longrightarrow> activeSchedulers (handleLeave sid code now s) c = None"
  by (simp add: handleLeave_active split: option.splits)

lemma handleDisconnect_inactive:
  "activeSchedulers s c = None \<Longrightarrow> activeSchedulers (handleDisconnect sid now s) c = None"
  by (simp add: handleDisconnect_def Let_def handleLeave_inactive)

lemma fold_forceDisconnect_inactive:
  "activeSchedulers s c = None
     \<Longrightarrow> activeSchedulers (fold (forceDisconnect code now) sids s) c = None"
proof (induction sids arbitrary: s)
  case Nil
  then show ?case by simp
next
  case (Cons a sids)
  have "activeSchedulers (forceDisconnect code now a s) c = None"
    unfolding forceDisconnect_def using Cons.prems by (simp add: handleDisconnect_inactive)
  then show ?case using Cons.IH by simp
qed

lemma closeRoomAction_inactive:
  assumes "findRoomById rid s \<noteq> None" and "code \<noteq> []"
  shows "activeSchedulers (closeRoomAction (Some rid) code now s) (toUpperCase code) = None"
proof -
  obtain s2 s3 where st: "timers s2 = timers s" "s3 = stopRoomScheduler (toUpperCase code) s2"
    "closeRoomAction (Some rid) code now s = s3
     \<or> closeRoomAction (Some rid) code now s = notifyClosure (toUpperCase code) now s3"
    using closeRoomAction_steps[OF assms] by metis
  have q: "activeSchedulers s3 (toUpperCase code) = None"
    unfolding st(2) by (simp add: stopRoomScheduler_active)
  then have "activeSchedulers (notifyClosure (toUpperCase code) now s3) (toUpperCase code) = None"
    unfolding notifyClosure_def Let_def by (simp add: fold_forceDisconnect_inactive)
  then show ?thesis using st(3) q by auto
qed

lemma admin_join_arms:
  assumes "activeSchedulers s (toUpperCase code) = None"
  shows "armed (toUpperCase code) (handleJoin sid code name True now r s)"
proof -
  have "timers (handleJoin sid code name True now r s)
          = timers (startRoomScheduler (toUpperCase code) r s)"
  proof (cases rule: handleJoin_cases[of sid code name True now r s])
    case rejected
    then show ?thesis by simp
  next
    case created
    have t0: "timers (snd (createRoom (toUpperCase code) now s)) = timers s" by (simp add: timers_def)
    have "timers (handleJoin sid code name True now r s)
          = timers (startRoomScheduler (toUpperCase code) r (snd (createRoom (toUpperCase code) now s)))"
      using created(1) by (simp add: enterRoom_timers)
    then show ?thesis using startRoomScheduler_timers[OF t0] by simp
  next
    case (found room)
    then show ?thesis by (simp add: enterRoom_timers)
  qed
  moreover have "armed (toUpperCase code) (startRoomScheduler (toUpperCase code) r s)"
    using assms by (simp add: armed_def startRoomScheduler_fields)
  ultimately show ?thesis using armed_cong by blast
qed

text \<open>
  C3, amended. Take a state where every pending timer is the one that \<open>activeSchedulers\<close>
  records for its room code, the id of an existing room, and a room code that is not
  empty. After the closure under that id and code no timer is pending for the room code
  (in upper case), and no tick for that code occurs in any run of commands after it
  that contains no join of an admin under that code: joins without the admin flag,
  leaves, disconnects, other rooms' ticks and later closures do not bring the scheduler
  back. A join of an admin under that code, right after the closure, arms a timer for
  the room code again. Under the empty room code the closure returns at once and
  changes nothing, whatever timer is pending.
\<close>

theorem closed_room_quiet_until_admin_join:
  assumes "schedulerOk s" and "findRoomById rid s \<noteq> None" and "code \<noteq> []"
      and "\<forall>c \<in> set cs. \<not> startsScheduler (toUpperCase code) c"
  shows "\<not> armed (toUpperCase code) (closeRoomAction (Some rid) code now s)
       \<and> ticks (toUpperCase code) cs (closeRoomAction (Some rid) code now s) = 0
       \<and> armed (toUpperCase code)
           (handleJoin sid code name True later r (closeRoomAction (Some rid) code now s))
       \<and> closeRoomAction (Some rid) [] now s = s"
proof -
  have ok: "schedulerOk (closeRoomAction (Some rid) code now s)"
    using closeRoomAction_calmer[of s "Some rid" code now] assms(1) by (simp add: calmer_def)
  have q: "\<not> armed (toUpperCase code) (closeRoomAction (Some rid) code now s)"
    by (rule closeRoomAction_quiet[OF assms(1,2,3)])
  have j: "armed (toUpperCase code)
           (handleJoin sid code name True later r (closeRoomAction (Some rid) code now s))"
    by (rule admin_join_arms[OF closeRoomAction_inactive[OF assms(2,3)]])
  have e: "closeRoomAction (Some rid) [] now s = s"
    by (simp add: closeRoomAction_def)
  show ?thesis by (intro conjI q quiet_run[OF ok q assms(4)] j e)
qed

theorem closed_room_quiet_until_admin_join_witness:
  "schedulerOk formateurIn \<and> findRoomById 0 formateurIn \<noteq> None \<and> ''ABCD1'' \<noteq> []
   \<and> \<not> startsScheduler (toUpperCase ''ABCD1'') (Join ''c8'' ''abcd1'' ''Bob'' False 9000 0)
   \<and> \<not> startsScheduler (toUpperCase ''ABCD1'') (Fire 0 (1 / 2) (1 / 2) 30000)
   \<and> armed ''ABCD1'' formateurIn
   \<and> \<not> armed (toUpperCase ''ABCD1'') (closeRoomAction (Some 0) ''ABCD1'' 8000 formateurIn)
   \<and> ticks (toUpperCase ''ABCD1'')
        [Join ''c8'' ''abcd1'' ''Bob'' False 9000 0, Fire 0 (1 / 2) (1 / 2) 30000]
        (closeRoomAction (Some 0) ''ABCD1'' 8000 formateurIn) = 0
   \<and> armed (toUpperCase ''ABCD1'')
        (handleJoin ''c9'' ''ABCD1'' ''FORM2'' True 9500 0
           (closeRoomAction (Some 0) ''ABCD1'' 8000 formateurIn))
   \<and> armed ''ABCD1'' (closeRoomAction (Some 0) [] 8000 formateurIn)"
proof -
  have h1: "schedulerOk formateurIn" by (simp add: schedulerOk_def formateurIn_eq)
  have h2: "findRoomById 0 formateurIn \<noteq> None" by (simp add: findRoomById_def formateurIn_eq)
  have h3: "''ABCD1'' \<noteq> []" by simp
  have a: "\<not> startsScheduler (toUpperCase ''ABCD1'') (Join ''c8'' ''abcd1'' ''Bob'' False 9000 0)"
    and b: "\<not> startsScheduler (toUpperCase ''ABCD1'') (Fire 0 (1 / 2) (1 / 2) 30000)"
    by simp_all
  then have h4: "\<forall>c \<in> set [Join ''c8'' ''abcd1'' ''Bob'' False 9000 0, Fire 0 (1 / 2) (1 / 2) 30000].
         \<not> startsScheduler (toUpperCase ''ABCD1'') c" by simp
  have before: "armed ''ABCD1'' formateurIn" by (simp add: armed_def formateurIn_eq)
  note t = closed_room_quiet_until_admin_join[OF h1 h2 h3 h4, where now = 8000
      and sid = "''c9''" and name = "''FORM2''" and later = 9500 and r = 0]
  have same: "closeRoomAction (Some 0) [] 8000 formateurIn = formateurIn"
    by (rule t[THEN conjunct2, THEN conjunct2, THEN conjunct2])
  have kept: "armed ''ABCD1'' (closeRoomAction (Some 0) [] 8000 formateurIn)"
    unfolding same by (rule before)
  show ?thesis
    by (intro conjI h1 h2 h3 a b before t[THEN conjunct1] t[THEN conjunct2, THEN conjunct1]
        t[THEN conjunct2, THEN conjunct2, THEN conjunct1] kept)
qed

text \<open>
  The closure under the empty room code: the room of the empty code has a timer, the
  closure of that room returns at once, and the timer fires afterwards, one tick.
\<close>

lemma empty_code_closure_keeps_ticking:
  "map r_code (rooms emptyCodeRoom) = [[]]
   \<and> armed [] emptyCodeRoom
   \<and> closeRoomAction (Some 0) [] 8000 emptyCodeRoom = emptyCodeRoom
   \<and> ticks [] [Fire 0 (1 / 2) (1 / 2) 30000] (closeRoomAction (Some 0) [] 8000 emptyCodeRoom) = 1"
proof -
  have r: "map r_code (rooms emptyCodeRoom) = [[]]"
    by (simp add: emptyCodeRoom_def initial_def run_defs)
  have p: "pending emptyCodeRoom = [(0, \<lparr>t_room = [], t_delay = 22500\<rparr>)]"
    by (simp add: emptyCodeRoom_def initial_def run_defs)
  have c: "closeRoomAction (Some 0) [] 8000 emptyCodeRoom = emptyCodeRoom"
    by (simp add: closeRoomAction_def)
  have a: "armed [] emptyCodeRoom" by (simp add: armed_def p)
  have t: "ticks [] [Fire 0 (1 / 2) (1 / 2) 30000] (closeRoomAction (Some 0) [] 8000 emptyCodeRoom) = 1"
    unfolding c by (simp add: p)
  show ?thesis by (intro conjI r a c t)
qed

lemma roomClosed_timers:
  "pending roomClosed = []" "activeSchedulers roomClosed = Map.empty" "nextHandle roomClosed = 1"
  "rooms roomClosed = [\<lparr>r_id = 0, r_code = ''ABCD1'', r_title = Some ''Salle ABCD1'', r_isActive = False,
                r_createdAt = 1000, r_updatedAt = 8000\<rparr>]"
  unfolding roomClosed_def formateurIn_eq
  by (simp_all add: closeRoomAction_def findRoomById_def updateParticipants_def stopRoomScheduler_def
      clearTimeout_def notifyClosure_def forceDisconnect_def handleDisconnect_def handleLeave_def
      socketLeave_def socketLeaveAll_def removeConnection_def broadcastParticipants_def emit_def
      toUpperCase_def toUpperChar_def lowerLetters_def upperLetters_def show_undefined_def
      Let_def)

text \<open>
  C3, as stated, fails: after the closure of ABCD1 an admin joins under the same code,
  which starts the scheduler again, and the new timer fires: one tick for ABCD1.
\<close>

theorem closure_not_terminal_counterexample:
  "ticks ''ABCD1'' [Join ''c7'' ''abcd1'' ''FORM2'' True 9000 (1 / 2), Fire 1 (1 / 2) (1 / 2) 30000]
     roomClosed = 1"
proof -
  let ?j = "handleJoin ''c7'' ''abcd1'' ''FORM2'' True 9000 (1 / 2) roomClosed"
  have "findRoomByCode (toUpperCase ''abcd1'') roomClosed \<noteq> None"
    by (simp add: findRoomByCode_def roomClosed_timers toUpperCase_def toUpperChar_def
        lowerLetters_def upperLetters_def)
  then obtain room where "?j = enterRoom ''c7'' (toUpperCase ''abcd1'') room ''FORM2'' True 9000 (1 / 2) roomClosed"
    by (auto simp add: handleJoin_unfold Let_def)
  then have "pending ?j = [(1, \<lparr>t_room = ''ABCD1'', t_delay = 22500\<rparr>)]"
    by (simp add: joinComplete_def Let_def case_prod_beta startRoomScheduler_def setTimeout_def
        roomClosed_timers randomBetween_def addConnection_def
        toUpperCase_def toUpperChar_def lowerLetters_def upperLetters_def)
  then show ?thesis by simp
qed

section \<open>The registry and the timers\<close>

text \<open>
  The handles recorded in \<open>activeSchedulers\<close> stay in order through every command, next
  to the scheduler.
\<close>

lemma handlesOk_same: "timers b = timers a \<Longrightarrow> handlesOk a \<Longrightarrow> handlesOk b"
  by (simp add: timers_def handlesOk_def)

lemma steady_refl: "steady s s"
  by (simp add: steady_def)

lemma steady_trans: "steady a b \<Longrightarrow> steady b c \<Longrightarrow> steady a c"
  by (simp add: steady_def)

lemma steady_same: "timers b = timers a \<Longrightarrow> steady a b"
  using schedulerOk_same[of b a] handlesOk_same[of b a] by (simp add: steady_def)

lemma steady_cong: "timers b' = timers b \<Longrightarrow> steady a b \<Longrightarrow> steady a b'"
  using schedulerOk_same[of b' b] handlesOk_same[of b' b] by (simp add: steady_def)

lemma stop_handles:
  assumes "handlesOk s"
  shows "handlesOk (stopRoomScheduler code s)"
proof (cases "activeSchedulers s code")
  case None
  then have "stopRoomScheduler code s = s" by (simp add: stopRoomScheduler_def)
  then show ?thesis using assms by simp
next
  case (Some h0)
  have p: "pending (stopRoomScheduler code s) = filter (\<lambda>(h', t). h' \<noteq> h0) (pending s)"
    using Some by (simp add: stopRoomScheduler_pending)
  have a: "activeSchedulers (stopRoomScheduler code s) = (activeSchedulers s)(code := None)"
    using Some by (simp add: stopRoomScheduler_def clearTimeout_def Let_def)
  have n: "nextHandle (stopRoomScheduler code s) = nextHandle s"
    using Some by (simp add: stopRoomScheduler_def clearTimeout_def Let_def)
  show ?thesis
    unfolding handlesOk_def p a n
    using assms[unfolded handlesOk_def] by (auto split: if_splits)
qed

lemma stop_steady: "steady s (stopRoomScheduler code s)"
  using stop_ok stop_handles by (simp add: steady_def)

lemma start_handles:
  assumes "schedulerOk s" and "handlesOk s"
  shows "handlesOk (startRoomScheduler code r s)"
proof (cases "activeSchedulers s code")
  case (Some h0)
  then have "startRoomScheduler code r s = s" by (simp add: startRoomScheduler_def)
  then show ?thesis using assms by simp
next
  case None
  have fresh: "\<And>t. (nextHandle s, t) \<notin> set (pending s)"
    using schedulerOkD(1)[OF assms(1)] by fastforce
  show ?thesis
    unfolding handlesOk_def startRoomScheduler_fields
    using None assms(2)[unfolded handlesOk_def] fresh
    by (auto split: if_splits intro: less_SucI)
qed

lemma start_steady: "steady s (startRoomScheduler code r s)"
  using start_ok start_handles by (simp add: steady_def)

lemma fire_handles:
  assumes "schedulerOk s" and "handlesOk s"
  shows "handlesOk (fire h r1 r2 now s)"
proof (cases "map_of (pending s) h")
  case None
  then show ?thesis using assms by (simp add: fire_def)
next
  case (Some t0)
  let ?a = "clearTimeout h s"
  have e: "fire h r1 r2 now s = tick (t_room t0) r1 r2 now ?a"
    using Some by (simp add: fire_def)
  have pa: "pending ?a = filter (\<lambda>(h', t). h' \<noteq> h) (pending s)"
    and aa: "activeSchedulers ?a = activeSchedulers s" and na: "nextHandle ?a = nextHandle s"
    by (simp_all add: clearTimeout_def)
  have fresh: "\<And>t. (nextHandle s, t) \<notin> set (pending s)"
    using schedulerOkD(1)[OF assms(1)] by fastforce
  show ?thesis
    unfolding handlesOk_def e tick_timers pa aa na
    using assms(2)[unfolded handlesOk_def] fresh
    by (auto split: if_splits intro: less_SucI)
qed

lemma fire_steady: "steady s (fire h r1 r2 now s)"
  using fire_ok fire_handles by (simp add: steady_def)

lemma handleLeave_steady: "steady s (handleLeave sid code now s)"
  using handleLeave_timers[of sid code now s] steady_same
    steady_cong[OF _ stop_steady[of s "toUpperCase code"]]
  by blast

lemma handleDisconnect_steady: "steady s (handleDisconnect sid now s)"
proof -
  have "steady s (socketLeaveAll sid s)" by (rule steady_same) (simp add: timers_def)
  then show ?thesis
    unfolding handleDisconnect_def Let_def
    using steady_trans[OF _ handleLeave_steady] by simp
qed

lemma forceDisconnect_steady: "steady s (forceDisconnect code now sid s)"
proof -
  have "steady s (socketLeave sid code s)" by (rule steady_same) (simp add: timers_def)
  then show ?thesis
    unfolding forceDisconnect_def using steady_trans[OF _ handleDisconnect_steady] by blast
qed

lemma fold_forceDisconnect_steady: "steady s (fold (forceDisconnect code now) sids s)"
proof (induction sids arbitrary: s)
  case Nil
  show ?case by (simp add: steady_refl)
next
  case (Cons a sids)
  show ?case using steady_trans[OF forceDisconnect_steady Cons.IH] by simp
qed

lemma notifyClosure_steady: "steady s (notifyClosure code now s)"
proof -
  have "steady s (emit m s)" for m by (rule steady_same) (simp add: timers_def)
  then show ?thesis
    unfolding notifyClosure_def Let_def
    using steady_trans fold_forceDisconnect_steady by blast
qed

lemma closeRoomAction_steady: "steady s (closeRoomAction rid code now s)"
proof (cases "\<exists>rid'. rid = Some rid' \<and> code \<noteq> [] \<and> findRoomById rid' s \<noteq> None")
  case False
  then have "closeRoomAction rid code now s = s"
    by (auto simp add: closeRoomAction_def split: option.splits)
  then show ?thesis by (simp add: steady_refl)
next
  case True
  then obtain rid' where t: "rid = Some rid'" "code \<noteq> []" "findRoomById rid' s \<noteq> None" by auto
  obtain s2 s3 where st: "timers s2 = timers s" "s3 = stopRoomScheduler (toUpperCase code) s2"
    "closeRoomAction (Some rid') code now s = s3
     \<or> closeRoomAction (Some rid') code now s = notifyClosure (toUpperCase code) now s3"
    using closeRoomAction_steps[OF t(3,2)] by metis
  have "steady s s2" by (rule steady_same[OF st(1)])
  then have "steady s s3" unfolding st(2) using steady_trans stop_steady by blast
  then show ?thesis
    using st(3) t(1) steady_trans[OF _ notifyClosure_steady] by auto
qed

lemma handleJoin_steady: "steady s (handleJoin sid code name admin now r s)"
  using handleJoin_timers[of sid code name admin now r s] steady_same
    steady_cong[OF _ start_steady[of s "toUpperCase code" r]]
  by blast

lemma exec_steady: "steady s (exec c s)"
proof (cases c)
  case (Join sid code name admin now r)
  then show ?thesis using handleJoin_steady by simp
next
  case (Leave sid code now)
  then show ?thesis using handleLeave_steady by simp
next
  case (Disconnect sid now)
  then show ?thesis using handleDisconnect_steady by simp
next
  case (Chat sid content now)
  have "timers (exec c s) = timers s" unfolding Chat by (simp add: timers_def)
  then show ?thesis by (rule steady_same)
next
  case (EventCreate sid title description severity now)
  have "timers (exec c s) = timers s" unfolding EventCreate by (simp add: timers_def)
  then show ?thesis by (rule steady_same)
next
  case (EventAck sid eventId now)
  have "timers (exec c s) = timers s" unfolding EventAck by (simp add: timers_def)
  then show ?thesis by (rule steady_same)
next
  case (Fire h r1 r2 now)
  then show ?thesis using fire_steady by simp
next
  case (CloseRoom rid code now)
  then show ?thesis using closeRoomAction_steady by simp
qed

lemma run_steady: "steady s (run cs s)"
proof (induction cs arbitrary: s)
  case Nil
  show ?case by (simp add: run_def steady_refl)
next
  case (Cons c cs)
  have "run (c # cs) s = run cs (exec c s)" by (simp add: run_def)
  then show ?case using steady_trans[OF exec_steady Cons.IH] by simp
qed

text \<open>
  The two parts of a join keep the registry and the timers in order each on its own,
  whatever the task holds: the handler writes to the registry and to the scheduler in
  its second part, with no call to the store in between, so that joins which overlap
  do not disturb them.
\<close>

lemma joinComplete_timers:
  "timers (joinComplete task now r s)
     = (if jt_admin task then timers (startRoomScheduler (jt_code task) r s) else timers s)"
  by (simp add: joinComplete_def Let_def case_prod_beta timers_def startRoomScheduler_fields)

lemma joinComplete_registry:
  "roomConnections (joinComplete task now r s) =
     (roomConnections s)(jt_code task \<mapsto>
        finsert (jt_sid task) (case roomConnections s (jt_code task) of None \<Rightarrow> {||} | Some c \<Rightarrow> c))"
  by (simp add: joinComplete_def addConnection_def Let_def case_prod_beta)

lemma join_parts_registryOk:
  assumes "registryOk s"
  shows "registryOk (snd (joinLookup sid code name admin now s))"
    and "registryOk (joinComplete task now r s)"
  using assms by (auto simp add: registryOk_def joinComplete_registry)

lemma join_parts_steady:
  shows "steady s (snd (joinLookup sid code name admin now s))"
    and "steady s (joinComplete task now r s)"
proof -
  show "steady s (snd (joinLookup sid code name admin now s))"
    by (rule steady_same) (simp add: timers_def)
  show "steady s (joinComplete task now r s)"
  proof (cases "jt_admin task")
    case True
    then have "timers (joinComplete task now r s) = timers (startRoomScheduler (jt_code task) r s)"
      by (simp add: joinComplete_timers)
    then show ?thesis using start_steady by (rule steady_cong)
  next
    case False
    then have "timers (joinComplete task now r s) = timers s" by (simp add: joinComplete_timers)
    then show ?thesis by (rule steady_same)
  qed
qed

text \<open>
  What one join, leave or disconnect cancels: a timer that is no longer recorded for
  its room is not pending where the scheduler is in order, and where the handles are in
  order the only timer that a leave cancels is the one of the room whose entry of
  \<open>activeSchedulers\<close> it deletes.
\<close>

lemma timers_fields:
  assumes "timers a = timers b"
  shows "pending a = pending b" and "activeSchedulers a = activeSchedulers b"
    and "nextHandle a = nextHandle b"
  using assms by (simp_all add: timers_def)

lemma unrecorded_quiet:
  assumes "schedulerOk s" and "code \<notin> dom (activeSchedulers s)"
  shows "\<not> armed code s"
proof
  assume "armed code s"
  then obtain h t where "(h, t) \<in> set (pending s)" "t_room t = code" using armedE by blast
  then have "activeSchedulers s code = Some h" using schedulerOkD(2)[OF assms(1)] by blast
  then show False using assms(2) by auto
qed

lemma stop_cancels:
  assumes "handlesOk s" and "(h, t) \<in> set (pending s)"
      and "(h, t) \<notin> set (pending (stopRoomScheduler code s))"
  shows "t_room t = code \<and> code \<in> dom (activeSchedulers s)
         \<and> code \<notin> dom (activeSchedulers (stopRoomScheduler code s))"
proof (cases "activeSchedulers s code")
  case None
  then have "stopRoomScheduler code s = s" by (simp add: stopRoomScheduler_def)
  then show ?thesis using assms(2,3) by simp
next
  case (Some h0)
  have "pending (stopRoomScheduler code s) = filter (\<lambda>(h', t). h' \<noteq> h0) (pending s)"
    using Some by (simp add: stopRoomScheduler_pending)
  then have "h = h0" using assms(2,3) by auto
  then have "t_room t = code" using assms(1,2) Some by (auto simp add: handlesOk_def)
  moreover have "activeSchedulers (stopRoomScheduler code s) code = None"
    using Some by (simp add: stopRoomScheduler_def clearTimeout_def Let_def)
  ultimately show ?thesis using Some by auto
qed

lemma leave_cancels:
  assumes "handlesOk s" and "(h, t) \<in> set (pending s)"
      and "(h, t) \<notin> set (pending (handleLeave sid code now s))"
  shows "t_room t \<in> dom (activeSchedulers s)
         \<and> t_room t \<notin> dom (activeSchedulers (handleLeave sid code now s))"
proof -
  from handleLeave_timers[of sid code now s] show ?thesis
  proof
    assume "timers (handleLeave sid code now s) = timers s"
    then have "pending (handleLeave sid code now s) = pending s" by (rule timers_fields(1))
    then show ?thesis using assms(2,3) by simp
  next
    assume e: "timers (handleLeave sid code now s) = timers (stopRoomScheduler (toUpperCase code) s)"
    have "(h, t) \<notin> set (pending (stopRoomScheduler (toUpperCase code) s))"
      using assms(3) unfolding timers_fields(1)[OF e] .
    from stop_cancels[OF assms(1,2) this] show ?thesis
      unfolding timers_fields(2)[OF e] by simp
  qed
qed

lemma join_keeps_timers:
  assumes "(h, t) \<in> set (pending s)"
  shows "(h, t) \<in> set (pending (handleJoin sid code name admin now r s))"
proof -
  from handleJoin_timers[of sid code name admin now r s] show ?thesis
  proof
    assume "timers (handleJoin sid code name admin now r s) = timers s"
    then have "pending (handleJoin sid code name admin now r s) = pending s"
      by (rule timers_fields(1))
    then show ?thesis using assms by simp
  next
    assume "admin \<and> timers (handleJoin sid code name admin now r s)
                 = timers (startRoomScheduler (toUpperCase code) r s)"
    then have "timers (handleJoin sid code name admin now r s)
                 = timers (startRoomScheduler (toUpperCase code) r s)" by (rule conjunct2)
    then have "pending (handleJoin sid code name admin now r s)
                 = pending (startRoomScheduler (toUpperCase code) r s)" by (rule timers_fields(1))
    then show ?thesis using assms by (simp add: startRoomScheduler_fields)
  qed
qed

lemma connection_cancels:
  assumes "handlesOk s" and "connectionCommand c" and "(h, t) \<in> set (pending s)"
      and "(h, t) \<notin> set (pending (exec c s))"
  shows "t_room t \<in> dom (activeSchedulers s) \<and> t_room t \<notin> dom (activeSchedulers (exec c s))"
proof (cases c)
  case (Join sid code name admin now r)
  then show ?thesis using join_keeps_timers[OF assms(3)] assms(4) by simp
next
  case (Leave sid code now)
  then show ?thesis using leave_cancels[OF assms(1,3)] assms(4) by simp
next
  case (Disconnect sid now)
  let ?s = "socketLeaveAll sid s"
  have ok: "handlesOk ?s" using assms(1) by (rule handlesOk_same[rotated]) (simp add: timers_def)
  have same: "pending ?s = pending s" "activeSchedulers ?s = activeSchedulers s" by simp_all
  show ?thesis
  proof (cases "truthy (roomCode (socketData s sid))")
    case True
    then have e: "exec c s = handleLeave sid (show_undefined (roomCode (socketData s sid))) now ?s"
      using Disconnect by (simp add: handleDisconnect_def Let_def)
    have i: "(h, t) \<in> set (pending ?s)" using assms(3) by simp
    from leave_cancels[OF ok i] assms(4) show ?thesis unfolding e same by blast
  next
    case False
    then have "exec c s = ?s" using Disconnect by (simp add: handleDisconnect_def Let_def)
    then show ?thesis using assms(3,4) by simp
  qed
qed (use assms(2) in simp_all)

text \<open>
  C10. When no room code of the registry \<open>roomConnections\<close> has an empty set of
  connections, this is again so after a join, a leave or a disconnect. Such a command
  deletes the entry of a room code exactly when it removes the only connection of that
  entry. The scheduler of a room is stopped in that step and in no other: the entry of
  \<open>activeSchedulers\<close> for a room code disappears only in a step that deletes the registry
  entry of that code, and it is absent after every such step; where every pending timer
  is the recorded one, no timer is pending for the room code after a step that deletes
  its entry; and where the recorded handles are in order, a timer that was pending and
  is not pending any more is a timer of a room whose entry the step has deleted.
\<close>

theorem registry_entries_nonempty:
  assumes "registryOk s" and "connectionCommand c"
  shows "registryOk (exec c s)
    \<and> (\<forall>code. (code \<in> dom (roomConnections s) \<and> code \<notin> dom (roomConnections (exec c s)))
          \<longleftrightarrow> (\<exists>sid. removal c s = Some (sid, code) \<and> roomConnections s code = Some {|sid|}))
    \<and> (\<forall>code. code \<in> dom (activeSchedulers s) \<and> code \<notin> dom (activeSchedulers (exec c s))
          \<longrightarrow> code \<in> dom (roomConnections s) \<and> code \<notin> dom (roomConnections (exec c s)))
    \<and> (\<forall>code. code \<in> dom (roomConnections s) \<and> code \<notin> dom (roomConnections (exec c s))
          \<longrightarrow> code \<notin> dom (activeSchedulers (exec c s)))
    \<and> (schedulerOk s \<longrightarrow>
          (\<forall>code. code \<in> dom (roomConnections s) \<and> code \<notin> dom (roomConnections (exec c s))
             \<longrightarrow> \<not> armed code (exec c s)))
    \<and> (handlesOk s \<longrightarrow>
          (\<forall>h t. (h, t) \<in> set (pending s) \<and> (h, t) \<notin> set (pending (exec c s))
             \<longrightarrow> t_room t \<in> dom (roomConnections s)
                 \<and> t_room t \<notin> dom (roomConnections (exec c s))))"
proof -
  note st = registry_step[OF assms]
  note c1 = st[THEN conjunct1]
  note c2 = st[THEN conjunct2, THEN conjunct1]
  note c3 = st[THEN conjunct2, THEN conjunct2, THEN conjunct1]
  note c4 = st[THEN conjunct2, THEN conjunct2, THEN conjunct2]
  have c5: "schedulerOk s \<longrightarrow>
          (\<forall>code. code \<in> dom (roomConnections s) \<and> code \<notin> dom (roomConnections (exec c s))
             \<longrightarrow> \<not> armed code (exec c s))"
  proof (intro impI allI)
    fix code
    assume ok: "schedulerOk s"
      and del: "code \<in> dom (roomConnections s) \<and> code \<notin> dom (roomConnections (exec c s))"
    have "schedulerOk (exec c s)" using ok by (rule exec_scheduler_ok)
    moreover have "code \<notin> dom (activeSchedulers (exec c s))"
      by (rule mp[OF c4[THEN spec, of code] del])
    ultimately show "\<not> armed code (exec c s)" by (rule unrecorded_quiet)
  qed
  have c6: "handlesOk s \<longrightarrow>
          (\<forall>h t. (h, t) \<in> set (pending s) \<and> (h, t) \<notin> set (pending (exec c s))
             \<longrightarrow> t_room t \<in> dom (roomConnections s)
                 \<and> t_room t \<notin> dom (roomConnections (exec c s)))"
  proof (intro impI allI)
    fix h t
    assume ok: "handlesOk s"
      and gone: "(h, t) \<in> set (pending s) \<and> (h, t) \<notin> set (pending (exec c s))"
    have "t_room t \<in> dom (activeSchedulers s) \<and> t_room t \<notin> dom (activeSchedulers (exec c s))"
      by (rule connection_cancels[OF ok assms(2) gone[THEN conjunct1] gone[THEN conjunct2]])
    then show "t_room t \<in> dom (roomConnections s) \<and> t_room t \<notin> dom (roomConnections (exec c s))"
      by (rule mp[OF c3[THEN spec, of "t_room t"]])
  qed
  show ?thesis by (rule conjI[OF c1 conjI[OF c2 conjI[OF c3 conjI[OF c4 conjI[OF c5 c6]]]]])
qed

theorem registry_entries_nonempty_witness:
  "registryOk formateurIn \<and> connectionCommand (Disconnect ''c1'' 5000)
   \<and> schedulerOk formateurIn \<and> handlesOk aliceIn \<and> registryOk aliceIn
   \<and> registryOk (exec (Disconnect ''c1'' 5000) formateurIn)
   \<and> ''ABCD1'' \<notin> dom (roomConnections (exec (Disconnect ''c1'' 5000) formateurIn))
   \<and> ''ABCD1'' \<notin> dom (activeSchedulers (exec (Disconnect ''c1'' 5000) formateurIn))
   \<and> armed ''ABCD1'' formateurIn
   \<and> \<not> armed ''ABCD1'' (exec (Disconnect ''c1'' 5000) formateurIn)
   \<and> ''ABCD1'' \<in> dom (roomConnections (exec (Disconnect ''c2'' 5000) aliceIn))
   \<and> (0, \<lparr>t_room = ''ABCD1'', t_delay = 22500\<rparr>) \<in> set (pending (exec (Disconnect ''c2'' 5000) aliceIn))"
proof -
  have h1: "registryOk formateurIn" by (simp add: registryOk_def formateurIn_eq)
  have h2: "connectionCommand (Disconnect ''c1'' 5000)" by simp
  have h3: "schedulerOk formateurIn" by (simp add: schedulerOk_def formateurIn_eq)
  have r: "removal (Disconnect ''c1'' 5000) formateurIn = Some (''c1'', ''ABCD1'')"
    by (simp add: formateurIn_eq toUpperCase_def toUpperChar_def lowerLetters_def upperLetters_def show_undefined_def)
  let ?s' = "exec (Disconnect ''c1'' 5000) formateurIn"
  note t = registry_entries_nonempty[OF h1 h2]
  have last: "\<exists>sid. removal (Disconnect ''c1'' 5000) formateurIn = Some (sid, ''ABCD1'')
           \<and> roomConnections formateurIn ''ABCD1'' = Some {|sid|}"
    unfolding r by (simp add: formateurIn_eq)
  have gone: "''ABCD1'' \<in> dom (roomConnections formateurIn) \<and> ''ABCD1'' \<notin> dom (roomConnections ?s')"
    by (rule iffD2[OF t[THEN conjunct2, THEN conjunct1, THEN spec, of "''ABCD1''"] last])
  have stopped: "''ABCD1'' \<notin> dom (activeSchedulers ?s')"
    by (rule mp[OF t[THEN conjunct2, THEN conjunct2, THEN conjunct2, THEN conjunct1, THEN spec, of "''ABCD1''"] gone])
  have before: "armed ''ABCD1'' formateurIn" by (simp add: armed_def formateurIn_eq)
  have quiet: "\<not> armed ''ABCD1'' ?s'"
    by (rule mp[OF mp[OF t[THEN conjunct2, THEN conjunct2, THEN conjunct2, THEN conjunct2,
              THEN conjunct1] h3, THEN spec, of "''ABCD1''"] gone])
  have k1: "registryOk aliceIn" by (simp add: registryOk_def aliceIn_eq)
  have k2: "connectionCommand (Disconnect ''c2'' 5000)" by simp
  have k3: "handlesOk aliceIn" by (simp add: handlesOk_def aliceIn_eq)
  let ?a' = "exec (Disconnect ''c2'' 5000) aliceIn"
  let ?t = "\<lparr>t_room = ''ABCD1'', t_delay = 22500\<rparr>"
  note u = registry_entries_nonempty[OF k1 k2]
  have ra: "removal (Disconnect ''c2'' 5000) aliceIn = Some (''c2'', ''ABCD1'')"
    by (simp add: aliceIn_eq toUpperCase_def toUpperChar_def lowerLetters_def upperLetters_def show_undefined_def)
  have two: "roomConnections aliceIn ''ABCD1'' = Some {|''c2'', ''c1''|}" by (simp add: aliceIn_eq)
  have notlast: "\<not> (\<exists>sid. removal (Disconnect ''c2'' 5000) aliceIn = Some (sid, ''ABCD1'')
           \<and> roomConnections aliceIn ''ABCD1'' = Some {|sid|})"
    unfolding ra two by auto
  have there: "''ABCD1'' \<in> dom (roomConnections aliceIn)" using two by auto
  have kept_entry: "''ABCD1'' \<in> dom (roomConnections ?a')"
    using u[THEN conjunct2, THEN conjunct1, THEN spec, of "''ABCD1''"] notlast there by blast
  have pend: "(0, ?t) \<in> set (pending aliceIn)" by (simp add: aliceIn_eq)
  have kept_timer: "(0, ?t) \<in> set (pending ?a')"
  proof (rule ccontr)
    assume "(0, ?t) \<notin> set (pending ?a')"
    with pend have "(0, ?t) \<in> set (pending aliceIn) \<and> (0, ?t) \<notin> set (pending ?a')" by (rule conjI)
    from mp[OF mp[OF u[THEN conjunct2, THEN conjunct2, THEN conjunct2, THEN conjunct2,
              THEN conjunct2] k3, THEN spec, THEN spec, of 0 ?t] this]
    show False using kept_entry by simp
  qed
  show ?thesis
    by (intro conjI h1 h2 h3 k3 k1 t[THEN conjunct1] gone[THEN conjunct2] stopped before quiet
        kept_entry kept_timer)
qed

section \<open>The reachable states\<close>

lemma registryOk_same: "roomConnections b = roomConnections a \<Longrightarrow> registryOk a \<Longrightarrow> registryOk b"
  by (simp add: registryOk_def)

lemma handleDisconnect_registryOk:
  assumes "registryOk s"
  shows "registryOk (handleDisconnect sid now s)"
proof -
  have ok: "registryOk (socketLeaveAll sid s)"
    using assms by (rule registryOk_same[rotated]) simp
  show ?thesis
    unfolding handleDisconnect_def Let_def
    using ok leave_registry_step(1)[OF ok] by simp
qed

lemma fold_forceDisconnect_registryOk:
  "registryOk s \<Longrightarrow> registryOk (fold (forceDisconnect code now) sids s)"
proof (induction sids arbitrary: s)
  case Nil
  then show ?case by simp
next
  case (Cons a sids)
  have "registryOk (socketLeave a code s)"
    using Cons.prems by (rule registryOk_same[rotated]) simp
  then have "registryOk (forceDisconnect code now a s)"
    unfolding forceDisconnect_def by (rule handleDisconnect_registryOk)
  then show ?case using Cons.IH by simp
qed

lemma closeRoomAction_registryOk:
  assumes "registryOk s"
  shows "registryOk (closeRoomAction rid code now s)"
proof (cases "\<exists>rid'. rid = Some rid' \<and> code \<noteq> [] \<and> findRoomById rid' s \<noteq> None")
  case False
  then have "closeRoomAction rid code now s = s"
    by (auto simp add: closeRoomAction_def split: option.splits)
  then show ?thesis using assms by simp
next
  case True
  then obtain rid' where t: "rid = Some rid'" "code \<noteq> []" "findRoomById rid' s \<noteq> None" by auto
  let ?s3 = "stopRoomScheduler (toUpperCase code)
               (updateParticipants (\<lambda>p. p_roomId p = rid' \<and> p_isConnected p)
                  (\<lambda>p. p\<lparr>p_isConnected := False, p_leftAt := Some now\<rparr>)
                  (s\<lparr>rooms := map (\<lambda>r. if r_id r = rid'
                       then r\<lparr>r_isActive := False, r_updatedAt := now\<rparr> else r) (rooms s)\<rparr>))"
  have e: "closeRoomAction rid code now s
             = (if io ?s3 then notifyClosure (toUpperCase code) now ?s3 else ?s3)"
    using t by (auto simp add: closeRoomAction_def Let_def)
  have ok3: "registryOk ?s3" using assms by (rule registryOk_same[rotated]) simp
  have "registryOk (emit m ?s3)" for m using ok3 by (rule registryOk_same[rotated]) simp
  then have "registryOk (notifyClosure (toUpperCase code) now ?s3)"
    unfolding notifyClosure_def Let_def by (rule fold_forceDisconnect_registryOk)
  then show ?thesis using e ok3 by simp
qed

lemma exec_registryOk:
  assumes "registryOk s"
  shows "registryOk (exec c s)"
proof (cases c)
  case (Join sid code name admin now r)
  then show ?thesis using join_registry_step(1)[OF assms] by simp
next
  case (Leave sid code now)
  then show ?thesis using leave_registry_step(1)[OF assms] by simp
next
  case (Disconnect sid now)
  then show ?thesis using handleDisconnect_registryOk[OF assms] by simp
next
  case (Chat sid content now)
  have "roomConnections (exec c s) = roomConnections s" unfolding Chat by simp
  then show ?thesis using assms by (rule registryOk_same)
next
  case (EventCreate sid title description severity now)
  have "roomConnections (exec c s) = roomConnections s" unfolding EventCreate by simp
  then show ?thesis using assms by (rule registryOk_same)
next
  case (EventAck sid eventId now)
  have "roomConnections (exec c s) = roomConnections s" unfolding EventAck by simp
  then show ?thesis using assms by (rule registryOk_same)
next
  case (Fire h r1 r2 now)
  have "roomConnections (exec c s) = roomConnections s" unfolding Fire by simp
  then show ?thesis using assms by (rule registryOk_same)
next
  case (CloseRoom rid code now)
  then show ?thesis using closeRoomAction_registryOk[OF assms] by simp
qed

lemma run_invariants:
  assumes "registryOk s" and "schedulerOk s" and "handlesOk s"
  shows "registryOk (run cs s) \<and> schedulerOk (run cs s) \<and> handlesOk (run cs s)"
proof -
  have "registryOk (run cs s)" using assms(1)
  proof (induction cs arbitrary: s)
    case Nil
    then show ?case by (simp add: run_def)
  next
    case (Cons c cs)
    have "run (c # cs) s = run cs (exec c s)" by (simp add: run_def)
    then show ?case using Cons.IH[OF exec_registryOk[OF Cons.prems]] by simp
  qed
  moreover have "schedulerOk (run cs s) \<and> handlesOk (run cs s)"
    using run_steady[of s cs] assms(2,3) by (simp add: steady_def)
  ultimately show ?thesis by simp
qed

text \<open>
  The hypotheses of the theorems above hold in every state that commands reach from the
  initial state, that is, as long as no two handlers overlap. When joins overlap, the
  registry and the timers stay in order all the same (the lemmas on the two parts of a
  join), but two rows of one display name can come to be in one room.
\<close>

lemma reachable_invariants:
  "participantKeysOk (run cs initial) \<and> uniqueByName name (run cs initial)
   \<and> registryOk (run cs initial) \<and> schedulerOk (run cs initial)
   \<and> handlesOk (run cs initial)"
proof -
  have "participantKeysOk initial" by (simp add: participantKeysOk_def initial_def)
  moreover have "uniqueByName name initial" by (simp add: uniqueByName_def initial_def)
  moreover have "registryOk initial" by (simp add: registryOk_def initial_def)
  moreover have "schedulerOk initial" by (simp add: schedulerOk_def initial_def)
  moreover have "handlesOk initial" by (simp add: handlesOk_def initial_def)
  ultimately show ?thesis
    using run_rows[of initial cs name] run_invariants[of initial cs] by blast
qed

end
